(* ===== verification/Ratash_Prelude.thy ===== *)
theory Ratash_Prelude
  imports
    "HOL-Library.Word"
    "HOL-Library.Sublist"
    "HOL-Library.List_Lexorder"
    "HOL-Library.Product_Lexorder"
    "HOL-Library.Char_ord"
begin

text \<open>
  The vocabulary shared by every component of the ratash development.

  \<^item> \<open>u64\<close> and its neighbours are machine words; \<open>checked_add\<close>, \<open>saturating_add\<close>
    and \<open>saturating_sub\<close> are the Rust methods of those names.  Sizes and counts of type
    \<open>usize\<close> are natural numbers; where the code adds them with saturation, \<open>usize_add\<close>
    does.
  \<^item> \<open>Result<T, E>\<close> is the sum type \<open>'e + 'a\<close>, error on the left; \<open>and_then\<close> is
    the question-mark operator and \<open>collect_result\<close> is \<open>iter().map(f).collect()\<close>
    into a \<open>Result\<close>.
  \<^item> \<open>BTreeMap\<close> and \<open>BTreeSet\<close> are strictly ascending association lists and lists:
    iteration order is list order, as the code relies on.  The locale
    \<open>ordered_map\<close> states the contract of the map, and the counting lemmas that the
    schedulers and the catalogue use are proved in it once.
  \<^item> \<open>Vec::insert\<close> and \<open>Vec::remove\<close> are \<open>vec_insert\<close> and \<open>vec_remove\<close>.
\<close>

named_theorems rust_arith \<open>machine arithmetic read back as natural numbers\<close>
named_theorems btree_simps \<open>lookup and key laws of the ordered maps and sets\<close>
named_theorems result_simps \<open>evaluation of results\<close>

section \<open>Machine integers\<close>

type_synonym u8 = "8 word"
type_synonym u16 = "16 word"
type_synonym u32 = "32 word"
type_synonym u64 = "64 word"
type_synonym u128 = "128 word"

definition checked_add :: "'a::len word \<Rightarrow> 'a word \<Rightarrow> 'a word option" where
  "checked_add a b = (if unat a + unat b < 2 ^ LENGTH('a) then Some (a + b) else None)"

definition saturating_add :: "'a::len word \<Rightarrow> 'a word \<Rightarrow> 'a word" where
  "saturating_add a b = (if unat a + unat b < 2 ^ LENGTH('a) then a + b else - 1)"

definition saturating_sub :: "'a::len word \<Rightarrow> 'a word \<Rightarrow> 'a word" where
  "saturating_sub a b = (if b \<le> a then a - b else 0)"

definition usize_max :: nat where
  "usize_max = 2 ^ 64 - 1"

definition usize_add :: "nat \<Rightarrow> nat \<Rightarrow> nat" where
  "usize_add a b = min usize_max (a + b)"

section \<open>Results\<close>

type_synonym ('a, 'e) result = "'e + 'a"

abbreviation Ok :: "'a \<Rightarrow> 'e + 'a" where "Ok \<equiv> Inr"
abbreviation Err :: "'e \<Rightarrow> 'e + 'a" where "Err \<equiv> Inl"

fun and_then :: "'e + 'a \<Rightarrow> ('a \<Rightarrow> 'e + 'b) \<Rightarrow> 'e + 'b" where
  "and_then (Inl e) f = Inl e"
| "and_then (Inr v) f = f v"

fun map_err :: "('e \<Rightarrow> 'f) \<Rightarrow> 'e + 'a \<Rightarrow> 'f + 'a" where
  "map_err f (Inl e) = Inl (f e)"
| "map_err f (Inr v) = Inr v"

fun ok_or :: "'a option \<Rightarrow> 'e \<Rightarrow> 'e + 'a" where
  "ok_or None e = Inl e"
| "ok_or (Some v) e = Inr v"

fun is_ok :: "'e + 'a \<Rightarrow> bool" where
  "is_ok (Inl e) = False"
| "is_ok (Inr v) = True"

fun collect_result :: "('a \<Rightarrow> 'e + 'b) \<Rightarrow> 'a list \<Rightarrow> 'e + 'b list" where
  "collect_result f [] = Inr []"
| "collect_result f (x # xs) =
    (case f x of Inl e \<Rightarrow> Inl e
     | Inr y \<Rightarrow> (case collect_result f xs of Inl e \<Rightarrow> Inl e | Inr ys \<Rightarrow> Inr (y # ys)))"

section \<open>Vectors\<close>

definition vec_insert :: "nat \<Rightarrow> 'a \<Rightarrow> 'a list \<Rightarrow> 'a list" where
  "vec_insert i x xs = take i xs @ x # drop i xs"

definition vec_remove :: "nat \<Rightarrow> 'a list \<Rightarrow> 'a list" where
  "vec_remove i xs = take i xs @ drop (Suc i) xs"

section \<open>Ordered maps and sets\<close>

type_synonym ('k, 'v) btree_map = "('k \<times> 'v) list"
type_synonym 'a btree_set = "'a list"

definition bt_wf :: "('k::linorder, 'v) btree_map \<Rightarrow> bool" where
  "bt_wf m = sorted_wrt (<) (map fst m)"

definition bt_insert :: "'k::linorder \<Rightarrow> 'v \<Rightarrow> ('k, 'v) btree_map \<Rightarrow> ('k, 'v) btree_map" where
  "bt_insert k v m = filter (\<lambda>p. fst p < k) m @ (k, v) # filter (\<lambda>p. k < fst p) m"

definition bt_remove :: "'k::linorder \<Rightarrow> ('k, 'v) btree_map \<Rightarrow> ('k, 'v) btree_map" where
  "bt_remove k m = filter (\<lambda>p. fst p \<noteq> k) m"

abbreviation bt_get :: "('k::linorder, 'v) btree_map \<Rightarrow> 'k \<Rightarrow> 'v option" where
  "bt_get \<equiv> map_of"

definition bt_keys :: "('k::linorder, 'v) btree_map \<Rightarrow> 'k list" where
  "bt_keys m = map fst m"

definition bt_contains :: "('k::linorder, 'v) btree_map \<Rightarrow> 'k \<Rightarrow> bool" where
  "bt_contains m k = (map_of m k \<noteq> None)"

definition bs_wf :: "'a::linorder btree_set \<Rightarrow> bool" where
  "bs_wf s = sorted_wrt (<) s"

definition bs_insert :: "'a::linorder \<Rightarrow> 'a btree_set \<Rightarrow> 'a btree_set" where
  "bs_insert x s = filter (\<lambda>y. y < x) s @ x # filter (\<lambda>y. x < y) s"

definition bs_remove :: "'a::linorder \<Rightarrow> 'a btree_set \<Rightarrow> 'a btree_set" where
  "bs_remove x s = filter (\<lambda>y. y \<noteq> x) s"

section \<open>Machine integer lemmas\<close>

lemma unat_below: "unat (a :: 'a::len word) < 2 ^ LENGTH('a)"
  by (rule unsigned_less)

lemma checked_add_Some [rust_arith]:
  "checked_add a b = Some c \<longleftrightarrow> unat c = unat a + unat (b :: 'a::len word)"
proof
  assume "checked_add a b = Some c"
  then show "unat c = unat a + unat b"
    by (auto simp: checked_add_def unat_word_ariths split: if_splits)
next
  assume eq: "unat c = unat a + unat b"
  then have "unat a + unat b < 2 ^ LENGTH('a)"
    using unat_below [of c] by simp
  moreover have "c = a + b"
    using eq calculation by (simp add: unat_eq_nat_uint [symmetric] word_unat_eq_iff unat_word_ariths)
  ultimately show "checked_add a b = Some c"
    by (simp add: checked_add_def)
qed

lemma checked_add_None [rust_arith]:
  "checked_add a b = None \<longleftrightarrow> 2 ^ LENGTH('a) \<le> unat a + unat (b :: 'a::len word)"
  by (auto simp: checked_add_def)

lemma unat_saturating_add [rust_arith]:
  "unat (saturating_add a b) = min (2 ^ LENGTH('a) - 1) (unat a + unat (b :: 'a::len word))"
  using unat_below [of a]
  by (auto simp: saturating_add_def unat_word_ariths unsigned_minus_1_eq_mask mask_eq_exp_minus_1 min_def)

lemma unat_saturating_sub [rust_arith]:
  "unat (saturating_sub a b) = unat a - unat (b :: 'a::len word)"
  by (auto simp: saturating_sub_def unat_sub word_le_nat_alt)

lemma saturating_add_ge [simp, intro]:
  "a \<le> saturating_add a b"
proof -
  have "unat a \<le> 2 ^ LENGTH('a) - 1"
    using unat_below [of a] by linarith
  then show ?thesis
    by (simp add: word_le_nat_alt unat_saturating_add)
qed

section \<open>Result lemmas\<close>

lemma and_then_Ok [result_simps]:
  "and_then r f = Inr w \<longleftrightarrow> (\<exists>v. r = Inr v \<and> f v = Inr w)"
  by (cases r) auto

lemma and_then_Err [result_simps]:
  "and_then r f = Inl e \<longleftrightarrow> r = Inl e \<or> (\<exists>v. r = Inr v \<and> f v = Inl e)"
  by (cases r) auto

lemma map_err_Ok [result_simps]: "map_err f r = Inr v \<longleftrightarrow> r = Inr v"
  by (cases r) auto

lemma map_err_Err [result_simps]: "map_err f r = Inl e \<longleftrightarrow> (\<exists>e'. r = Inl e' \<and> e = f e')"
  by (cases r) auto

lemma ok_or_Ok [result_simps]: "ok_or x e = Inr v \<longleftrightarrow> x = Some v"
  by (cases x) auto

lemma ok_or_Err [result_simps]: "ok_or x e = Inl e' \<longleftrightarrow> x = None \<and> e' = e"
  by (cases x) auto

lemma is_ok_iff: "is_ok r \<longleftrightarrow> (\<exists>v. r = Inr v)"
  by (cases r) auto

lemma collect_result_Ok_iff:
  "collect_result f xs = Inr ys \<longleftrightarrow> list_all2 (\<lambda>x y. f x = Inr y) xs ys"
proof (induction xs arbitrary: ys)
  case Nil
  then show ?case by auto
next
  case (Cons x xs)
  then show ?case
    by (cases ys; cases "f x"; cases "collect_result f xs") auto
qed

lemma collect_result_total:
  "(\<And>x. x \<in> set xs \<Longrightarrow> \<exists>y. f x = Inr y) \<Longrightarrow> \<exists>ys. collect_result f xs = Inr ys"
proof (induction xs)
  case Nil
  then show ?case by simp
next
  case (Cons x xs)
  then obtain y ys where "f x = Inr y" "collect_result f xs = Inr ys"
    by (metis list.set_intros)
  then show ?case by simp
qed

lemma collect_result_Err_first:
  "collect_result f xs = Inl e \<Longrightarrow>
    \<exists>pre x post. xs = pre @ x # post \<and> f x = Inl e \<and> (\<forall>p \<in> set pre. is_ok (f p))"
proof (induction xs)
  case Nil
  then show ?case by simp
next
  case (Cons x xs)
  show ?case
  proof (cases "f x")
    case (Inl e')
    with Cons.prems show ?thesis
      by (intro exI [of _ "[]"] exI [of _ x] exI [of _ xs]) auto
  next
    case (Inr y)
    with Cons.prems have "collect_result f xs = Inl e"
      by (auto split: sum.splits)
    from Cons.IH [OF this] obtain pre z post where
      "xs = pre @ z # post" "f z = Inl e" "\<forall>p \<in> set pre. is_ok (f p)" by blast
    with Inr show ?thesis
      by (intro exI [of _ "x # pre"] exI [of _ z] exI [of _ post]) auto
  qed
qed

section \<open>Vector lemmas\<close>

lemma length_vec_insert [simp]: "i \<le> length xs \<Longrightarrow> length (vec_insert i x xs) = Suc (length xs)"
  by (simp add: vec_insert_def)

lemma set_vec_insert [simp]: "set (vec_insert i x xs) = insert x (set xs)"
  by (metis append_take_drop_id list.set(2) set_append sup_commute Un_insert_right vec_insert_def)

lemma distinct_vec_insert:
  "distinct xs \<Longrightarrow> x \<notin> set xs \<Longrightarrow> distinct (vec_insert i x xs)"
  by (auto simp: vec_insert_def set_take_disj_set_drop_if_distinct dest: in_set_takeD in_set_dropD)

lemma nth_vec_insert [simp]: "i \<le> length xs \<Longrightarrow> vec_insert i x xs ! i = x"
  by (simp add: vec_insert_def nth_append)

lemma length_vec_remove [simp]: "i < length xs \<Longrightarrow> length (vec_remove i xs) = length xs - 1"
  by (simp add: vec_remove_def)

lemma set_vec_remove_subset: "set (vec_remove i xs) \<subseteq> set xs"
  by (auto simp: vec_remove_def dest: in_set_takeD in_set_dropD)

lemma distinct_vec_remove: "distinct xs \<Longrightarrow> distinct (vec_remove i xs)"
  by (auto simp: vec_remove_def set_take_disj_set_drop_if_distinct)

lemma vec_remove_insert [simp]: "i \<le> length xs \<Longrightarrow> vec_remove i (vec_insert i x xs) = xs"
  by (simp add: vec_remove_def vec_insert_def)

section \<open>Ordered map and set lemmas\<close>

locale ordered_map =
  fixes insert_key :: "'k::linorder \<Rightarrow> 'v \<Rightarrow> 'm \<Rightarrow> 'm"
    and remove_key :: "'k \<Rightarrow> 'm \<Rightarrow> 'm"
    and lookup :: "'m \<Rightarrow> 'k \<Rightarrow> 'v option"
    and key_list :: "'m \<Rightarrow> 'k list"
    and wf_map :: "'m \<Rightarrow> bool"
  assumes lookup_insert: "lookup (insert_key k v m) = (lookup m)(k \<mapsto> v)"
    and lookup_remove: "lookup (remove_key k m) = (lookup m)(k := None)"
    and wf_insert: "wf_map m \<Longrightarrow> wf_map (insert_key k v m)"
    and wf_remove: "wf_map m \<Longrightarrow> wf_map (remove_key k m)"
    and keys_ascending: "wf_map m \<Longrightarrow> sorted_wrt (<) (key_list m)"
    and set_keys: "set (key_list m) = dom (lookup m)"
begin

lemma length_keys: "wf_map m \<Longrightarrow> length (key_list m) = card (dom (lookup m))"
  using keys_ascending [of m] set_keys [of m]
  by (metis distinct_card strict_sorted_iff)

lemma finite_dom: "finite (dom (lookup m))"
  by (metis List.finite_set set_keys)

lemma length_insert:
  "wf_map m \<Longrightarrow> length (key_list (insert_key k v m)) =
    (if lookup m k = None then Suc (length (key_list m)) else length (key_list m))"
  by (auto simp: length_keys wf_insert lookup_insert finite_dom card_insert_if domIff insert_absorb)

lemma length_remove:
  "wf_map m \<Longrightarrow> length (key_list (remove_key k m)) =
    (if lookup m k = None then length (key_list m) else length (key_list m) - 1)"
  by (auto simp: length_keys wf_remove lookup_remove finite_dom card_Diff_singleton_if domIff)

lemma length_remove_less:
  "wf_map m \<Longrightarrow> lookup m k \<noteq> None \<Longrightarrow> length (key_list (remove_key k m)) < length (key_list m)"
  by (metis (no_types, lifting) card_gt_0_iff diff_less domIff empty_iff finite_dom length_keys
      length_remove zero_less_one)

lemma insert_commute_lookup:
  "j \<noteq> k \<Longrightarrow> lookup (insert_key j v (insert_key k w m)) = lookup (insert_key k w (insert_key j v m))"
  by (simp add: lookup_insert fun_upd_twist)

end

lemma map_of_filter_key:
  "map_of (filter (\<lambda>p. P (fst p)) m) k = (if P k then map_of m k else None)"
  by (induction m) auto

interpretation bt: ordered_map bt_insert bt_remove map_of bt_keys bt_wf
proof unfold_locales
  fix k :: 'a and v :: 'b and m :: "('a, 'b) btree_map"
  show "map_of (bt_insert k v m) = (map_of m)(k \<mapsto> v)"
    by (rule ext) (auto simp: bt_insert_def map_add_def map_of_filter_key [where P = "\<lambda>x. x < k"]
        map_of_filter_key [where P = "\<lambda>x. k < x"] split: option.splits)
  show "map_of (bt_remove k m) = (map_of m)(k := None)"
    by (rule ext) (auto simp: bt_remove_def map_of_filter_key [where P = "\<lambda>x. x \<noteq> k"])
  show "bt_wf m \<Longrightarrow> bt_wf (bt_insert k v m)"
    by (auto simp: bt_wf_def bt_insert_def sorted_wrt_append sorted_wrt_map sorted_wrt_filter)
  show "bt_wf m \<Longrightarrow> bt_wf (bt_remove k m)"
    by (simp add: bt_wf_def bt_remove_def sorted_wrt_map sorted_wrt_filter)
  show "bt_wf m \<Longrightarrow> sorted_wrt (<) (bt_keys m)"
    by (simp add: bt_wf_def bt_keys_def)
  show "set (bt_keys m) = dom (map_of m)"
    by (simp add: bt_keys_def dom_map_of_conv_image_fst)
qed

lemmas bt_laws [btree_simps] = bt.lookup_insert bt.lookup_remove bt.wf_insert bt.wf_remove

lemma length_bt_keys [simp]: "length (bt_keys m) = length m"
  by (simp add: bt_keys_def)

lemma bt_wf_Nil [simp]: "bt_wf []"
  by (simp add: bt_wf_def)

lemma bt_wf_filter: "bt_wf m \<Longrightarrow> bt_wf (filter P m)"
  by (simp add: bt_wf_def sorted_wrt_map sorted_wrt_filter)

lemma bt_wf_distinct: "bt_wf m \<Longrightarrow> distinct (map fst m)"
  by (simp add: bt_wf_def strict_sorted_iff)

lemma bt_wf_map_value: "bt_wf (map (\<lambda>(k, v). (k, f k v)) m) \<longleftrightarrow> bt_wf m"
  by (simp add: bt_wf_def comp_def case_prod_unfold)

lemma bt_get_in_iff: "bt_wf m \<Longrightarrow> map_of m k = Some v \<longleftrightarrow> (k, v) \<in> set m"
  by (simp add: bt_wf_distinct map_of_eq_Some_iff)

lemma list_all_bt_insert:
  "list_all P m \<Longrightarrow> P (k, v) \<Longrightarrow> list_all P (bt_insert k v m)"
  by (auto simp: bt_insert_def list_all_iff)

lemma list_all_bt_remove: "list_all P m \<Longrightarrow> list_all P (bt_remove k m)"
  by (auto simp: bt_remove_def list_all_iff)

lemma length_bt_insert:
  "bt_wf m \<Longrightarrow> length (bt_insert k v m) = (if map_of m k = None then Suc (length m) else length m)"
  using bt.length_insert [of m k v] by simp

lemma length_bt_remove:
  "bt_wf m \<Longrightarrow> length (bt_remove k m) = (if map_of m k = None then length m else length m - 1)"
  using bt.length_remove [of m k] by simp

lemma bs_wf_insert [btree_simps]: "bs_wf s \<Longrightarrow> bs_wf (bs_insert x s)"
  by (auto simp: bs_wf_def bs_insert_def sorted_wrt_append sorted_wrt_filter)

lemma bs_wf_remove [btree_simps]: "bs_wf s \<Longrightarrow> bs_wf (bs_remove x s)"
  by (simp add: bs_wf_def bs_remove_def sorted_wrt_filter)

lemma set_bs_insert [btree_simps]: "set (bs_insert x s) = insert x (set s)"
  by (auto simp: bs_insert_def)

lemma set_bs_remove [btree_simps]: "set (bs_remove x s) = set s - {x}"
  by (auto simp: bs_remove_def)

lemma sum_list_filter_remove1:
  fixes f :: "'a \<Rightarrow> nat"
  shows "x \<in> set xs \<Longrightarrow> sum_list (map f (remove1 x xs)) = sum_list (map f xs) - f x"
  by (simp add: sum_list_map_remove1)

end
