(* ===== verification/Ratash_Constants.thy ===== *)
theory Ratash_Constants
  imports Ratash_Prelude
begin

text \<open>
  The product constants (\<open>src/src/constants.rs\<close>) that the components use.  A \<open>Duration\<close> is its length in
  milliseconds; sizes and counts of type \<open>usize\<close> are natural numbers.
\<close>

named_theorems constant_defs \<open>definitions of the product constants\<close>

definition from_secs :: "nat \<Rightarrow> nat" where
  "from_secs n = n * 1000"

definition from_millis :: "nat \<Rightarrow> nat" where
  "from_millis n = n"

definition PROFILE_REFRESH_INTERVAL :: nat where
  "PROFILE_REFRESH_INTERVAL = from_secs (6 * 60 * 60)"

definition PROFILE_REFRESH_CONCURRENCY :: nat where
  "PROFILE_REFRESH_CONCURRENCY = 2"

definition PROFILE_METADATA_NAME_MAX_BYTES :: nat where
  "PROFILE_METADATA_NAME_MAX_BYTES = 80"

definition PROFILE_COUNT_MAX :: nat where
  "PROFILE_COUNT_MAX = 1000"

definition SUBSCRIPTION_URL_MAX_BYTES :: nat where
  "SUBSCRIPTION_URL_MAX_BYTES = 8 * 1024"

definition SUPERVISOR_STATE_MAX_BYTES :: nat where
  "SUPERVISOR_STATE_MAX_BYTES = 16 * 1024 * 1024"

definition EFFECTIVE_CONFIGURATION_MAX_BYTES :: nat where
  "EFFECTIVE_CONFIGURATION_MAX_BYTES = 64 * 1024 * 1024"

definition PROBE_WORKER_COUNT :: nat where
  "PROBE_WORKER_COUNT = 16"

definition PROBE_INTERVAL :: nat where
  "PROBE_INTERVAL = from_secs (5 * 60)"

definition PROBE_TIMEOUT :: nat where
  "PROBE_TIMEOUT = from_secs (5)"

definition LATENCY_FRESHNESS :: nat where
  "LATENCY_FRESHNESS = from_secs (10 * 60)"

definition MAX_ACTIVE_NODES :: nat where
  "MAX_ACTIVE_NODES = 10000"

definition LOG_CAPACITY :: nat where
  "LOG_CAPACITY = 10000"

definition LOG_RETENTION_MAX_BYTES :: nat where
  "LOG_RETENTION_MAX_BYTES = 32 * 1024 * 1024"

definition LOG_TAIL_MAX_RECORDS :: nat where
  "LOG_TAIL_MAX_RECORDS = 256"

definition CONNECTION_RECORD_CAPACITY :: nat where
  "CONNECTION_RECORD_CAPACITY = 256"

definition RULE_STRING_MAX_BYTES :: nat where
  "RULE_STRING_MAX_BYTES = 16 * 1024"

definition LOCAL_RULE_COUNT_MAX :: nat where
  "LOCAL_RULE_COUNT_MAX = 20000"

definition CORE_LOG_LINE_MAX_BYTES :: nat where
  "CORE_LOG_LINE_MAX_BYTES = 64 * 1024"

definition LOG_TAIL_MAX_BYTES :: nat where
  "LOG_TAIL_MAX_BYTES = 4 * 1024 * 1024"

definition MINIMUM_TERMINAL_WIDTH :: u16 where
  "MINIMUM_TERMINAL_WIDTH = 80"

definition MINIMUM_TERMINAL_HEIGHT :: u16 where
  "MINIMUM_TERMINAL_HEIGHT = 24"

definition TUI_SEARCH_MAX_BYTES :: nat where
  "TUI_SEARCH_MAX_BYTES = 256"

definition TUI_SEARCH_MAX_CHARACTERS :: nat where
  "TUI_SEARCH_MAX_CHARACTERS = 128"

definition duration_ms :: "nat \<Rightarrow> u64" where
  "duration_ms d = (if d < 2 ^ 64 then of_nat d else - 1)"

lemmas all_constants [constant_defs] =
  from_secs_def from_millis_def
  PROFILE_REFRESH_INTERVAL_def
  PROFILE_REFRESH_CONCURRENCY_def
  PROFILE_METADATA_NAME_MAX_BYTES_def
  PROFILE_COUNT_MAX_def
  SUBSCRIPTION_URL_MAX_BYTES_def
  SUPERVISOR_STATE_MAX_BYTES_def
  EFFECTIVE_CONFIGURATION_MAX_BYTES_def
  PROBE_WORKER_COUNT_def
  PROBE_INTERVAL_def
  PROBE_TIMEOUT_def
  LATENCY_FRESHNESS_def
  MAX_ACTIVE_NODES_def
  LOG_CAPACITY_def
  LOG_RETENTION_MAX_BYTES_def
  LOG_TAIL_MAX_RECORDS_def
  CONNECTION_RECORD_CAPACITY_def
  RULE_STRING_MAX_BYTES_def
  LOCAL_RULE_COUNT_MAX_def
  CORE_LOG_LINE_MAX_BYTES_def
  LOG_TAIL_MAX_BYTES_def
  MINIMUM_TERMINAL_WIDTH_def
  MINIMUM_TERMINAL_HEIGHT_def
  TUI_SEARCH_MAX_BYTES_def
  TUI_SEARCH_MAX_CHARACTERS_def

end
