(* ===== verification/Rust_Strings.thy ===== *)
theory Rust_Strings
  imports Ratash_Prelude
begin

text \<open>
  Rust strings.  A \<open>str\<close> is its sequence of UTF-8 bytes, one \<open>char\<close> of HOL per byte, so
  lengths and indexes are the byte lengths and byte indexes of the code.  Operations
  that walk over Unicode scalar values (\<open>chars\<close>, \<open>trim\<close>, \<open>is_whitespace\<close>,
  \<open>is_control\<close>, \<open>is_char_boundary\<close>) go through \<open>utf8_chars\<close>, which cuts the byte
  sequence at lead bytes; \<open>utf8_valid\<close> is the validity that every Rust \<open>str\<close> has.

  The section on truncation verifies the loop that several components share: step
  back from a byte limit until a character boundary is reached.
\<close>

named_theorems str_simps \<open>laws of the string operations\<close>

section \<open>Characters\<close>

abbreviation byte_of :: "char \<Rightarrow> nat" where
  "byte_of \<equiv> of_char"

definition utf8_width :: "char \<Rightarrow> nat" where
  "utf8_width c =
    (if byte_of c < 0x80 then 1 else if byte_of c < 0xE0 then 2 else if byte_of c < 0xF0 then 3 else 4)"

definition is_continuation :: "char \<Rightarrow> bool" where
  "is_continuation c = (0x80 \<le> byte_of c \<and> byte_of c < 0xC0)"

fun utf8_chars :: "string \<Rightarrow> string list" where
  "utf8_chars [] = []"
| "utf8_chars (c # s) =
    (c # take (utf8_width c - 1) s) # utf8_chars (drop (utf8_width c - 1) s)"

fun valid_scalar :: "string \<Rightarrow> bool" where
  "valid_scalar [a] = (byte_of a < 0x80)"
| "valid_scalar [a, b] = (0xC2 \<le> byte_of a \<and> byte_of a < 0xE0 \<and> is_continuation b)"
| "valid_scalar [a, b, c] =
    (0xE0 \<le> byte_of a \<and> byte_of a < 0xF0 \<and> is_continuation b \<and> is_continuation c \<and>
     (byte_of a = 0xE0 \<longrightarrow> 0xA0 \<le> byte_of b) \<and> (byte_of a = 0xED \<longrightarrow> byte_of b < 0xA0))"
| "valid_scalar [a, b, c, d] =
    (0xF0 \<le> byte_of a \<and> byte_of a < 0xF5 \<and> is_continuation b \<and> is_continuation c \<and>
     is_continuation d \<and>
     (byte_of a = 0xF0 \<longrightarrow> 0x90 \<le> byte_of b) \<and> (byte_of a = 0xF4 \<longrightarrow> byte_of b < 0x90))"
| "valid_scalar _ = False"

definition utf8_valid :: "string \<Rightarrow> bool" where
  "utf8_valid s = list_all valid_scalar (utf8_chars s)"

fun is_whitespace :: "string \<Rightarrow> bool" where
  "is_whitespace [a] = ((9 \<le> byte_of a \<and> byte_of a \<le> 13) \<or> byte_of a = 32)"
| "is_whitespace [a, b] = (byte_of a = 0xC2 \<and> (byte_of b = 0x85 \<or> byte_of b = 0xA0))"
| "is_whitespace [a, b, c] =
    (byte_of a = 0xE1 \<and> byte_of b = 0x9A \<and> byte_of c = 0x80 \<or>
     byte_of a = 0xE2 \<and> byte_of b = 0x80 \<and>
       (0x80 \<le> byte_of c \<and> byte_of c \<le> 0x8A \<or> byte_of c = 0xA8 \<or> byte_of c = 0xA9 \<or> byte_of c = 0xAF) \<or>
     byte_of a = 0xE2 \<and> byte_of b = 0x81 \<and> byte_of c = 0x9F \<or>
     byte_of a = 0xE3 \<and> byte_of b = 0x80 \<and> byte_of c = 0x80)"
| "is_whitespace _ = False"

fun is_control :: "string \<Rightarrow> bool" where
  "is_control [a] = (byte_of a < 0x20 \<or> byte_of a = 0x7F)"
| "is_control [a, b] = (byte_of a = 0xC2 \<and> 0x80 \<le> byte_of b \<and> byte_of b < 0xA0)"
| "is_control _ = False"

definition is_char_boundary :: "string \<Rightarrow> nat \<Rightarrow> bool" where
  "is_char_boundary s i =
    (i = 0 \<or> i = length s \<or> (i < length s \<and> \<not> is_continuation (s ! i)))"

section \<open>Trimming and splitting\<close>

definition trim_start :: "string \<Rightarrow> string" where
  "trim_start s = concat (dropWhile is_whitespace (utf8_chars s))"

definition trim_end :: "string \<Rightarrow> string" where
  "trim_end s = concat (rev (dropWhile is_whitespace (rev (utf8_chars s))))"

definition trim :: "string \<Rightarrow> string" where
  "trim s = trim_end (trim_start s)"

definition split_once :: "char \<Rightarrow> string \<Rightarrow> (string \<times> string) option" where
  "split_once c s =
    (if c \<in> set s then Some (takeWhile (\<lambda>x. x \<noteq> c) s, tl (dropWhile (\<lambda>x. x \<noteq> c) s)) else None)"

definition rsplit_once :: "char \<Rightarrow> string \<Rightarrow> (string \<times> string) option" where
  "rsplit_once c s = map_option (\<lambda>(a, b). (rev b, rev a)) (split_once c (rev s))"

fun split_on :: "char \<Rightarrow> string \<Rightarrow> string list" where
  "split_on c [] = [[]]"
| "split_on c (x # s) =
    (if x = c then [] # split_on c s
     else (case split_on c s of [] \<Rightarrow> [[x]] | p # ps \<Rightarrow> (x # p) # ps))"

definition strip_prefix :: "string \<Rightarrow> string \<Rightarrow> string option" where
  "strip_prefix p s = (if prefix p s then Some (drop (length p) s) else None)"

definition to_ascii_lower :: "char \<Rightarrow> char" where
  "to_ascii_lower c =
    (if 65 \<le> byte_of c \<and> byte_of c \<le> 90 then char_of (byte_of c + 32) else c)"

definition eq_ignore_ascii_case :: "string \<Rightarrow> string \<Rightarrow> bool" where
  "eq_ignore_ascii_case a b = (map to_ascii_lower a = map to_ascii_lower b)"

definition char_count :: "string \<Rightarrow> nat" where
  "char_count s = length (utf8_chars s)"

definition take_chars :: "nat \<Rightarrow> string \<Rightarrow> string" where
  "take_chars n s = concat (take n (utf8_chars s))"

fun join_with :: "char \<Rightarrow> string list \<Rightarrow> string" where
  "join_with c [] = []"
| "join_with c [p] = p"
| "join_with c (p # q # ps) = p @ c # join_with c (q # ps)"

function decimal :: "nat \<Rightarrow> string" where
  "decimal n = (if n < 10 then [char_of (48 + n)] else decimal (n div 10) @ [char_of (48 + n mod 10)])"
  by pat_completeness auto
termination
  by (relation "measure id") auto

declare decimal.simps [simp del]

definition trimmed :: "string \<Rightarrow> bool" where
  "trimmed s = (s = [] \<or> (\<not> is_whitespace (hd (utf8_chars s)) \<and> \<not> is_whitespace (last (utf8_chars s))))"

section \<open>Truncation at a character boundary\<close>

function floor_boundary :: "string \<Rightarrow> nat \<Rightarrow> nat" where
  "floor_boundary s i = (if is_char_boundary s i then i else floor_boundary s (i - 1))"
  by pat_completeness auto
termination
  by (relation "measure snd") (auto simp: is_char_boundary_def)

declare floor_boundary.simps [simp del]

definition truncate_utf8 :: "string \<Rightarrow> nat \<Rightarrow> string" where
  "truncate_utf8 s n = (if length s \<le> n then s else take (floor_boundary s n) s)"

section \<open>Laws of characters\<close>

lemma concat_utf8_chars [simp]: "concat (utf8_chars s) = s"
  by (induction s rule: utf8_chars.induct) auto

lemma utf8_chars_nonempty: "x \<in> set (utf8_chars s) \<Longrightarrow> x \<noteq> []"
  by (induction s rule: utf8_chars.induct) auto

lemma utf8_width_pos [simp]: "0 < utf8_width c"
  by (simp add: utf8_width_def)

lemma valid_scalar_shape:
  assumes "valid_scalar cs"
  shows "cs \<noteq> []" and "length cs = utf8_width (hd cs)" and "\<not> is_continuation (hd cs)"
    and "\<And>c. c \<in> set (tl cs) \<Longrightarrow> is_continuation c"
  using assms
  by (induction cs rule: valid_scalar.induct) (auto simp: utf8_width_def is_continuation_def)

lemma utf8_chars_append_scalar:
  assumes "cs \<noteq> []" "length cs = utf8_width (hd cs)"
  shows "utf8_chars (cs @ s) = cs # utf8_chars s"
  using assms by (cases cs) auto

lemma utf8_chars_concat:
  "(\<And>c. c \<in> set cs \<Longrightarrow> valid_scalar c) \<Longrightarrow> utf8_chars (concat cs) = cs"
  by (induction cs) (auto simp: utf8_chars_append_scalar valid_scalar_shape)

lemma utf8_valid_concat:
  "(\<And>c. c \<in> set cs \<Longrightarrow> valid_scalar c) \<Longrightarrow> utf8_valid (concat cs)"
  by (simp add: utf8_valid_def utf8_chars_concat list_all_iff)

lemma utf8_valid_scalar: "utf8_valid s \<Longrightarrow> c \<in> set (utf8_chars s) \<Longrightarrow> valid_scalar c"
  by (simp add: utf8_valid_def list_all_iff)

lemma utf8_valid_Nil [simp]: "utf8_valid []"
  by (simp add: utf8_valid_def)

lemma utf8_valid_induct [consumes 1, case_names Nil Scalar]:
  assumes "utf8_valid s" and "P []"
    and "\<And>c s. valid_scalar c \<Longrightarrow> utf8_valid s \<Longrightarrow> P s \<Longrightarrow> P (c @ s)"
  shows "P s"
proof -
  have "(\<And>c. c \<in> set cs \<Longrightarrow> valid_scalar c) \<Longrightarrow> P (concat cs)" for cs
    by (induction cs) (auto intro!: assms(2,3) utf8_valid_concat)
  from this [of "utf8_chars s"] assms(1) show ?thesis
    by (simp add: utf8_valid_scalar)
qed

lemma utf8_chars_append: "utf8_valid s \<Longrightarrow> utf8_chars (s @ t) = utf8_chars s @ utf8_chars t"
  by (induction s rule: utf8_valid_induct)
    (auto simp: utf8_chars_append_scalar valid_scalar_shape)

lemma utf8_valid_append: "utf8_valid s \<Longrightarrow> utf8_valid t \<Longrightarrow> utf8_valid (s @ t)"
  by (simp add: utf8_valid_def utf8_chars_append [unfolded utf8_valid_def])

lemma utf8_valid_ascii: "(\<And>c. c \<in> set s \<Longrightarrow> byte_of c < 0x80) \<Longrightarrow> utf8_valid s"
  by (induction s) (auto simp: utf8_valid_def utf8_width_def)

lemma length_le_chars: "utf8_valid s \<Longrightarrow> length s \<le> 4 * char_count s"
  by (induction s rule: utf8_valid_induct)
    (auto simp: char_count_def utf8_chars_append_scalar valid_scalar_shape utf8_width_def)

lemma char_count_le_length: "char_count s \<le> length s"
proof (induction s rule: utf8_chars.induct)
  case (2 c s)
  then show ?case by (auto simp: char_count_def)
qed (simp add: char_count_def)

section \<open>Laws of splitting\<close>

lemma split_once_Some:
  "split_once c s = Some (a, b) \<longleftrightarrow> s = a @ c # b \<and> c \<notin> set a"
proof
  assume "split_once c s = Some (a, b)"
  then have mem: "c \<in> set s" and a: "a = takeWhile (\<lambda>x. x \<noteq> c) s"
    and b: "b = tl (dropWhile (\<lambda>x. x \<noteq> c) s)"
    by (auto simp: split_once_def split: if_splits)
  have "dropWhile (\<lambda>x. x \<noteq> c) s \<noteq> []"
    using mem by (simp add: dropWhile_eq_Nil_conv)
  then have "dropWhile (\<lambda>x. x \<noteq> c) s = c # b"
    using b hd_dropWhile [of "\<lambda>x. x \<noteq> c" s] by (metis list.collapse)
  then show "s = a @ c # b \<and> c \<notin> set a"
    using a by (metis (mono_tags, lifting) set_takeWhileD takeWhile_dropWhile_id)
next
  assume "s = a @ c # b \<and> c \<notin> set a"
  then show "split_once c s = Some (a, b)"
    by (auto simp: split_once_def takeWhile_append dropWhile_append)
qed

lemma split_once_None: "split_once c s = None \<longleftrightarrow> c \<notin> set s"
  by (simp add: split_once_def)

lemma rsplit_once_Some:
  "rsplit_once c s = Some (a, b) \<longleftrightarrow> s = a @ c # b \<and> c \<notin> set b"
proof -
  have "rsplit_once c s = Some (a, b) \<longleftrightarrow> split_once c (rev s) = Some (rev b, rev a)"
    by (auto simp: rsplit_once_def)
  also have "\<dots> \<longleftrightarrow> s = a @ c # b \<and> c \<notin> set b"
    by (auto simp: split_once_Some) (metis append.assoc append_Cons append_Nil rev.simps(2) rev_append rev_swap)
  finally show ?thesis .
qed

lemma rsplit_once_None: "rsplit_once c s = None \<longleftrightarrow> c \<notin> set s"
  by (simp add: rsplit_once_def split_once_None)

lemma split_on_not_Nil [simp]: "split_on c s \<noteq> []"
  by (induction s) (auto split: list.splits)

lemma split_on_plain: "c \<notin> set s \<Longrightarrow> split_on c s = [s]"
  by (induction s) auto

lemma split_on_Cons: "c \<notin> set a \<Longrightarrow> split_on c (a @ c # b) = a # split_on c b"
  by (induction a) auto

lemma split_on_pieces: "p \<in> set (split_on c s) \<Longrightarrow> c \<notin> set p"
  by (induction s arbitrary: p) (auto split: list.splits if_splits)

lemma join_split [str_simps]: "join_with c (split_on c s) = s"
proof (induction s)
  case (Cons x s)
  then show ?case
    by (cases "(c, split_on c s)" rule: join_with.cases) auto
qed simp

lemma split_join [str_simps]:
  "ps \<noteq> [] \<Longrightarrow> (\<And>p. p \<in> set ps \<Longrightarrow> c \<notin> set p) \<Longrightarrow> split_on c (join_with c ps) = ps"
  by (induction c ps rule: join_with.induct) (auto simp: split_on_plain split_on_Cons)

section \<open>Laws of truncation\<close>

lemma is_char_boundary_0 [simp]: "is_char_boundary s 0"
  by (simp add: is_char_boundary_def)

lemma floor_boundary_props:
  "is_char_boundary s (floor_boundary s i) \<and> floor_boundary s i \<le> i \<and>
    (\<forall>j \<le> i. is_char_boundary s j \<longrightarrow> j \<le> floor_boundary s i)"
proof (induction s i rule: floor_boundary.induct)
  case (1 s i)
  show ?case
  proof (cases "is_char_boundary s i")
    case True
    then show ?thesis by (simp add: floor_boundary.simps [of s i])
  next
    case False
    then have pos: "0 < i" by (cases i) auto
    have step: "floor_boundary s i = floor_boundary s (i - 1)"
      using False by (simp add: floor_boundary.simps [of s i])
    have "j \<le> i - 1" if "j \<le> i" "is_char_boundary s j" for j
      using that False by (cases "j = i") auto
    with 1 False show ?thesis unfolding step by (meson diff_le_self le_trans)
  qed
qed

lemma boundary_split:
  assumes "utf8_valid s"
  shows "is_char_boundary s i \<Longrightarrow> i \<le> length s \<Longrightarrow>
    utf8_valid (take i s) \<and> utf8_valid (drop i s)"
  using assms
proof (induction s arbitrary: i rule: utf8_valid_induct)
  case Nil
  then show ?case by simp
next
  case (Scalar c s)
  note shape = valid_scalar_shape [OF Scalar.hyps(1)]
  show ?case
  proof (cases "i = 0")
    case True
    then show ?thesis
      using Scalar.hyps by (simp add: utf8_valid_append utf8_valid_concat [of "[c]", simplified])
  next
    case False
    have "length c \<le> i"
    proof (rule ccontr)
      assume less: "\<not> length c \<le> i"
      with False have "(c @ s) ! i \<in> set (tl c)"
        by (cases c; cases i) (auto simp: nth_append)
      with shape(4) have "is_continuation ((c @ s) ! i)" .
      with Scalar.prems False less show False
        by (auto simp: is_char_boundary_def)
    qed
    then have bound: "is_char_boundary s (i - length c)" "i - length c \<le> length s"
      using Scalar.prems by (auto simp: is_char_boundary_def nth_append)
    have c: "utf8_valid c"
      using Scalar.hyps(1) utf8_valid_concat [of "[c]"] by simp
    from Scalar.IH [OF bound] \<open>length c \<le> i\<close> c show ?thesis
      by (simp add: utf8_valid_append)
  qed
qed

lemma truncate_utf8_prefix: "prefix (truncate_utf8 s n) s"
  by (simp add: truncate_utf8_def take_is_prefix)

lemma truncate_utf8_length: "length (truncate_utf8 s n) \<le> n"
  using floor_boundary_props [of s n] by (auto simp: truncate_utf8_def)

lemma truncate_utf8_valid: "utf8_valid s \<Longrightarrow> utf8_valid (truncate_utf8 s n)"
  using floor_boundary_props [of s n] boundary_split [of s "floor_boundary s n"]
  by (auto simp: truncate_utf8_def)

lemma boundary_within_scalar:
  assumes "utf8_valid s"
  shows "i \<le> length s \<Longrightarrow> \<exists>j \<le> i. is_char_boundary s j \<and> i < j + 4"
  using assms
proof (induction s arbitrary: i rule: utf8_valid_induct)
  case Nil
  then show ?case by auto
next
  case (Scalar c s)
  note shape = valid_scalar_shape [OF Scalar.hyps(1)]
  show ?case
  proof (cases "i < length c")
    case True
    then show ?thesis
      using shape(2) by (intro exI [of _ 0]) (auto simp: utf8_width_def split: if_splits)
  next
    case False
    then have "i - length c \<le> length s"
      using Scalar.prems by simp
    from Scalar.IH [OF this] obtain j where
      "j \<le> i - length c" "is_char_boundary s j" "i - length c < j + 4" by blast
    moreover have "is_char_boundary (c @ s) (j + length c)" if "is_char_boundary s j"
    proof (cases "s = []")
      case True
      with that show ?thesis by (auto simp: is_char_boundary_def)
    next
      case nonempty: False
      have "\<not> is_continuation (s ! 0)"
        using Scalar.hyps(2) nonempty
      proof (induction s rule: utf8_valid_induct)
        case (Scalar d t)
        then show ?case
          using valid_scalar_shape [OF Scalar.hyps(1)] by (cases d) auto
      qed simp
      with that nonempty show ?thesis
        by (auto simp: is_char_boundary_def nth_append)
    qed
    ultimately show ?thesis
      using False by (intro exI [of _ "j + length c"]) auto
  qed
qed

lemma truncate_utf8_loses_little:
  assumes "utf8_valid s" "n < length s"
  shows "n < length (truncate_utf8 s n) + 4"
proof -
  obtain j where "j \<le> n" "is_char_boundary s j" "n < j + 4"
    using boundary_within_scalar [OF assms(1), of n] assms(2) by auto
  moreover have "floor_boundary s n \<le> n" and "j \<le> floor_boundary s n"
    using floor_boundary_props [of s n] calculation by auto
  ultimately show ?thesis
    using assms(2) by (simp add: truncate_utf8_def)
qed

section \<open>Laws of trimming\<close>

lemma trim_start_suffix: "suffix (trim_start s) s"
proof -
  have "suffix (concat (dropWhile is_whitespace cs)) (concat cs)" for cs
    by (metis concat_append suffixI takeWhile_dropWhile_id)
  from this [of "utf8_chars s"] show ?thesis
    by (simp add: trim_start_def)
qed

lemma trim_end_prefix: "prefix (trim_end s) s"
proof -
  have "prefix (concat (rev (dropWhile is_whitespace cs))) (concat (rev cs))" for cs
    by (metis concat_append prefixI rev_append takeWhile_dropWhile_id)
  from this [of "rev (utf8_chars s)"] show ?thesis
    by (simp add: trim_end_def)
qed

lemma trim_sublist: "sublist (trim s) s"
  unfolding trim_def
  by (meson prefix_imp_sublist sublist_order.order.trans suffix_imp_sublist trim_end_prefix
      trim_start_suffix)

lemma set_trim: "set (trim s) \<subseteq> set s"
  using trim_sublist set_mono_sublist by blast

lemma trim_start_valid: "utf8_valid s \<Longrightarrow> utf8_valid (trim_start s)"
  unfolding trim_start_def
  by (rule utf8_valid_concat) (meson set_dropWhileD utf8_valid_scalar)

lemma trim_end_valid: "utf8_valid s \<Longrightarrow> utf8_valid (trim_end s)"
  unfolding trim_end_def
  by (rule utf8_valid_concat) (metis set_dropWhileD set_rev utf8_valid_scalar)

lemma trim_valid: "utf8_valid s \<Longrightarrow> utf8_valid (trim s)"
  by (simp add: trim_def trim_start_valid trim_end_valid)

lemma utf8_chars_eq_Nil [simp]: "utf8_chars s = [] \<longleftrightarrow> s = []"
  by (cases s) auto

lemma trim_trimmed: "trimmed s \<Longrightarrow> trim s = s"
proof (cases "s = []")
  case True
  then show ?thesis by (simp add: trim_def trim_start_def trim_end_def)
next
  case False
  assume "trimmed s"
  with False have ws: "\<not> is_whitespace (hd (utf8_chars s))" "\<not> is_whitespace (last (utf8_chars s))"
    by (auto simp: trimmed_def)
  have "dropWhile is_whitespace (utf8_chars s) = utf8_chars s"
    using ws(1) False by (cases "utf8_chars s") auto
  then have start: "trim_start s = s"
    by (simp add: trim_start_def)
  have "rev (utf8_chars s) = last (utf8_chars s) # tl (rev (utf8_chars s))"
    using False by (metis hd_rev list.collapse rev_is_Nil_conv utf8_chars_eq_Nil)
  then have "dropWhile is_whitespace (rev (utf8_chars s)) = rev (utf8_chars s)"
    using ws(2) by (metis dropWhile.simps(2))
  then show ?thesis
    by (simp add: trim_def start trim_end_def)
qed

lemma trimmed_trim: assumes "utf8_valid s" shows "trimmed (trim s)"
proof (cases "trim s = []")
  case False
  define cs where "cs = dropWhile is_whitespace (utf8_chars s)"
  define ds where "ds = rev (dropWhile is_whitespace (rev cs))"
  have valid: "\<And>c. c \<in> set cs \<Longrightarrow> valid_scalar c"
    using assms by (metis cs_def set_dropWhileD utf8_valid_scalar)
  have start: "utf8_chars (trim_start s) = cs"
    by (simp add: trim_start_def cs_def [symmetric] utf8_chars_concat valid)
  have trimmed_chars: "trim s = concat ds"
    by (simp add: trim_def trim_end_def start ds_def)
  have "utf8_chars (concat ds) = ds"
    by (rule utf8_chars_concat) (metis ds_def set_dropWhileD set_rev valid)
  moreover have "ds \<noteq> []"
    using False trimmed_chars by auto
  moreover have "\<not> is_whitespace (last ds)"
    using \<open>ds \<noteq> []\<close> unfolding ds_def
    by (metis hd_dropWhile last_rev rev_is_Nil_conv)
  moreover have "hd ds = hd cs"
  proof -
    have "prefix ds cs"
      unfolding ds_def by (metis prefixI rev_append rev_rev_ident takeWhile_dropWhile_id)
    with \<open>ds \<noteq> []\<close> show ?thesis
      by (metis hd_append2 prefixE)
  qed
  moreover have "\<not> is_whitespace (hd cs)"
    using \<open>ds \<noteq> []\<close> unfolding cs_def ds_def
    by (metis cs_def dropWhile.simps(1) hd_dropWhile rev.simps(1))
  ultimately show ?thesis
    by (simp add: trimmed_def trimmed_chars)
qed (simp add: trimmed_def)

lemma trim_idem: "utf8_valid s \<Longrightarrow> trim (trim s) = trim s"
  by (simp add: trim_trimmed trimmed_trim)

end
