(* ===== verification/Domain_Types.thy ===== *)
theory Domain_Types
  imports Ratash_Constants Rust_Strings
begin

text \<open>
  Identifiers and value types of \<open>src/src/domain.rs\<close>, with the two operations there that
  carry an argument: the canonical encoding behind node identifiers and the redaction of
  subscription URLs.

  A \<open>ProfileId\<close> is the 128 bits of its UUID, a \<open>NodeRecordId\<close> and a \<open>ProxyGroupId\<close> their
  text; all three are keys of ordered maps, so they are instances of \<open>linorder\<close> with the
  order that the code derives.  SHA-256 and percent decoding belong to other crates and
  are parameters; a parsed URL is the record of what the \<open>url\<close> crate exposes of it.
\<close>

section \<open>Identifiers\<close>

datatype ProfileId = ProfileId (uuid_bits: u128)
datatype NodeRecordId = NodeRecordId (node_text: string)
datatype ProxyGroupId = ProxyGroupId (group_text: string)

type_synonym ProfileRevision = u64
type_synonym ActiveProfileRevision = u64
type_synonym RuntimeGeneration = u64
type_synonym CoreInstanceGeneration = u64
type_synonym ProbeGeneration = u64
type_synonym LocalRuleSetRevision = u64

instantiation ProfileId :: linorder
begin

definition less_eq_ProfileId :: "ProfileId \<Rightarrow> ProfileId \<Rightarrow> bool" where
  "less_eq_ProfileId a b = (uuid_bits a \<le> uuid_bits b)"

definition less_ProfileId :: "ProfileId \<Rightarrow> ProfileId \<Rightarrow> bool" where
  "less_ProfileId a b = (uuid_bits a < uuid_bits b)"

instance
  by standard
    (auto simp: less_eq_ProfileId_def less_ProfileId_def intro: ProfileId.expand)

end

instantiation NodeRecordId :: linorder
begin

definition less_eq_NodeRecordId :: "NodeRecordId \<Rightarrow> NodeRecordId \<Rightarrow> bool" where
  "less_eq_NodeRecordId a b = (node_text a \<le> node_text b)"

definition less_NodeRecordId :: "NodeRecordId \<Rightarrow> NodeRecordId \<Rightarrow> bool" where
  "less_NodeRecordId a b = (node_text a < node_text b)"

instance
  by standard
    (auto simp: less_eq_NodeRecordId_def less_NodeRecordId_def intro: NodeRecordId.expand)

end

instantiation ProxyGroupId :: linorder
begin

definition less_eq_ProxyGroupId :: "ProxyGroupId \<Rightarrow> ProxyGroupId \<Rightarrow> bool" where
  "less_eq_ProxyGroupId a b = (group_text a \<le> group_text b)"

definition less_ProxyGroupId :: "ProxyGroupId \<Rightarrow> ProxyGroupId \<Rightarrow> bool" where
  "less_ProxyGroupId a b = (group_text a < group_text b)"

instance
  by standard
    (auto simp: less_eq_ProxyGroupId_def less_ProxyGroupId_def intro: ProxyGroupId.expand)

end

datatype SampleState = Fresh | SampleStale | SampleUnavailable

datatype StreamState
  = Disconnected | Connecting | StreamHealthy | StreamStale | StreamDegraded

datatype ApplyState = ApplyIdle | ApplyApplying | ApplyRecovering | ApplyFailed

datatype RuntimeApplyPhase
  = PhaseIdle | PhaseApplying | PhaseSucceeded | PhaseRecovering | PhaseFailed

fun compatibility_state :: "RuntimeApplyPhase \<Rightarrow> ApplyState" where
  "compatibility_state PhaseIdle = ApplyIdle"
| "compatibility_state PhaseSucceeded = ApplyIdle"
| "compatibility_state PhaseApplying = ApplyApplying"
| "compatibility_state PhaseRecovering = ApplyRecovering"
| "compatibility_state PhaseFailed = ApplyFailed"

record LatencySample =
  ls_node_id :: NodeRecordId
  ls_delay_ms :: "u64 option"
  ls_sampled_at_unix_ms :: "u64 option"
  ls_state :: SampleState
  ls_probe_generation :: ProbeGeneration

record TrafficSample =
  ts_upload_bytes_per_second :: u64
  ts_download_bytes_per_second :: u64
  ts_sampled_at_unix_ms :: "u64 option"
  ts_state :: SampleState

record ConnectionRecord =
  cr_id :: string
  cr_network :: string
  cr_host :: "string option"
  cr_destination_ip :: "string option"
  cr_destination_port :: "string option"
  cr_chains :: "string list"
  cr_rule :: string
  cr_rule_payload :: "string option"
  cr_upload_bytes :: u64
  cr_download_bytes :: u64

record StreamHealthSet =
  sh_traffic :: StreamState
  sh_connections :: StreamState
  sh_logs :: StreamState

section \<open>Node and group identifiers\<close>

definition is_lower_sha256_hex :: "string \<Rightarrow> bool" where
  "is_lower_sha256_hex v =
    (length v = 64 \<and>
     list_all (\<lambda>c. (48 \<le> byte_of c \<and> byte_of c \<le> 57) \<or> (97 \<le> byte_of c \<and> byte_of c \<le> 102)) v)"

definition NodeRecordId_parse :: "string \<Rightarrow> NodeRecordId option" where
  "NodeRecordId_parse v =
    (case strip_prefix ''node_v1_'' v of
       None \<Rightarrow> None
     | Some digest \<Rightarrow> if is_lower_sha256_hex digest then Some (NodeRecordId v) else None)"

definition ProxyGroupId_parse :: "string \<Rightarrow> ProxyGroupId option" where
  "ProxyGroupId_parse v =
    (case strip_prefix ''group_v1_'' v of
       None \<Rightarrow> None
     | Some digest \<Rightarrow> if is_lower_sha256_hex digest then Some (ProxyGroupId v) else None)"

fun be_bytes :: "nat \<Rightarrow> nat \<Rightarrow> string" where
  "be_bytes 0 n = []"
| "be_bytes (Suc k) n = be_bytes k (n div 256) @ [char_of (n mod 256)]"

definition u64_to_be_bytes :: "u64 \<Rightarrow> string" where
  "u64_to_be_bytes w = be_bytes 8 (unat w)"

fun encode_components :: "string list \<Rightarrow> string" where
  "encode_components [] = []"
| "encode_components (c # cs) = u64_to_be_bytes (of_nat (length c)) @ c @ encode_components cs"

abbreviation nul :: char where "nul \<equiv> CHR 0x00"

definition node_canonical :: "string \<Rightarrow> string list \<Rightarrow> string" where
  "node_canonical source components =
    ''ratash-node-v1'' @ [nul] @ source @ [nul] @ encode_components components"

definition source_aware_node_id :: "(string \<Rightarrow> string) \<Rightarrow> string \<Rightarrow> string list \<Rightarrow> string" where
  "source_aware_node_id sha256_hex source components =
    ''node_v1_'' @ sha256_hex (node_canonical source components)"

definition node_id_for_core :: "(string \<Rightarrow> string) \<Rightarrow> string \<Rightarrow> NodeRecordId" where
  "node_id_for_core sha256_hex proxy_name =
    NodeRecordId (source_aware_node_id sha256_hex ''core'' [proxy_name])"

definition node_id_for_provider :: "(string \<Rightarrow> string) \<Rightarrow> string \<Rightarrow> string \<Rightarrow> NodeRecordId" where
  "node_id_for_provider sha256_hex provider_name proxy_name =
    NodeRecordId (source_aware_node_id sha256_hex ''provider'' [provider_name, proxy_name])"

definition group_id_for_name :: "(string \<Rightarrow> string) \<Rightarrow> string \<Rightarrow> ProxyGroupId" where
  "group_id_for_name sha256_hex name =
    ProxyGroupId (''group_v1_'' @ sha256_hex (''ratash-proxy-group-v1'' @ [nul] @ name))"

section \<open>Redaction of subscription URLs\<close>

definition is_ascii_digit :: "char \<Rightarrow> bool" where
  "is_ascii_digit c = (48 \<le> byte_of c \<and> byte_of c \<le> 57)"

definition is_ascii_uppercase :: "char \<Rightarrow> bool" where
  "is_ascii_uppercase c = (65 \<le> byte_of c \<and> byte_of c \<le> 90)"

definition is_ascii_lowercase :: "char \<Rightarrow> bool" where
  "is_ascii_lowercase c = (97 \<le> byte_of c \<and> byte_of c \<le> 122)"

definition is_ascii_alphabetic :: "char \<Rightarrow> bool" where
  "is_ascii_alphabetic c = (is_ascii_uppercase c \<or> is_ascii_lowercase c)"

definition is_ascii_alphanumeric :: "char \<Rightarrow> bool" where
  "is_ascii_alphanumeric c = (is_ascii_alphabetic c \<or> is_ascii_digit c)"

definition strip_suffix :: "string \<Rightarrow> string \<Rightarrow> string option" where
  "strip_suffix suf s = (if suffix suf s then Some (take (length s - length suf) s) else None)"

fun find_map :: "('a \<Rightarrow> 'b option) \<Rightarrow> 'a list \<Rightarrow> 'b option" where
  "find_map f [] = None"
| "find_map f (x # xs) = (case f x of Some y \<Rightarrow> Some y | None \<Rightarrow> find_map f xs)"

definition looks_like_encoded_secret :: "string \<Rightarrow> bool" where
  "looks_like_encoded_secret v =
    (let v = (case find_map (\<lambda>suf. strip_suffix suf v) [''.yaml'', ''.yml'', ''.txt''] of
                Some stem \<Rightarrow> stem | None \<Rightarrow> v);
         jwt_parts = split_on CHR ''.'' v
     in if length jwt_parts = 3 \<and>
           list_all (\<lambda>part. 8 \<le> length part \<and>
             list_all (\<lambda>c. is_ascii_alphanumeric c \<or> c = CHR ''-'' \<or> c = CHR ''_'') part) jwt_parts
        then True
        else if length v < 24 \<or>
           \<not> list_all (\<lambda>c. is_ascii_alphanumeric c \<or> c \<in> set ''-_+=.'') v
        then False
        else (list_ex is_ascii_alphabetic v \<and> list_ex is_ascii_digit v) \<or>
             (list_ex is_ascii_uppercase v \<and> list_ex is_ascii_lowercase v) \<or>
             CHR ''='' \<in> set v)"

definition is_token_like_path_segment :: "(string \<Rightarrow> string) \<Rightarrow> string \<Rightarrow> bool" where
  "is_token_like_path_segment percent_decode segment =
    (let decoded = percent_decode segment;
         normalized = map to_ascii_lower decoded
     in list_ex (\<lambda>marker. sublist marker normalized)
          [''token'', ''secret'', ''credential'', ''auth'', ''api-key'', ''apikey''] \<or>
        looks_like_encoded_secret decoded)"

record Url =
  url_scheme :: string
  url_userinfo :: string
  url_host :: "string option"
  url_origin :: string
  url_path_segments :: "string list option"
  url_query :: "string option"
  url_fragment :: "string option"

definition SubscriptionUrl_parse :: "(string \<Rightarrow> Url option) \<Rightarrow> string \<Rightarrow> Url option" where
  "SubscriptionUrl_parse url_parse v =
    (if length v > SUBSCRIPTION_URL_MAX_BYTES then None
     else (case url_parse v of
        None \<Rightarrow> None
      | Some parsed \<Rightarrow>
          if (url_scheme parsed = ''http'' \<or> url_scheme parsed = ''https'') \<and> url_host parsed \<noteq> None
          then Some parsed else None))"

definition redacted_segment :: "(string \<Rightarrow> string) \<Rightarrow> string \<Rightarrow> string" where
  "redacted_segment percent_decode segment =
    CHR ''/'' # (if is_token_like_path_segment percent_decode segment then ''[redacted]'' else segment)"

definition redacted_pair :: "(string \<Rightarrow> string) \<Rightarrow> string \<Rightarrow> string" where
  "redacted_pair percent_decode pair =
    (let (key, has_value) = (case split_once CHR ''='' pair of
           None \<Rightarrow> (pair, False) | Some (key, _) \<Rightarrow> (key, True))
     in (if has_value \<and> \<not> is_token_like_path_segment percent_decode key then key else ''[redacted]'') @
        ''=[redacted]'')"

definition redacted_query :: "(string \<Rightarrow> string) \<Rightarrow> string \<Rightarrow> string" where
  "redacted_query percent_decode query =
    CHR ''?'' # join_with CHR ''&'' (map (redacted_pair percent_decode) (split_on CHR ''&'' query))"

definition url_redacted :: "(string \<Rightarrow> string) \<Rightarrow> Url \<Rightarrow> string" where
  "url_redacted percent_decode u =
    url_origin u @
    (case url_path_segments u of None \<Rightarrow> []
     | Some segments \<Rightarrow> concat (map (redacted_segment percent_decode) segments)) @
    (case url_query u of None \<Rightarrow> [] | Some query \<Rightarrow> redacted_query percent_decode query)"

text \<open>
  What an observer may learn of a URL: its origin, path segments that do not look like
  secrets, and query keys that do not look like secrets.
\<close>

definition public_segment :: "(string \<Rightarrow> string) \<Rightarrow> string \<Rightarrow> string option" where
  "public_segment percent_decode segment =
    (if is_token_like_path_segment percent_decode segment then None else Some segment)"

definition public_pair :: "(string \<Rightarrow> string) \<Rightarrow> string \<Rightarrow> string option" where
  "public_pair percent_decode pair =
    (case split_once CHR ''='' pair of
       None \<Rightarrow> None
     | Some (key, _) \<Rightarrow> public_segment percent_decode key)"

definition url_public ::
  "(string \<Rightarrow> string) \<Rightarrow> Url \<Rightarrow> string \<times> string option list option \<times> string option list option" where
  "url_public percent_decode u =
    (url_origin u,
     map_option (map (public_segment percent_decode)) (url_path_segments u),
     map_option (\<lambda>q. map (public_pair percent_decode) (split_on CHR ''&'' q)) (url_query u))"

section \<open>Lemmas\<close>

lemma length_be_bytes [simp]: "length (be_bytes k n) = k"
  by (induction k arbitrary: n) auto

lemma be_bytes_inject:
  "n < 256 ^ k \<Longrightarrow> m < 256 ^ k \<Longrightarrow> be_bytes k n = be_bytes k m \<longleftrightarrow> n = m"
proof (induction k arbitrary: n m)
  case 0
  then show ?case by simp
next
  case (Suc k)
  have less: "n div 256 < 256 ^ k" "m div 256 < 256 ^ k"
    using Suc.prems by (simp_all add: less_mult_imp_div_less mult.commute)
  have char: "(char_of (n mod 256) :: char) = char_of (m mod 256) \<longleftrightarrow> n mod 256 = m mod 256"
    by (metis char_of_mod_256 of_char_of mod_mod_trivial)
  have "be_bytes (Suc k) n = be_bytes (Suc k) m \<longleftrightarrow> n div 256 = m div 256 \<and> n mod 256 = m mod 256"
    using Suc.IH [OF less] char by simp
  also have "\<dots> \<longleftrightarrow> n = m"
    by (metis div_mult_mod_eq)
  finally show ?case .
qed

lemma u64_to_be_bytes_inject [simp]: "u64_to_be_bytes a = u64_to_be_bytes b \<longleftrightarrow> a = b"
proof -
  have "unat w < 256 ^ 8" for w :: u64
    using unat_below [of w] by simp
  then show ?thesis
    by (simp add: u64_to_be_bytes_def be_bytes_inject word_unat_eq_iff)
qed

lemma length_u64_to_be_bytes [simp]: "length (u64_to_be_bytes w) = 8"
  by (simp add: u64_to_be_bytes_def)

lemma u64_to_be_bytes_nonempty [simp]: "u64_to_be_bytes w \<noteq> []"
  by (metis length_u64_to_be_bytes list.size(3) zero_neq_numeral)

lemma of_nat_length_inject:
  "length a < 2 ^ 64 \<Longrightarrow> length b < 2 ^ 64 \<Longrightarrow>
    (of_nat (length a) :: u64) = of_nat (length b) \<longleftrightarrow> length a = length b"
  by (simp add: word_unat_eq_iff unsigned_of_nat take_bit_nat_eq_self)

lemma encode_components_inject:
  "list_all (\<lambda>c. length c < 2 ^ 64) cs \<Longrightarrow> list_all (\<lambda>c. length c < 2 ^ 64) ds \<Longrightarrow>
    encode_components cs = encode_components ds \<Longrightarrow> cs = ds"
proof (induction cs arbitrary: ds)
  case Nil
  then show ?case by (cases ds) auto
next
  case (Cons c cs)
  obtain d ds' where ds: "ds = d # ds'"
    using Cons.prems(3) by (cases ds) auto
  have "u64_to_be_bytes (of_nat (length c)) = u64_to_be_bytes (of_nat (length d)) \<and>
      c @ encode_components cs = d @ encode_components ds'"
    using Cons.prems(3) ds by (simp add: append_eq_append_conv)
  then have "length c = length d" "c @ encode_components cs = d @ encode_components ds'"
    using Cons.prems(1,2) ds of_nat_length_inject [of c d] by simp_all
  then have "c = d" "encode_components cs = encode_components ds'"
    by (simp_all add: append_eq_append_conv)
  with Cons ds show ?case by simp
qed

lemma node_canonical_inject:
  assumes "nul \<notin> set s" "nul \<notin> set t"
    and "list_all (\<lambda>c. length c < 2 ^ 64) cs" "list_all (\<lambda>c. length c < 2 ^ 64) ds"
    and "node_canonical s cs = node_canonical t ds"
  shows "s = t \<and> cs = ds"
proof -
  let ?enc = "\<lambda>s cs. s @ nul # encode_components cs"
  have "?enc s cs = ?enc t ds"
    using assms(5) by (simp add: node_canonical_def)
  then have "split_once nul (?enc s cs) = split_once nul (?enc t ds)" by simp
  moreover have "split_once nul (?enc s cs) = Some (s, encode_components cs)"
    "split_once nul (?enc t ds) = Some (t, encode_components ds)"
    using assms(1,2) by (simp_all add: split_once_Some)
  ultimately show ?thesis
    using encode_components_inject assms(3,4) by simp
qed

lemma redacted_segment_public:
  "redacted_segment pd =
    (\<lambda>a. CHR ''/'' # (case public_segment pd a of None \<Rightarrow> ''[redacted]'' | Some s \<Rightarrow> s))"
  by (rule ext) (simp add: redacted_segment_def public_segment_def)

lemma redacted_pair_public:
  "redacted_pair pd =
    (\<lambda>p. (case public_pair pd p of None \<Rightarrow> ''[redacted]'' | Some k \<Rightarrow> k) @ ''=[redacted]'')"
  by (rule ext) (auto simp: redacted_pair_def public_pair_def public_segment_def split: option.splits)

lemma redacted_via_public:
  "url_redacted pd u =
    (case url_public pd u of (origin, segments, pairs) \<Rightarrow>
       origin @
       (case segments of None \<Rightarrow> []
        | Some ss \<Rightarrow> concat (map (\<lambda>s. CHR ''/'' # (case s of None \<Rightarrow> ''[redacted]'' | Some t \<Rightarrow> t)) ss)) @
       (case pairs of None \<Rightarrow> []
        | Some ps \<Rightarrow> CHR ''?'' # join_with CHR ''&''
            (map (\<lambda>p. (case p of None \<Rightarrow> ''[redacted]'' | Some k \<Rightarrow> k) @ ''=[redacted]'') ps)))"
  by (auto simp: url_redacted_def url_public_def redacted_query_def redacted_segment_public
      redacted_pair_public comp_def split: option.splits)

section \<open>Properties\<close>

text \<open>C28. Node identifiers are collision free up to the digest: the byte string that is hashed
  determines the source tag and every name component, so two nodes from different sources
  or with different names never share one, whatever bytes their names contain.\<close>

theorem node_canonical_injective:
  assumes "nul \<notin> set s" "nul \<notin> set t"
    and "list_all (\<lambda>c. length c < 2 ^ 64) cs" "list_all (\<lambda>c. length c < 2 ^ 64) ds"
  shows "node_canonical s cs = node_canonical t ds \<longleftrightarrow> s = t \<and> cs = ds"
  using node_canonical_inject [OF assms] by auto

theorem node_canonical_injective_witness:
  "node_canonical ''provider'' [''ab'', ''c''] \<noteq> node_canonical ''provider'' [''a'', ''bc'']"
  using node_canonical_injective [of "''provider''" "''provider''" "[''ab'', ''c'']" "[''a'', ''bc'']"]
  by simp

text \<open>C29. Redaction does not leak: the redacted form of a subscription URL is determined by the
  origin, the path segments that do not look like secrets and the query keys that do not,
  so neither user information, fragment, query values nor secret-looking segments and keys
  can be read from it.\<close>

theorem redacted_noninterference:
  assumes "url_public percent_decode u = url_public percent_decode v"
  shows "url_redacted percent_decode u = url_redacted percent_decode v"
  by (simp add: redacted_via_public assms)

theorem redacted_noninterference_witness:
  "url_redacted (\<lambda>s. s) \<lparr>url_scheme = ''https'', url_userinfo = ''me'', url_host = Some ''sub.example'',
     url_origin = ''https://h'', url_path_segments = Some [''a''], url_query = Some ''k=one'', url_fragment = None\<rparr> =
   url_redacted (\<lambda>s. s) \<lparr>url_scheme = ''https'', url_userinfo = ''you'', url_host = Some ''sub.example'',
     url_origin = ''https://h'', url_path_segments = Some [''a''], url_query = Some ''k=two'', url_fragment = None\<rparr>"
  by (rule redacted_noninterference)
    (simp add: url_public_def public_pair_def split_once_def)

end
