(* ===== verification/Machines.thy ===== *)
theory Machines
  imports Main
begin

text \<open>
  Interfaces of stateful components.  A component is a start state and a step function on
  operations; the contract is an invariant that the start state has and that every
  operation keeps.  Extensions add a bounded load (worker pools, bounded buffers), a
  stamp that never decreases (sequence numbers, revisions) and the law that the stamp
  identifies the state.  What follows for whole runs is proved here once; the components
  interpret these locales on their own operations.
\<close>

locale state_machine =
  fixes init :: 's
    and step :: "'op \<Rightarrow> 's \<Rightarrow> 's"
    and inv :: "'s \<Rightarrow> bool"
  assumes inv_init: "inv init"
    and inv_step: "inv s \<Longrightarrow> inv (step op s)"
begin

lemma run_from: "inv s \<Longrightarrow> inv (fold step ops s)"
  by (induction ops arbitrary: s) (auto intro: inv_step)

lemma run_inv: "inv (fold step ops init)"
  by (rule run_from) (rule inv_init)

lemma run_transitive:
  assumes refl: "\<And>s. inv s \<Longrightarrow> R s s"
    and trans: "\<And>a b c. R a b \<Longrightarrow> R b c \<Longrightarrow> R a c"
    and single: "\<And>op s. inv s \<Longrightarrow> R s (step op s)"
    and "inv s"
  shows "R s (fold step ops s)"
  using \<open>inv s\<close>
proof (induction ops arbitrary: s)
  case Nil
  then show ?case using refl by simp
next
  case (Cons op ops)
  then have "R s (step op s)" "R (step op s) (fold step ops (step op s))"
    using single inv_step by auto
  then show ?case using trans by simp
qed

end

locale worker_pool = state_machine +
  fixes load :: "'a \<Rightarrow> nat"
    and capacity :: nat
  assumes load_bound: "inv s \<Longrightarrow> load s \<le> capacity"
begin

lemma run_load: "load (fold step ops init) \<le> capacity"
  by (rule load_bound) (rule run_inv)

end

locale stamped_machine = state_machine +
  fixes stamp :: "'a \<Rightarrow> nat"
  assumes stamp_step: "inv s \<Longrightarrow> stamp s \<le> stamp (step op s)"
begin

lemma run_stamp: "inv s \<Longrightarrow> stamp s \<le> stamp (fold step ops s)"
  by (rule run_transitive [where R = "\<lambda>a b. stamp a \<le> stamp b"]) (auto intro: stamp_step)

lemma run_stamp_split:
  "inv s \<Longrightarrow> stamp (fold step ops s) \<le> stamp (fold step (ops @ more) s)"
  using run_stamp [OF run_from] by simp

end

locale versioned_machine = stamped_machine +
  assumes stamp_same: "inv s \<Longrightarrow> stamp (step op s) = stamp s \<Longrightarrow> step op s = s"
begin

lemma version_identifies: "inv s \<Longrightarrow> stamp (fold step ops s) = stamp s \<Longrightarrow> fold step ops s = s"
proof (induction ops arbitrary: s)
  case (Cons op ops)
  have "stamp s \<le> stamp (step op s)" "stamp (step op s) \<le> stamp (fold step ops (step op s))"
    using Cons.prems(1) by (auto intro: stamp_step run_stamp inv_step)
  with Cons.prems have "stamp (step op s) = stamp s" by simp
  with Cons.prems have "step op s = s" by (simp add: stamp_same)
  with Cons show ?case by simp
qed simp

end

end
