(* ===== verification/Refresh_Scheduler.thy ===== *)
theory Refresh_Scheduler
  imports Domain_Types Machines
begin

text \<open>
  The profile refresh scheduler (first half of \<open>src/src/scheduler.rs\<close>).

  The state is the record \<open>ProfileRefreshScheduler\<close>; \<open>refresh_upsert\<close>, \<open>refresh_remove\<close>,
  \<open>refresh_take_due\<close> and \<open>refresh_complete\<close> are its mutating methods, the last two with
  their result.  Registration identifiers tell a profile that was removed and added again
  from the one an outstanding task was issued for.
\<close>

section \<open>State\<close>

record RefreshTask =
  rt_attempt_id :: u64
  rt_profile_id :: ProfileId
  rt_profile_revision :: ProfileRevision
  rt_due_at_unix_ms :: u64
  rt_registration_id :: u64

record RefreshCompletion =
  rc_task :: RefreshTask
  rc_profile_revision :: ProfileRevision
  rc_completed_at_unix_ms :: u64

datatype RefreshCompletionStatus
  = RefreshRescheduled u64
  | RefreshStaleRevision
  | RefreshProfileRemoved
  | RefreshUnknownTask

record RefreshEntry =
  re_profile_revision :: ProfileRevision
  re_due_at_unix_ms :: u64
  re_registration_id :: u64

record InFlightRefresh =
  fr_attempt_id :: u64
  fr_registration_id :: u64

record ProfileRefreshScheduler =
  rf_entries :: "(ProfileId, RefreshEntry) btree_map"
  rf_in_flight :: "(ProfileId, InFlightRefresh) btree_map"
  rf_next_attempt_id :: u64
  rf_next_registration_id :: u64

section \<open>Operations\<close>

definition next_nonzero :: "u64 \<Rightarrow> u64" where
  "next_nonzero v = (let next = v + 1 in if next = 0 then 1 else next)"

definition refresh_new :: ProfileRefreshScheduler where
  "refresh_new = \<lparr>rf_entries = [], rf_in_flight = [], rf_next_attempt_id = 1, rf_next_registration_id = 1\<rparr>"

definition refresh_take_attempt_id :: "ProfileRefreshScheduler \<Rightarrow> u64 \<times> ProfileRefreshScheduler" where
  "refresh_take_attempt_id s =
    (rf_next_attempt_id s, s\<lparr>rf_next_attempt_id := next_nonzero (rf_next_attempt_id s)\<rparr>)"

definition refresh_take_registration_id :: "ProfileRefreshScheduler \<Rightarrow> u64 \<times> ProfileRefreshScheduler" where
  "refresh_take_registration_id s =
    (rf_next_registration_id s, s\<lparr>rf_next_registration_id := next_nonzero (rf_next_registration_id s)\<rparr>)"

definition refresh_upsert ::
  "ProfileId \<Rightarrow> ProfileRevision \<Rightarrow> u64 \<Rightarrow> ProfileRefreshScheduler \<Rightarrow> ProfileRefreshScheduler" where
  "refresh_upsert profile_id profile_revision next_refresh_at s =
    (let (registration_id, s) =
       (case bt_get (rf_entries s) profile_id of
          Some entry \<Rightarrow> (re_registration_id entry, s)
        | None \<Rightarrow> refresh_take_registration_id s)
     in s\<lparr>rf_entries := bt_insert profile_id
            \<lparr>re_profile_revision = profile_revision, re_due_at_unix_ms = next_refresh_at,
             re_registration_id = registration_id\<rparr> (rf_entries s)\<rparr>)"

definition refresh_remove :: "ProfileId \<Rightarrow> ProfileRefreshScheduler \<Rightarrow> bool \<times> ProfileRefreshScheduler" where
  "refresh_remove profile_id s =
    (bt_contains (rf_entries s) profile_id, s\<lparr>rf_entries := bt_remove profile_id (rf_entries s)\<rparr>)"

definition refresh_idle_entries :: "ProfileRefreshScheduler \<Rightarrow> (ProfileId \<times> RefreshEntry) list" where
  "refresh_idle_entries s = filter (\<lambda>(p, e). \<not> bt_contains (rf_in_flight s) p) (rf_entries s)"

definition refresh_next_deadline :: "ProfileRefreshScheduler \<Rightarrow> u64 option" where
  "refresh_next_deadline s =
    (case map (\<lambda>(p, e). re_due_at_unix_ms e) (refresh_idle_entries s) of
       [] \<Rightarrow> None
     | d # ds \<Rightarrow> Some (fold min ds d))"

type_synonym due_refresh = "u64 \<times> ProfileId \<times> ProfileRevision \<times> u64"

definition refresh_due :: "u64 \<Rightarrow> ProfileRefreshScheduler \<Rightarrow> due_refresh list" where
  "refresh_due now s =
    map (\<lambda>(p, e). (re_due_at_unix_ms e, p, re_profile_revision e, re_registration_id e))
      (filter (\<lambda>(p, e). re_due_at_unix_ms e \<le> now \<and> \<not> bt_contains (rf_in_flight s) p) (rf_entries s))"

fun refresh_launch :: "due_refresh \<Rightarrow> ProfileRefreshScheduler \<Rightarrow> RefreshTask \<times> ProfileRefreshScheduler" where
  "refresh_launch (due_at, profile_id, profile_revision, registration_id) s =
    (let (attempt_id, s) = refresh_take_attempt_id s
     in (\<lparr>rt_attempt_id = attempt_id, rt_profile_id = profile_id,
          rt_profile_revision = profile_revision, rt_due_at_unix_ms = due_at,
          rt_registration_id = registration_id\<rparr>,
         s\<lparr>rf_in_flight := bt_insert profile_id
             \<lparr>fr_attempt_id = attempt_id, fr_registration_id = registration_id\<rparr> (rf_in_flight s)\<rparr>))"

fun refresh_start :: "due_refresh list \<Rightarrow> ProfileRefreshScheduler \<Rightarrow> RefreshTask list \<times> ProfileRefreshScheduler" where
  "refresh_start [] s = ([], s)"
| "refresh_start (d # rest) s =
    (let (task, s) = refresh_launch d s; (tasks, s) = refresh_start rest s in (task # tasks, s))"

definition refresh_take_due :: "u64 \<Rightarrow> ProfileRefreshScheduler \<Rightarrow> RefreshTask list \<times> ProfileRefreshScheduler" where
  "refresh_take_due now s =
    (let available = PROFILE_REFRESH_CONCURRENCY - length (rf_in_flight s)
     in refresh_start (take available (sort (refresh_due now s))) s)"

definition refresh_complete ::
  "RefreshCompletion \<Rightarrow> ProfileRefreshScheduler \<Rightarrow> RefreshCompletionStatus \<times> ProfileRefreshScheduler" where
  "refresh_complete completion s =
    (let task = rc_task completion; pid = rt_profile_id task in
     case bt_get (rf_in_flight s) pid of
       None \<Rightarrow> (RefreshUnknownTask, s)
     | Some in_flight \<Rightarrow>
         if fr_attempt_id in_flight \<noteq> rt_attempt_id task \<or> fr_registration_id in_flight \<noteq> rt_registration_id task
         then (RefreshUnknownTask, s)
         else
           let s = s\<lparr>rf_in_flight := bt_remove pid (rf_in_flight s)\<rparr> in
           (case bt_get (rf_entries s) pid of
              None \<Rightarrow> (RefreshProfileRemoved, s)
            | Some entry \<Rightarrow>
                if re_registration_id entry \<noteq> rt_registration_id task \<or>
                   re_profile_revision entry \<noteq> rt_profile_revision task
                then (RefreshStaleRevision, s)
                else
                  let next = saturating_add (rc_completed_at_unix_ms completion) (duration_ms PROFILE_REFRESH_INTERVAL) in
                  (RefreshRescheduled next,
                   s\<lparr>rf_entries := bt_insert pid
                       (entry\<lparr>re_profile_revision := rc_profile_revision completion, re_due_at_unix_ms := next\<rparr>)
                       (rf_entries s)\<rparr>)))"

section \<open>Invariant\<close>

definition refresh_inv :: "ProfileRefreshScheduler \<Rightarrow> bool" where
  "refresh_inv s =
    (bt_wf (rf_entries s) \<and> bt_wf (rf_in_flight s) \<and>
     length (rf_in_flight s) \<le> PROFILE_REFRESH_CONCURRENCY \<and>
     rf_next_attempt_id s \<noteq> 0 \<and> rf_next_registration_id s \<noteq> 0 \<and>
     list_all (\<lambda>(p, e). re_registration_id e \<noteq> 0) (rf_entries s) \<and>
     list_all (\<lambda>(p, f). fr_attempt_id f \<noteq> 0 \<and> fr_registration_id f \<noteq> 0) (rf_in_flight s))"

text \<open>The profiles that are registered, due at \<open>now\<close> and not in flight.\<close>

definition refresh_waiting :: "u64 \<Rightarrow> ProfileRefreshScheduler \<Rightarrow> ProfileId set" where
  "refresh_waiting now s =
    {p. \<exists>e. bt_get (rf_entries s) p = Some e \<and> re_due_at_unix_ms e \<le> now \<and> bt_get (rf_in_flight s) p = None}"

definition refresh_batch :: "u64 \<Rightarrow> ProfileRefreshScheduler \<Rightarrow> due_refresh list" where
  "refresh_batch now s = take (PROFILE_REFRESH_CONCURRENCY - length (rf_in_flight s)) (sort (refresh_due now s))"

datatype RefreshOp
  = RefreshUpsert ProfileId ProfileRevision u64
  | RefreshRemove ProfileId
  | RefreshTakeDue u64
  | RefreshComplete RefreshCompletion

fun refresh_step :: "RefreshOp \<Rightarrow> ProfileRefreshScheduler \<Rightarrow> ProfileRefreshScheduler" where
  "refresh_step (RefreshUpsert p v d) s = refresh_upsert p v d s"
| "refresh_step (RefreshRemove p) s = snd (refresh_remove p s)"
| "refresh_step (RefreshTakeDue now) s = snd (refresh_take_due now s)"
| "refresh_step (RefreshComplete c) s = snd (refresh_complete c s)"

section \<open>Lemmas\<close>

lemma next_nonzero_nonzero [simp]: "next_nonzero v \<noteq> 0"
  by (simp add: next_nonzero_def Let_def)

lemma bt_get_list_all: "list_all P m \<Longrightarrow> bt_get m k = Some v \<Longrightarrow> P (k, v)"
  by (auto simp: list_all_iff dest: map_of_SomeD)

lemma refresh_due_mem:
  assumes "bt_wf (rf_entries s)"
  shows "(d, p, v, r) \<in> set (refresh_due now s) \<longleftrightarrow>
    bt_get (rf_entries s) p = Some \<lparr>re_profile_revision = v, re_due_at_unix_ms = d, re_registration_id = r\<rparr> \<and>
    d \<le> now \<and> bt_get (rf_in_flight s) p = None"
proof
  assume "(d, p, v, r) \<in> set (refresh_due now s)"
  then obtain e where e: "(p, e) \<in> set (rf_entries s)" "d = re_due_at_unix_ms e" "v = re_profile_revision e"
    "r = re_registration_id e" "d \<le> now" "bt_get (rf_in_flight s) p = None"
    by (auto simp: refresh_due_def bt_contains_def)
  then show "bt_get (rf_entries s) p = Some \<lparr>re_profile_revision = v, re_due_at_unix_ms = d, re_registration_id = r\<rparr> \<and>
    d \<le> now \<and> bt_get (rf_in_flight s) p = None"
    using assms by (cases e) (simp add: bt_get_in_iff)
next
  assume asm: "bt_get (rf_entries s) p = Some \<lparr>re_profile_revision = v, re_due_at_unix_ms = d, re_registration_id = r\<rparr> \<and>
    d \<le> now \<and> bt_get (rf_in_flight s) p = None"
  then have "(p, \<lparr>re_profile_revision = v, re_due_at_unix_ms = d, re_registration_id = r\<rparr>) \<in> set (rf_entries s)"
    using assms by (simp add: bt_get_in_iff)
  with asm show "(d, p, v, r) \<in> set (refresh_due now s)"
    unfolding refresh_due_def bt_contains_def by force
qed

lemma refresh_due_ids_distinct:
  assumes "bt_wf (rf_entries s)"
  shows "distinct (map (fst \<circ> snd) (refresh_due now s))"
proof -
  have "map (fst \<circ> snd) (refresh_due now s) = map fst
      (filter (\<lambda>(p, e). re_due_at_unix_ms e \<le> now \<and> \<not> bt_contains (rf_in_flight s) p) (rf_entries s))"
    by (auto simp: refresh_due_def)
  then show ?thesis
    using bt_wf_distinct [OF bt_wf_filter [OF assms]] by simp
qed

text \<open>What starting a list of due refreshes does, for distinct profiles that are not in flight.\<close>

lemma refresh_launch_simps [simp]:
  "rf_entries (snd (refresh_launch d s)) = rf_entries s"
  "rf_next_registration_id (snd (refresh_launch d s)) = rf_next_registration_id s"
  "rf_next_attempt_id (snd (refresh_launch d s)) \<noteq> 0"
  "rf_in_flight (snd (refresh_launch d s)) =
     bt_insert (fst (snd d)) \<lparr>fr_attempt_id = rf_next_attempt_id s, fr_registration_id = snd (snd (snd d))\<rparr>
       (rf_in_flight s)"
  "rt_attempt_id (fst (refresh_launch d s)) = rf_next_attempt_id s"
  "rt_profile_id (fst (refresh_launch d s)) = fst (snd d)"
  "rt_profile_revision (fst (refresh_launch d s)) = fst (snd (snd d))"
  "rt_due_at_unix_ms (fst (refresh_launch d s)) = fst d"
  "rt_registration_id (fst (refresh_launch d s)) = snd (snd (snd d))"
  by (cases d; simp add: refresh_take_attempt_id_def)+

lemma refresh_start_Cons [simp]:
  "fst (refresh_start (d # ds) s) = fst (refresh_launch d s) # fst (refresh_start ds (snd (refresh_launch d s)))"
  "snd (refresh_start (d # ds) s) = snd (refresh_start ds (snd (refresh_launch d s)))"
  by (simp_all add: case_prod_unfold Let_def)

declare refresh_start.simps(2) [simp del]

lemma refresh_start_keeps [simp]:
  "rf_entries (snd (refresh_start ds s)) = rf_entries s"
  "rf_next_registration_id (snd (refresh_start ds s)) = rf_next_registration_id s"
  by (induction ds arbitrary: s) simp_all

lemma refresh_start_tasks:
  "map (\<lambda>t. (rt_due_at_unix_ms t, rt_profile_id t, rt_profile_revision t, rt_registration_id t))
     (fst (refresh_start ds s)) = ds"
  by (induction ds arbitrary: s) simp_all

lemma refresh_start_task_ids: "map rt_profile_id (fst (refresh_start ds s)) = map (fst \<circ> snd) ds"
  by (induction ds arbitrary: s) simp_all

lemma refresh_start_in_flight:
  "bt_wf (rf_in_flight s) \<Longrightarrow> distinct (map (fst \<circ> snd) ds) \<Longrightarrow>
   (\<And>d. d \<in> set ds \<Longrightarrow> bt_get (rf_in_flight s) (fst (snd d)) = None) \<Longrightarrow>
   bt_wf (rf_in_flight (snd (refresh_start ds s))) \<and>
   length (rf_in_flight (snd (refresh_start ds s))) = length (rf_in_flight s) + length ds"
proof (induction ds arbitrary: s)
  case (Cons d ds)
  have "bt_get (rf_in_flight (snd (refresh_launch d s))) (fst (snd e)) = None" if "e \<in> set ds" for e
  proof -
    have "fst (snd e) \<noteq> fst (snd d)"
      using Cons.prems(2) that by (auto simp: image_iff)
    with Cons.prems(3) [of e] that show ?thesis
      by (simp add: btree_simps)
  qed
  then have "bt_wf (rf_in_flight (snd (refresh_start ds (snd (refresh_launch d s))))) \<and>
      length (rf_in_flight (snd (refresh_start ds (snd (refresh_launch d s))))) =
      length (rf_in_flight (snd (refresh_launch d s))) + length ds"
    using Cons.prems(1,2) by (intro Cons.IH) (simp_all add: btree_simps)
  with Cons.prems(1) Cons.prems(3) [of d] show ?case
    by (simp add: length_bt_insert)
qed simp

lemma refresh_start_ids:
  "rf_next_attempt_id s \<noteq> 0 \<Longrightarrow>
   list_all (\<lambda>(p, f). fr_attempt_id f \<noteq> 0 \<and> fr_registration_id f \<noteq> 0) (rf_in_flight s) \<Longrightarrow>
   list_all (\<lambda>(d, p, v, r). r \<noteq> 0) ds \<Longrightarrow>
   rf_next_attempt_id (snd (refresh_start ds s)) \<noteq> 0 \<and>
   list_all (\<lambda>(p, f). fr_attempt_id f \<noteq> 0 \<and> fr_registration_id f \<noteq> 0)
     (rf_in_flight (snd (refresh_start ds s)))"
proof (induction ds arbitrary: s)
  case (Cons d ds)
  have "snd (snd (snd d)) \<noteq> 0" "list_all (\<lambda>(d, p, v, r). r \<noteq> 0) ds"
    using Cons.prems(3) by (simp_all add: case_prod_unfold)
  with Cons.prems(1,2) show ?case
    using Cons.IH [of "snd (refresh_launch d s)"] by (simp add: list_all_bt_insert)
qed simp

lemma refresh_start_lookup:
  "distinct (map (fst \<circ> snd) ds) \<Longrightarrow>
   bt_get (rf_in_flight (snd (refresh_start ds s))) p =
    (case find (\<lambda>t. rt_profile_id t = p) (fst (refresh_start ds s)) of
       None \<Rightarrow> bt_get (rf_in_flight s) p
     | Some t \<Rightarrow> Some \<lparr>fr_attempt_id = rt_attempt_id t, fr_registration_id = rt_registration_id t\<rparr>)"
proof (induction ds arbitrary: s)
  case (Cons d ds)
  have "find (\<lambda>t. rt_profile_id t = fst (snd d)) (fst (refresh_start ds (snd (refresh_launch d s)))) = None"
    using Cons.prems refresh_start_task_ids [of ds "snd (refresh_launch d s)"]
    by (metis (mono_tags, lifting) distinct.simps(2) comp_apply find_None_iff image_eqI image_set list.simps(9))
  with Cons show ?case
    by (auto simp: btree_simps split: option.splits)
qed simp

section \<open>The operations keep the invariant\<close>

lemma due_take_facts:
  fixes now :: u64 and s :: ProfileRefreshScheduler
  assumes "refresh_inv s"
  defines "ds \<equiv> take (PROFILE_REFRESH_CONCURRENCY - length (rf_in_flight s)) (sort (refresh_due now s))"
  shows "distinct (map (fst \<circ> snd) ds)"
    and "\<And>d. d \<in> set ds \<Longrightarrow> bt_get (rf_in_flight s) (fst (snd d)) = None"
    and "list_all (\<lambda>(d, p, v, r). r \<noteq> 0) ds"
    and "length ds \<le> PROFILE_REFRESH_CONCURRENCY - length (rf_in_flight s)"
proof -
  have wf: "bt_wf (rf_entries s)"
    using assms by (simp add: refresh_inv_def)
  have "distinct (map (fst \<circ> snd) (sort (refresh_due now s)))"
    using refresh_due_ids_distinct [OF wf, of now] by (simp add: distinct_map)
  then show "distinct (map (fst \<circ> snd) ds)"
    by (simp add: ds_def take_map [symmetric] distinct_take)
  show "bt_get (rf_in_flight s) (fst (snd d)) = None" if "d \<in> set ds" for d
    using that refresh_due_mem [OF wf, of "fst d" "fst (snd d)" "fst (snd (snd d))" "snd (snd (snd d))" now]
    by (auto simp: ds_def dest: in_set_takeD)
  have "list_all (\<lambda>(d, p, v, r). r \<noteq> 0) (refresh_due now s)"
    using assms by (auto simp: refresh_inv_def refresh_due_def list_all_iff)
  then show "list_all (\<lambda>(d, p, v, r). r \<noteq> 0) ds"
    by (auto simp: ds_def list_all_iff dest!: in_set_takeD)
  show "length ds \<le> PROFILE_REFRESH_CONCURRENCY - length (rf_in_flight s)"
    by (simp add: ds_def)
qed

lemma refresh_take_due_inv:
  assumes "refresh_inv s"
  shows "refresh_inv (snd (refresh_take_due now s))"
proof -
  define ds where "ds = take (PROFILE_REFRESH_CONCURRENCY - length (rf_in_flight s)) (sort (refresh_due now s))"
  note facts = due_take_facts [OF assms, where now = now, folded ds_def]
  have s: "snd (refresh_take_due now s) = snd (refresh_start ds s)"
    by (simp add: refresh_take_due_def ds_def)
  have "bt_wf (rf_in_flight s)" "length (rf_in_flight s) \<le> PROFILE_REFRESH_CONCURRENCY"
    using assms by (simp_all add: refresh_inv_def)
  with refresh_start_in_flight [OF _ facts(1,2)] refresh_start_ids [OF _ _ facts(3)] facts(4) assms
  show ?thesis
    unfolding s by (simp add: refresh_inv_def)
qed

lemma refresh_inv_entry_id:
  "refresh_inv s \<Longrightarrow> bt_get (rf_entries s) p = Some e \<Longrightarrow> re_registration_id e \<noteq> 0"
  using bt_get_list_all [of "\<lambda>(p, e). re_registration_id e \<noteq> 0" "rf_entries s" p e]
  by (simp add: refresh_inv_def)

lemma refresh_inv_drop_in_flight:
  "refresh_inv s \<Longrightarrow> refresh_inv (s\<lparr>rf_in_flight := bt_remove p (rf_in_flight s)\<rparr>)"
  using length_bt_remove [of "rf_in_flight s" p]
  by (auto simp: refresh_inv_def btree_simps list_all_bt_remove split: if_splits)

lemma refresh_inv_set_entry:
  "refresh_inv s \<Longrightarrow> re_registration_id e \<noteq> 0 \<Longrightarrow> refresh_inv (s\<lparr>rf_entries := bt_insert p e (rf_entries s)\<rparr>)"
  by (simp add: refresh_inv_def btree_simps list_all_bt_insert)

lemma refresh_complete_inv:
  assumes "refresh_inv s"
  shows "refresh_inv (snd (refresh_complete c s))"
proof -
  define p where "p = rt_profile_id (rc_task c)"
  define s1 where "s1 = s\<lparr>rf_in_flight := bt_remove p (rf_in_flight s)\<rparr>"
  have s1: "refresh_inv s1"
    using refresh_inv_drop_in_flight [OF assms] by (simp add: s1_def)
  show ?thesis
  proof (cases "bt_get (rf_entries s1) p")
    case None
    with assms s1 show ?thesis
      unfolding refresh_complete_def Let_def p_def [symmetric] s1_def [symmetric]
      by (simp split: option.splits)
  next
    case (Some e)
    have "refresh_inv (s1\<lparr>rf_entries := bt_insert p (e\<lparr>re_profile_revision := v, re_due_at_unix_ms := d\<rparr>)
        (rf_entries s1)\<rparr>)" for v d
      using refresh_inv_entry_id [OF s1 Some] by (intro refresh_inv_set_entry s1) simp
    with assms s1 Some show ?thesis
      unfolding refresh_complete_def Let_def p_def [symmetric] s1_def [symmetric]
      by (simp split: option.splits)
  qed
qed

lemma refresh_upsert_inv: "refresh_inv s \<Longrightarrow> refresh_inv (refresh_upsert p v d s)"
proof (cases "bt_get (rf_entries s) p")
  case None
  assume inv: "refresh_inv s"
  let ?s = "s\<lparr>rf_next_registration_id := next_nonzero (rf_next_registration_id s)\<rparr>"
  have "refresh_inv ?s" "rf_next_registration_id s \<noteq> 0"
    using inv by (simp_all add: refresh_inv_def)
  then have "refresh_inv (?s\<lparr>rf_entries := bt_insert p \<lparr>re_profile_revision = v, re_due_at_unix_ms = d,
      re_registration_id = rf_next_registration_id s\<rparr> (rf_entries ?s)\<rparr>)"
    by (intro refresh_inv_set_entry) simp_all
  with None show ?thesis
    by (simp add: refresh_upsert_def refresh_take_registration_id_def)
next
  case (Some e)
  assume "refresh_inv s"
  with Some refresh_inv_entry_id [of s p e] refresh_inv_set_entry [where p = p] show ?thesis
    by (simp add: refresh_upsert_def)
qed

lemma refresh_remove_inv: "refresh_inv s \<Longrightarrow> refresh_inv (snd (refresh_remove p s))"
  by (auto simp: refresh_remove_def refresh_inv_def btree_simps intro: list_all_bt_remove)

interpretation refresh_pool: worker_pool refresh_new refresh_step refresh_inv
  "\<lambda>s. length (rf_in_flight s)" PROFILE_REFRESH_CONCURRENCY
proof unfold_locales
  show "refresh_inv refresh_new"
    by (simp add: refresh_inv_def refresh_new_def)
  show "refresh_inv (refresh_step op s)" if "refresh_inv s" for op s
    using that
    by (cases op) (auto intro: refresh_take_due_inv refresh_complete_inv refresh_upsert_inv refresh_remove_inv)
  show "length (rf_in_flight s) \<le> PROFILE_REFRESH_CONCURRENCY" if "refresh_inv s" for s
    using that by (simp add: refresh_inv_def)
qed

section \<open>Which refreshes are started\<close>

lemma refresh_due_card:
  assumes "bt_wf (rf_entries s)"
  shows "length (refresh_due now s) = card (refresh_waiting now s)"
proof -
  have "refresh_waiting now s = set (map (fst \<circ> snd) (refresh_due now s))"
    using assms by (auto simp: refresh_waiting_def refresh_due_def bt_contains_def bt_get_in_iff image_iff)
  moreover have "card (set (map (fst \<circ> snd) (refresh_due now s))) = length (refresh_due now s)"
    using distinct_card [OF refresh_due_ids_distinct [OF assms]] by simp
  ultimately show ?thesis by simp
qed

lemma take_sort_le:
  assumes "x \<in> set (take n (sort xs))" "y \<in> set xs" "y \<notin> set (take n (sort xs))"
  shows "x \<le> (y :: 'a::linorder)"
proof -
  have "y \<in> set (drop n (sort xs))"
    using assms(2,3) by (metis Un_iff append_take_drop_id set_append set_sort)
  moreover have "sorted (take n (sort xs) @ drop n (sort xs))" by simp
  ultimately show ?thesis
    using assms(1) unfolding sorted_append by blast
qed

lemma sort_eq_Nil: "sort xs = [] \<longleftrightarrow> xs = []"
  by (metis set_empty set_sort)

lemma sorted_fst: "sorted (xs :: ('a::linorder \<times> 'b::linorder) list) \<Longrightarrow> sorted (map fst xs)"
  by (induction xs) (auto simp: less_eq_prod_def)

lemma refresh_task_of_due:
  assumes "t \<in> set (fst (refresh_start ds s))"
  shows "(rt_due_at_unix_ms t, rt_profile_id t, rt_profile_revision t, rt_registration_id t) \<in> set ds"
  using assms refresh_start_tasks [of ds s] by (metis (mono_tags, lifting) image_eqI image_set)

lemma refresh_due_of_task:
  assumes "(d, p, v, r) \<in> set ds"
  shows "\<exists>t \<in> set (fst (refresh_start ds s)). rt_profile_id t = p"
  using assms refresh_start_task_ids [of ds s] by (metis (no_types, lifting) comp_apply fst_conv image_iff list.set_map snd_conv)

lemma find_unique:
  "distinct (map f xs) \<Longrightarrow> x \<in> set xs \<Longrightarrow> find (\<lambda>y. f y = f x) xs = Some x"
  by (induction xs) (auto simp: image_iff)

lemma refresh_start_recorded:
  assumes "distinct (map (fst \<circ> snd) ds)" "t \<in> set (fst (refresh_start ds s))"
  shows "bt_get (rf_in_flight (snd (refresh_start ds s))) (rt_profile_id t) =
    Some \<lparr>fr_attempt_id = rt_attempt_id t, fr_registration_id = rt_registration_id t\<rparr>"
proof -
  have "distinct (map rt_profile_id (fst (refresh_start ds s)))"
    using assms(1) by (simp add: refresh_start_task_ids)
  from find_unique [OF this assms(2)] show ?thesis
    by (simp add: refresh_start_lookup [OF assms(1)])
qed

lemma refresh_take_due_batch: "refresh_take_due now s = refresh_start (refresh_batch now s) s"
  by (simp add: refresh_take_due_def refresh_batch_def)

lemmas batch_facts = due_take_facts [folded refresh_batch_def]

lemma refresh_start_dues: "map rt_due_at_unix_ms (fst (refresh_start ds s)) = map fst ds"
  by (induction ds arbitrary: s) simp_all

lemma length_refresh_start [simp]: "length (fst (refresh_start ds s)) = length ds"
  by (induction ds arbitrary: s) simp_all

lemma length_refresh_batch:
  assumes "refresh_inv s"
  shows "length (refresh_batch now s) =
    min (PROFILE_REFRESH_CONCURRENCY - length (rf_in_flight s)) (card (refresh_waiting now s))"
proof -
  have "bt_wf (rf_entries s)"
    using assms by (simp add: refresh_inv_def)
  then show ?thesis
    unfolding refresh_batch_def length_take length_sort by (subst min.commute) (simp only: refresh_due_card)
qed

lemma take_due_shape:
  assumes inv: "refresh_inv s" and taken: "refresh_take_due now s = (tasks, s')"
  shows "length tasks = min (PROFILE_REFRESH_CONCURRENCY - length (rf_in_flight s)) (card (refresh_waiting now s)) \<and>
    sorted (map rt_due_at_unix_ms tasks) \<and> distinct (map rt_profile_id tasks) \<and> rf_entries s' = rf_entries s"
proof -
  have start: "tasks = fst (refresh_start (refresh_batch now s) s)" "s' = snd (refresh_start (refresh_batch now s) s)"
    using taken by (simp_all add: refresh_take_due_batch)
  have "sorted (map fst (refresh_batch now s))"
    by (rule sorted_fst) (simp add: refresh_batch_def sorted_wrt_take)
  then show ?thesis
    unfolding start refresh_start_dues length_refresh_start refresh_start_task_ids length_refresh_batch [OF inv]
    using batch_facts(1) [OF inv] by simp
qed

lemma take_due_task:
  assumes inv: "refresh_inv s" and taken: "refresh_take_due now s = (tasks, s')"
  shows "\<forall>t \<in> set tasks. rt_profile_id t \<in> refresh_waiting now s \<and>
       bt_get (rf_entries s) (rt_profile_id t) =
         Some \<lparr>re_profile_revision = rt_profile_revision t, re_due_at_unix_ms = rt_due_at_unix_ms t,
               re_registration_id = rt_registration_id t\<rparr> \<and>
       bt_get (rf_in_flight s') (rt_profile_id t) =
         Some \<lparr>fr_attempt_id = rt_attempt_id t, fr_registration_id = rt_registration_id t\<rparr>"
proof
  fix t assume "t \<in> set tasks"
  then have t: "t \<in> set (fst (refresh_start (refresh_batch now s) s))"
    using taken by (simp add: refresh_take_due_batch)
  have wf: "bt_wf (rf_entries s)"
    using inv by (simp add: refresh_inv_def)
  have "(rt_due_at_unix_ms t, rt_profile_id t, rt_profile_revision t, rt_registration_id t) \<in> set (sort (refresh_due now s))"
    using refresh_task_of_due [OF t] unfolding refresh_batch_def by (rule in_set_takeD)
  then have "(rt_due_at_unix_ms t, rt_profile_id t, rt_profile_revision t, rt_registration_id t) \<in> set (refresh_due now s)"
    by simp
  note entry = this [unfolded refresh_due_mem [OF wf]]
  have "bt_get (rf_in_flight s') (rt_profile_id t) =
      Some \<lparr>fr_attempt_id = rt_attempt_id t, fr_registration_id = rt_registration_id t\<rparr>"
    using refresh_start_recorded [OF batch_facts(1) [OF inv] t] taken by (simp add: refresh_take_due_batch)
  with entry show "rt_profile_id t \<in> refresh_waiting now s \<and>
       bt_get (rf_entries s) (rt_profile_id t) =
         Some \<lparr>re_profile_revision = rt_profile_revision t, re_due_at_unix_ms = rt_due_at_unix_ms t,
               re_registration_id = rt_registration_id t\<rparr> \<and>
       bt_get (rf_in_flight s') (rt_profile_id t) =
         Some \<lparr>fr_attempt_id = rt_attempt_id t, fr_registration_id = rt_registration_id t\<rparr>"
    by (simp add: refresh_waiting_def)
qed

lemma take_due_left:
  assumes inv: "refresh_inv s" and taken: "refresh_take_due now s = (tasks, s')"
  shows "\<forall>p \<in> refresh_waiting now s - rt_profile_id ` set tasks. \<forall>e. bt_get (rf_entries s) p = Some e \<longrightarrow>
       (\<forall>t \<in> set tasks. rt_due_at_unix_ms t \<le> re_due_at_unix_ms e)"
proof (intro ballI allI impI)
  fix p e t
  assume p: "p \<in> refresh_waiting now s - rt_profile_id ` set tasks" "bt_get (rf_entries s) p = Some e"
    and "t \<in> set tasks"
  then have t: "t \<in> set (fst (refresh_start (refresh_batch now s) s))"
    using taken by (simp add: refresh_take_due_batch)
  have wf: "bt_wf (rf_entries s)"
    using inv by (simp add: refresh_inv_def)
  let ?y = "(re_due_at_unix_ms e, p, re_profile_revision e, re_registration_id e)"
  have "?y \<in> set (refresh_due now s)"
    using p unfolding refresh_due_mem [OF wf] by (auto simp: refresh_waiting_def)
  moreover have "?y \<notin> set (refresh_batch now s)"
    using p(1) refresh_due_of_task [of "re_due_at_unix_ms e" p "re_profile_revision e" "re_registration_id e"
        "refresh_batch now s" s] taken
    by (auto simp: refresh_take_due_batch)
  ultimately have "(rt_due_at_unix_ms t, rt_profile_id t, rt_profile_revision t, rt_registration_id t) \<le> ?y"
    using refresh_task_of_due [OF t] unfolding refresh_batch_def by (intro take_sort_le)
  then show "rt_due_at_unix_ms t \<le> re_due_at_unix_ms e"
    by (auto simp: less_eq_prod_def)
qed

lemma refresh_next_deadline_None: "refresh_next_deadline s = None \<longleftrightarrow> refresh_idle_entries s = []"
  by (auto simp: refresh_next_deadline_def split: list.splits)

lemma refresh_next_deadline_Some:
  "refresh_next_deadline s = Some d \<Longrightarrow> d = Min (re_due_at_unix_ms ` snd ` set (refresh_idle_entries s)) \<and>
    refresh_idle_entries s \<noteq> []"
  by (auto simp: refresh_next_deadline_def Min.set_eq_fold [symmetric] case_prod_unfold image_image split: list.splits)

lemma refresh_due_empty:
  "refresh_due now s = [] \<longleftrightarrow> (\<forall>d. refresh_next_deadline s = Some d \<longrightarrow> now < d)"
proof -
  have "refresh_due now s = [] \<longleftrightarrow> (\<forall>pe \<in> set (refresh_idle_entries s). now < re_due_at_unix_ms (snd pe))"
    unfolding refresh_due_def refresh_idle_entries_def map_is_Nil_conv filter_empty_conv
    by (auto simp: not_le case_prod_unfold)
  also have "\<dots> \<longleftrightarrow> (\<forall>d. refresh_next_deadline s = Some d \<longrightarrow> now < d)"
  proof (cases "refresh_next_deadline s")
    case None
    then have "refresh_idle_entries s = []" by (simp only: refresh_next_deadline_None)
    with None show ?thesis by simp
  next
    case (Some d)
    with refresh_next_deadline_Some [OF Some] show ?thesis
      by (simp add: image_image)
  qed
  finally show ?thesis .
qed

section \<open>Completions\<close>

lemma refresh_complete_cases:
  assumes "refresh_complete c s = (status, s')"
  shows "(status = RefreshUnknownTask \<and> s' = s) \<or>
    (\<exists>f. bt_get (rf_in_flight s) (rt_profile_id (rc_task c)) = Some f \<and>
      ((status = RefreshProfileRemoved \<and>
        s' = s\<lparr>rf_in_flight := bt_remove (rt_profile_id (rc_task c)) (rf_in_flight s)\<rparr>) \<or>
       (status = RefreshStaleRevision \<and>
        s' = s\<lparr>rf_in_flight := bt_remove (rt_profile_id (rc_task c)) (rf_in_flight s)\<rparr>) \<or>
       (\<exists>e n. bt_get (rf_entries s) (rt_profile_id (rc_task c)) = Some e \<and>
         re_registration_id e = rt_registration_id (rc_task c) \<and>
         re_profile_revision e = rt_profile_revision (rc_task c) \<and>
         status = RefreshRescheduled n \<and>
         n = saturating_add (rc_completed_at_unix_ms c) (duration_ms PROFILE_REFRESH_INTERVAL) \<and>
         s' = s\<lparr>rf_in_flight := bt_remove (rt_profile_id (rc_task c)) (rf_in_flight s),
           rf_entries := bt_insert (rt_profile_id (rc_task c))
             (e\<lparr>re_profile_revision := rc_profile_revision c, re_due_at_unix_ms := n\<rparr>) (rf_entries s)\<rparr>)))"
proof (cases "bt_get (rf_in_flight s) (rt_profile_id (rc_task c))")
  case None
  with assms show ?thesis by (simp add: refresh_complete_def Let_def)
next
  case (Some f)
  note in_flight = this
  show ?thesis
  proof (cases "fr_attempt_id f \<noteq> rt_attempt_id (rc_task c) \<or> fr_registration_id f \<noteq> rt_registration_id (rc_task c)")
    case True
    with assms Some show ?thesis by (simp add: refresh_complete_def Let_def)
  next
    case False
    then show ?thesis
      using assms Some
      by (cases "bt_get (rf_entries s) (rt_profile_id (rc_task c))")
        (auto simp: refresh_complete_def Let_def split: if_splits)
  qed
qed

section \<open>Properties\<close>

text \<open>C18. Never more than two profile refreshes run at a time: from the empty scheduler, whatever
  sequence of upserts, removals, polls and completions is executed, the number of refreshes
  in flight stays within the configured concurrency, the maps stay well formed and no
  identifier is the reserved value zero.\<close>

theorem refresh_concurrency_bounded:
  "refresh_inv (fold refresh_step ops refresh_new) \<and>
   length (rf_in_flight (fold refresh_step ops refresh_new)) \<le> PROFILE_REFRESH_CONCURRENCY"
  using refresh_pool.run_inv refresh_pool.run_load by blast

text \<open>C19. Polling starts the earliest deadlines first: the tasks are for distinct profiles that are
  registered, due and not in flight; as many are started as free slots and due profiles allow;
  they come in deadline order and no due profile that is left waiting has an earlier deadline;
  each is recorded in flight under its own attempt.\<close>

theorem refresh_take_due_earliest_first:
  assumes "refresh_inv s" "refresh_take_due now s = (tasks, s')"
  shows "length tasks = min (PROFILE_REFRESH_CONCURRENCY - length (rf_in_flight s)) (card (refresh_waiting now s)) \<and>
    sorted (map rt_due_at_unix_ms tasks) \<and> distinct (map rt_profile_id tasks) \<and>
    (\<forall>t \<in> set tasks. rt_profile_id t \<in> refresh_waiting now s \<and>
       bt_get (rf_entries s) (rt_profile_id t) =
         Some \<lparr>re_profile_revision = rt_profile_revision t, re_due_at_unix_ms = rt_due_at_unix_ms t,
               re_registration_id = rt_registration_id t\<rparr> \<and>
       bt_get (rf_in_flight s') (rt_profile_id t) =
         Some \<lparr>fr_attempt_id = rt_attempt_id t, fr_registration_id = rt_registration_id t\<rparr>) \<and>
    (\<forall>p \<in> refresh_waiting now s - rt_profile_id ` set tasks. \<forall>e. bt_get (rf_entries s) p = Some e \<longrightarrow>
       (\<forall>t \<in> set tasks. rt_due_at_unix_ms t \<le> re_due_at_unix_ms e)) \<and>
    rf_entries s' = rf_entries s"
  using take_due_shape [OF assms] take_due_task [OF assms] take_due_left [OF assms] by blast

theorem refresh_take_due_earliest_first_witness:
  "let s = fold refresh_step [RefreshUpsert (ProfileId 1) 1 20, RefreshUpsert (ProfileId 2) 1 10,
        RefreshUpsert (ProfileId 3) 1 30] refresh_new
   in map rt_profile_id (fst (refresh_take_due 50 s)) = [ProfileId 2, ProfileId 1] \<and>
      length (fst (refresh_take_due 50 s)) = min 2 (card (refresh_waiting 50 s))"
proof -
  let ?s = "fold refresh_step [RefreshUpsert (ProfileId 1) 1 20, RefreshUpsert (ProfileId 2) 1 10,
        RefreshUpsert (ProfileId 3) 1 30] refresh_new"
  have s: "refresh_inv ?s" by (rule refresh_pool.run_inv)
  have tasks: "map rt_profile_id (fst (refresh_take_due 50 ?s)) = [ProfileId 2, ProfileId 1]"
    "length (rf_in_flight ?s) = 0"
    by code_simp+
  have "length (fst (refresh_take_due 50 ?s)) =
      min (PROFILE_REFRESH_CONCURRENCY - length (rf_in_flight ?s)) (card (refresh_waiting 50 ?s))"
    using refresh_take_due_earliest_first [OF s prod.collapse [symmetric], of 50] by blast
  with tasks show ?thesis
    by (simp add: PROFILE_REFRESH_CONCURRENCY_def Let_def)
qed

text \<open>C20. A poll starts nothing only when nothing can start: it returns no task exactly when all
  slots are taken or the next deadline, which is the earliest one among the idle profiles,
  is still ahead.  Waiting for that deadline therefore misses no refresh.\<close>

theorem refresh_take_due_idle_iff:
  assumes "refresh_inv s"
  shows "fst (refresh_take_due now s) = [] \<longleftrightarrow>
    length (rf_in_flight s) = PROFILE_REFRESH_CONCURRENCY \<or>
    (\<forall>d. refresh_next_deadline s = Some d \<longrightarrow> now < d)"
proof -
  have "fst (refresh_take_due now s) = [] \<longleftrightarrow> refresh_batch now s = []"
    using refresh_start_task_ids [of "refresh_batch now s" s]
    by (metis map_is_Nil_conv refresh_take_due_batch)
  also have "\<dots> \<longleftrightarrow> length (rf_in_flight s) = PROFILE_REFRESH_CONCURRENCY \<or> refresh_due now s = []"
    using assms by (auto simp: refresh_batch_def refresh_inv_def sort_eq_Nil)
  finally show ?thesis
    by (simp only: refresh_due_empty)
qed

theorem refresh_take_due_idle_iff_witness:
  "fst (refresh_take_due 9 (refresh_upsert (ProfileId 1) 1 10 refresh_new)) = []"
proof -
  have inv: "refresh_inv (refresh_upsert (ProfileId 1) 1 10 refresh_new)"
    using refresh_pool.run_inv [of "[RefreshUpsert (ProfileId 1) 1 10]"] by simp
  have "refresh_next_deadline (refresh_upsert (ProfileId 1) 1 10 refresh_new) = Some 10"
    by code_simp
  with refresh_take_due_idle_iff [OF inv, of 9] show ?thesis by simp
qed

text \<open>Completions count once and cannot touch a profile they were not issued for: an unknown
  completion changes nothing; an accepted one frees its slot, is unknown from then on, and
  changes the schedule only if the profile still has the registration and the revision of
  the task, in which case its next refresh is one interval later.\<close>

theorem refresh_complete_once:
  assumes "refresh_inv s" "refresh_complete c s = (status, s')"
  shows "(status = RefreshUnknownTask \<longrightarrow> s' = s) \<and>
    (status \<noteq> RefreshUnknownTask \<longrightarrow>
       length (rf_in_flight s) = Suc (length (rf_in_flight s')) \<and>
       fst (refresh_complete c s') = RefreshUnknownTask) \<and>
    (\<forall>next. status = RefreshRescheduled next \<longrightarrow>
       (\<exists>e. bt_get (rf_entries s) (rt_profile_id (rc_task c)) = Some e \<and>
            re_registration_id e = rt_registration_id (rc_task c) \<and>
            re_profile_revision e = rt_profile_revision (rc_task c) \<and>
            bt_get (rf_entries s') (rt_profile_id (rc_task c)) =
              Some (e\<lparr>re_profile_revision := rc_profile_revision c, re_due_at_unix_ms := next\<rparr>)) \<and>
       unat next = min (2 ^ 64 - 1) (unat (rc_completed_at_unix_ms c) + 21600000)) \<and>
    ((\<forall>next. status \<noteq> RefreshRescheduled next) \<longrightarrow> rf_entries s' = rf_entries s)"
proof -
  define p where "p = rt_profile_id (rc_task c)"
  have wf: "bt_wf (rf_in_flight s)"
    using assms(1) by (simp add: refresh_inv_def)
  have slot: "length (rf_in_flight s) = Suc (length (bt_remove p (rf_in_flight s)))"
    if "bt_get (rf_in_flight s) p = Some f" for f
    using that length_bt_remove [OF wf, of p] by (cases "rf_in_flight s") auto
  have gone: "fst (refresh_complete c t) = RefreshUnknownTask" if "bt_get (rf_in_flight t) p = None" for t
    using that by (simp add: refresh_complete_def p_def Let_def)
  have interval: "unat (saturating_add x (duration_ms PROFILE_REFRESH_INTERVAL)) =
      min (2 ^ 64 - 1) (unat x + 21600000)" for x
    by (simp add: unat_saturating_add duration_ms_def PROFILE_REFRESH_INTERVAL_def from_secs_def)
  show ?thesis
    using refresh_complete_cases [OF assms(2)]
  proof (elim disjE exE conjE)
    fix f assume f: "bt_get (rf_in_flight s) (rt_profile_id (rc_task c)) = Some f"
    note simps = slot [unfolded p_def, OF f] gone [unfolded p_def] interval btree_simps
    show ?thesis if "status = RefreshProfileRemoved"
      "s' = s\<lparr>rf_in_flight := bt_remove (rt_profile_id (rc_task c)) (rf_in_flight s)\<rparr>"
      using that by (simp add: simps)
    show ?thesis if "status = RefreshStaleRevision"
      "s' = s\<lparr>rf_in_flight := bt_remove (rt_profile_id (rc_task c)) (rf_in_flight s)\<rparr>"
      using that by (simp add: simps)
    fix e n
    assume "bt_get (rf_entries s) (rt_profile_id (rc_task c)) = Some e"
      "re_registration_id e = rt_registration_id (rc_task c)"
      "re_profile_revision e = rt_profile_revision (rc_task c)"
      "status = RefreshRescheduled n"
      "n = saturating_add (rc_completed_at_unix_ms c) (duration_ms PROFILE_REFRESH_INTERVAL)"
      "s' = s\<lparr>rf_in_flight := bt_remove (rt_profile_id (rc_task c)) (rf_in_flight s),
           rf_entries := bt_insert (rt_profile_id (rc_task c))
             (e\<lparr>re_profile_revision := rc_profile_revision c, re_due_at_unix_ms := n\<rparr>) (rf_entries s)\<rparr>"
    then show ?thesis
      by (simp add: simps)
  qed simp
qed

theorem refresh_complete_once_witness:
  "let s = fold refresh_step [RefreshUpsert (ProfileId 1) 1 10, RefreshTakeDue 10] refresh_new;
       c = \<lparr>rc_task = \<lparr>rt_attempt_id = 1, rt_profile_id = ProfileId 1, rt_profile_revision = 1,
             rt_due_at_unix_ms = 10, rt_registration_id = 1\<rparr>, rc_profile_revision = 2, rc_completed_at_unix_ms = 20\<rparr>
   in fst (refresh_complete c s) = RefreshRescheduled 21600020 \<and>
      fst (refresh_complete c (snd (refresh_complete c s))) = RefreshUnknownTask"
proof -
  let ?s = "fold refresh_step [RefreshUpsert (ProfileId 1) 1 10, RefreshTakeDue 10] refresh_new"
  let ?c = "\<lparr>rc_task = \<lparr>rt_attempt_id = 1, rt_profile_id = ProfileId 1, rt_profile_revision = 1,
     rt_due_at_unix_ms = 10, rt_registration_id = 1\<rparr>, rc_profile_revision = 2, rc_completed_at_unix_ms = 20\<rparr>"
  have s: "rf_in_flight ?s = [(ProfileId 1, \<lparr>fr_attempt_id = 1, fr_registration_id = 1\<rparr>)]"
    "rf_entries ?s = [(ProfileId 1, \<lparr>re_profile_revision = 1, re_due_at_unix_ms = 10, re_registration_id = 1\<rparr>)]"
    by code_simp+
  have "fst (refresh_complete ?c t) = RefreshRescheduled 21600020"
    if "rf_in_flight t = [(ProfileId 1, \<lparr>fr_attempt_id = 1, fr_registration_id = 1\<rparr>)]"
      "rf_entries t = [(ProfileId 1, \<lparr>re_profile_revision = 1, re_due_at_unix_ms = 10, re_registration_id = 1\<rparr>)]" for t
    using that by (simp add: refresh_complete_def duration_ms_def PROFILE_REFRESH_INTERVAL_def from_secs_def
        saturating_add_def Let_def)
  note status = this [OF s]
  have "fst (refresh_complete ?c (snd (refresh_complete ?c ?s))) = RefreshUnknownTask"
    using refresh_complete_once [OF refresh_pool.run_inv prod.collapse [symmetric], of ?c
        "[RefreshUpsert (ProfileId 1) 1 10, RefreshTakeDue 10]"] status
    by (metis RefreshCompletionStatus.distinct(5))
  with status show ?thesis
    unfolding Let_def by (intro conjI)
qed

end
