(* ===== verification/Probe_Scheduler.thy ===== *)
theory Probe_Scheduler
  imports Complex_Main Refresh_Scheduler
begin

text \<open>
  The delay probe scheduler of the active profile (second half of \<open>src/src/scheduler.rs\<close>).

  The queue is an ordered set of deadline and node, mirrored by a map from node to
  deadline; a node is moved to the in-flight map when a probe starts and back to the queue
  when it completes.  \<open>probe_inv\<close> says that these two structures partition the active
  nodes.  The loop of \<open>take_due\<close> is \<open>probe_drain\<close>, which counts the free workers down.
  The stale ratio of the metrics is the fraction itself, not its floating point value.
\<close>

section \<open>State\<close>

type_synonym DueProbe = "u64 \<times> NodeRecordId"

record InFlightProbe =
  fp_attempt_id :: u64
  fp_generation :: ProbeGeneration

datatype ProbeOutcome = ProbeSuccess u64 | ProbeTimedOut | ProbeUnavailable

record StoredProbeSample =
  sp_outcome :: ProbeOutcome
  sp_sampled_at_unix_ms :: u64
  sp_generation :: ProbeGeneration

record ProbeTask =
  pt_attempt_id :: u64
  pt_generation :: ProbeGeneration
  pt_node_id :: NodeRecordId
  pt_due_at_unix_ms :: u64

record ProbeCompletion =
  pc_task :: ProbeTask
  pc_outcome :: ProbeOutcome
  pc_completed_at_unix_ms :: u64

datatype ProbeCompletionStatus
  = ProbeRescheduled u64
  | ProbeLateGeneration
  | ProbeUnknownTask

datatype ProbeStatus
  = StatusNotSampled | StatusQueued | StatusInFlight | StatusAvailable | StatusTimedOut | StatusUnavailable

record ProbeNodeSnapshot =
  pn_node_id :: NodeRecordId
  pn_sample :: "LatencySample option"
  pn_status :: ProbeStatus

record ProbeMetrics =
  pm_generation :: "ProbeGeneration option"
  pm_active_node_count :: nat
  pm_queue_depth :: nat
  pm_in_flight_count :: nat
  pm_overloaded :: bool
  pm_oldest_due_age_ms :: "u64 option"
  pm_estimated_full_pass_duration_ms :: u64
  pm_stale_node_count :: nat
  pm_stale_ratio :: rat

datatype ProbeResetError
  = NonIncreasingGeneration
  | NodeLimitExceeded nat nat

record ProbeScheduler =
  pb_generation :: "ProbeGeneration option"
  pb_last_generation :: "ProbeGeneration option"
  pb_active_nodes :: "NodeRecordId btree_set"
  pb_queue :: "DueProbe btree_set"
  pb_queued_deadlines :: "(NodeRecordId, u64) btree_map"
  pb_in_flight :: "(NodeRecordId, InFlightProbe) btree_map"
  pb_samples :: "(NodeRecordId, StoredProbeSample) btree_map"
  pb_next_attempt_id :: u64

section \<open>Operations\<close>

definition probe_new :: ProbeScheduler where
  "probe_new =
    \<lparr>pb_generation = None, pb_last_generation = None, pb_active_nodes = [], pb_queue = [],
     pb_queued_deadlines = [], pb_in_flight = [], pb_samples = [], pb_next_attempt_id = 1\<rparr>"

definition probe_take_attempt_id :: "ProbeScheduler \<Rightarrow> u64 \<times> ProbeScheduler" where
  "probe_take_attempt_id s =
    (pb_next_attempt_id s, s\<lparr>pb_next_attempt_id := next_nonzero (pb_next_attempt_id s)\<rparr>)"

fun collect_active_nodes :: "NodeRecordId list \<Rightarrow> NodeRecordId btree_set \<Rightarrow> ProbeResetError + NodeRecordId btree_set" where
  "collect_active_nodes [] active = Ok active"
| "collect_active_nodes (n # ns) active =
    (let active = bs_insert n active in
     if length active > MAX_ACTIVE_NODES then Err (NodeLimitExceeded MAX_ACTIVE_NODES (length active))
     else collect_active_nodes ns active)"

definition probe_enqueue :: "u64 \<Rightarrow> NodeRecordId \<Rightarrow> ProbeScheduler \<Rightarrow> ProbeScheduler" where
  "probe_enqueue due n s =
    s\<lparr>pb_queue := bs_insert (due, n) (pb_queue s),
      pb_queued_deadlines := bt_insert n due (pb_queued_deadlines s)\<rparr>"

definition probe_reset ::
  "ProbeGeneration \<Rightarrow> NodeRecordId list \<Rightarrow> u64 \<Rightarrow> ProbeScheduler \<Rightarrow> (ProbeResetError + unit) \<times> ProbeScheduler" where
  "probe_reset generation nodes now s =
    (if (case pb_last_generation s of Some current \<Rightarrow> generation \<le> current | None \<Rightarrow> False)
     then (Err NonIncreasingGeneration, s)
     else (case collect_active_nodes nodes [] of
        Inl e \<Rightarrow> (Err e, s)
      | Inr active \<Rightarrow>
          (Ok (), fold (probe_enqueue now) active
            (s\<lparr>pb_generation := Some generation, pb_last_generation := Some generation,
               pb_active_nodes := active, pb_queue := [], pb_queued_deadlines := [],
               pb_in_flight := [], pb_samples := []\<rparr>))))"

definition probe_deactivate :: "ProbeScheduler \<Rightarrow> ProbeScheduler" where
  "probe_deactivate s =
    s\<lparr>pb_generation := None, pb_active_nodes := [], pb_queue := [], pb_queued_deadlines := [],
      pb_in_flight := [], pb_samples := []\<rparr>"

definition probe_launch :: "ProbeGeneration \<Rightarrow> DueProbe \<Rightarrow> ProbeScheduler \<Rightarrow> ProbeTask \<times> ProbeScheduler" where
  "probe_launch generation entry s =
    (let s = s\<lparr>pb_queue := bs_remove entry (pb_queue s),
               pb_queued_deadlines := bt_remove (snd entry) (pb_queued_deadlines s)\<rparr>;
         (attempt_id, s) = probe_take_attempt_id s
     in (\<lparr>pt_attempt_id = attempt_id, pt_generation = generation, pt_node_id = snd entry,
          pt_due_at_unix_ms = fst entry\<rparr>,
         s\<lparr>pb_in_flight := bt_insert (snd entry)
             \<lparr>fp_attempt_id = attempt_id, fp_generation = generation\<rparr> (pb_in_flight s)\<rparr>))"

fun probe_drain :: "nat \<Rightarrow> ProbeGeneration \<Rightarrow> u64 \<Rightarrow> ProbeScheduler \<Rightarrow> ProbeTask list \<times> ProbeScheduler" where
  "probe_drain 0 generation now s = ([], s)"
| "probe_drain (Suc available) generation now s =
    (case pb_queue s of
       [] \<Rightarrow> ([], s)
     | entry # _ \<Rightarrow>
         if fst entry \<le> now then
           (let (task, s) = probe_launch generation entry s;
                (tasks, s) = probe_drain available generation now s
            in (task # tasks, s))
         else ([], s))"

definition probe_take_due :: "u64 \<Rightarrow> ProbeScheduler \<Rightarrow> ProbeTask list \<times> ProbeScheduler" where
  "probe_take_due now s =
    (case pb_generation s of
       None \<Rightarrow> ([], s)
     | Some generation \<Rightarrow> probe_drain (PROBE_WORKER_COUNT - length (pb_in_flight s)) generation now s)"

definition probe_schedule_asserts :: "NodeRecordId \<Rightarrow> ProbeScheduler \<Rightarrow> bool" where
  "probe_schedule_asserts n s = (\<not> bt_contains (pb_queued_deadlines s) n \<and> \<not> bt_contains (pb_in_flight s) n)"

definition probe_schedule :: "NodeRecordId \<Rightarrow> u64 \<Rightarrow> ProbeScheduler \<Rightarrow> ProbeScheduler" where
  "probe_schedule n due s = probe_enqueue due n s"

definition probe_record :: "ProbeCompletion \<Rightarrow> ProbeScheduler \<Rightarrow> ProbeScheduler" where
  "probe_record completion s =
    (let n = pt_node_id (pc_task completion) in
     s\<lparr>pb_in_flight := bt_remove n (pb_in_flight s),
       pb_samples := bt_insert n
         \<lparr>sp_outcome = pc_outcome completion, sp_sampled_at_unix_ms = pc_completed_at_unix_ms completion,
          sp_generation = pt_generation (pc_task completion)\<rparr> (pb_samples s)\<rparr>)"

definition probe_complete :: "ProbeCompletion \<Rightarrow> ProbeScheduler \<Rightarrow> ProbeCompletionStatus \<times> ProbeScheduler" where
  "probe_complete completion s =
    (let task = pc_task completion in
     if pb_generation s \<noteq> Some (pt_generation task) then (ProbeLateGeneration, s)
     else (case bt_get (pb_in_flight s) (pt_node_id task) of
        None \<Rightarrow> (ProbeUnknownTask, s)
      | Some in_flight \<Rightarrow>
          if fp_attempt_id in_flight \<noteq> pt_attempt_id task \<or> fp_generation in_flight \<noteq> pt_generation task
          then (ProbeUnknownTask, s)
          else
            let next = saturating_add (pc_completed_at_unix_ms completion) (duration_ms PROBE_INTERVAL)
            in (ProbeRescheduled next, probe_schedule (pt_node_id task) next (probe_record completion s))))"

definition sample_state :: "StoredProbeSample \<Rightarrow> u64 \<Rightarrow> SampleState" where
  "sample_state sample now =
    (case sp_outcome sample of
       ProbeSuccess _ \<Rightarrow>
         if saturating_sub now (sp_sampled_at_unix_ms sample) \<le> duration_ms LATENCY_FRESHNESS
         then Fresh else SampleStale
     | _ \<Rightarrow> SampleUnavailable)"

definition probe_sample :: "NodeRecordId \<Rightarrow> u64 \<Rightarrow> ProbeScheduler \<Rightarrow> LatencySample option" where
  "probe_sample n now s =
    (case bt_get (pb_samples s) n of
       None \<Rightarrow> None
     | Some stored \<Rightarrow> Some
         \<lparr>ls_node_id = n,
          ls_delay_ms = (case sp_outcome stored of ProbeSuccess d \<Rightarrow> Some d | _ \<Rightarrow> None),
          ls_sampled_at_unix_ms = Some (sp_sampled_at_unix_ms stored),
          ls_state = sample_state stored now,
          ls_probe_generation = sp_generation stored\<rparr>)"

definition probe_status :: "NodeRecordId \<Rightarrow> ProbeScheduler \<Rightarrow> ProbeStatus" where
  "probe_status n s =
    (if bt_contains (pb_in_flight s) n then StatusInFlight
     else (case map_option sp_outcome (bt_get (pb_samples s) n) of
        Some (ProbeSuccess _) \<Rightarrow> StatusAvailable
      | Some ProbeTimedOut \<Rightarrow> StatusTimedOut
      | Some ProbeUnavailable \<Rightarrow> StatusUnavailable
      | None \<Rightarrow> if bt_contains (pb_queued_deadlines s) n then StatusQueued else StatusNotSampled))"

definition probe_node_snapshot :: "NodeRecordId \<Rightarrow> u64 \<Rightarrow> ProbeScheduler \<Rightarrow> ProbeNodeSnapshot option" where
  "probe_node_snapshot n now s =
    (if n \<in> set (pb_active_nodes s)
     then Some \<lparr>pn_node_id = n, pn_sample = probe_sample n now s, pn_status = probe_status n s\<rparr>
     else None)"

definition batches :: "nat \<Rightarrow> nat \<Rightarrow> u64" where
  "batches item_count worker_count =
    (let b = (item_count + worker_count - 1) div worker_count in if b < 2 ^ 64 then of_nat b else - 1)"

definition saturating_mul :: "u64 \<Rightarrow> u64 \<Rightarrow> u64" where
  "saturating_mul a b = (if unat a * unat b < 2 ^ 64 then a * b else - 1)"

definition probe_metrics :: "u64 \<Rightarrow> ProbeScheduler \<Rightarrow> ProbeMetrics" where
  "probe_metrics now s =
    (let active_node_count = length (pb_active_nodes s);
         oldest_due_age_ms = (case pb_queue s of [] \<Rightarrow> None | entry # _ \<Rightarrow> Some (saturating_sub now (fst entry)));
         estimated = saturating_mul (batches active_node_count PROBE_WORKER_COUNT) (duration_ms PROBE_TIMEOUT);
         stale_count = length (filter (\<lambda>n. case bt_get (pb_samples s) n of
             None \<Rightarrow> True | Some sample \<Rightarrow> sample_state sample now \<noteq> Fresh) (pb_active_nodes s));
         freshness_ms = duration_ms LATENCY_FRESHNESS
     in \<lparr>pm_generation = pb_generation s,
         pm_active_node_count = active_node_count,
         pm_queue_depth = length (pb_queue s),
         pm_in_flight_count = length (pb_in_flight s),
         pm_overloaded = (active_node_count > 0 \<and>
           (estimated > freshness_ms \<or> (case oldest_due_age_ms of None \<Rightarrow> False | Some age \<Rightarrow> age > freshness_ms))),
         pm_oldest_due_age_ms = oldest_due_age_ms,
         pm_estimated_full_pass_duration_ms = estimated,
         pm_stale_node_count = stale_count,
         pm_stale_ratio = (if active_node_count = 0 then 0
           else Fract (int stale_count) (int active_node_count))\<rparr>)"

section \<open>Invariant\<close>

definition probe_queue_inv :: "ProbeScheduler \<Rightarrow> bool" where
  "probe_queue_inv s =
    (bs_wf (pb_queue s) \<and> bt_wf (pb_queued_deadlines s) \<and>
     (\<forall>d n. (d, n) \<in> set (pb_queue s) \<longleftrightarrow> bt_get (pb_queued_deadlines s) n = Some d))"

definition probe_inv :: "ProbeScheduler \<Rightarrow> bool" where
  "probe_inv s =
    (probe_queue_inv s \<and> bs_wf (pb_active_nodes s) \<and> bt_wf (pb_in_flight s) \<and>
     length (pb_active_nodes s) \<le> MAX_ACTIVE_NODES \<and>
     length (pb_in_flight s) \<le> PROBE_WORKER_COUNT \<and>
     set (pb_active_nodes s) = dom (bt_get (pb_queued_deadlines s)) \<union> dom (bt_get (pb_in_flight s)) \<and>
     dom (bt_get (pb_queued_deadlines s)) \<inter> dom (bt_get (pb_in_flight s)) = {} \<and>
     dom (bt_get (pb_samples s)) \<subseteq> set (pb_active_nodes s) \<and>
     (\<forall>n f. bt_get (pb_in_flight s) n = Some f \<longrightarrow> pb_generation s = Some (fp_generation f)) \<and>
     (\<forall>n p. bt_get (pb_samples s) n = Some p \<longrightarrow> pb_generation s = Some (sp_generation p)) \<and>
     (\<forall>g. pb_generation s = Some g \<longrightarrow> pb_last_generation s = Some g))"

datatype ProbeOp
  = ProbeReset ProbeGeneration "NodeRecordId list" u64
  | ProbeDeactivate
  | ProbeTakeDue u64
  | ProbeComplete ProbeCompletion

fun probe_step :: "ProbeOp \<Rightarrow> ProbeScheduler \<Rightarrow> ProbeScheduler" where
  "probe_step (ProbeReset g nodes now) s = snd (probe_reset g nodes now s)"
| "probe_step ProbeDeactivate s = probe_deactivate s"
| "probe_step (ProbeTakeDue now) s = snd (probe_take_due now s)"
| "probe_step (ProbeComplete c) s = snd (probe_complete c s)"

section \<open>The queue\<close>

lemma bs_remove_head: "bs_wf (x # q) \<Longrightarrow> bs_remove x (x # q) = q"
  by (auto simp: bs_wf_def bs_remove_def filter_id_conv)

lemma bs_wf_tl: "bs_wf (x # q) \<Longrightarrow> bs_wf q"
  by (simp add: bs_wf_def)

lemma probe_enqueue_simps [simp]:
  "pb_generation (probe_enqueue d n s) = pb_generation s"
  "pb_last_generation (probe_enqueue d n s) = pb_last_generation s"
  "pb_active_nodes (probe_enqueue d n s) = pb_active_nodes s"
  "pb_in_flight (probe_enqueue d n s) = pb_in_flight s"
  "pb_samples (probe_enqueue d n s) = pb_samples s"
  "pb_next_attempt_id (probe_enqueue d n s) = pb_next_attempt_id s"
  "bt_get (pb_queued_deadlines (probe_enqueue d n s)) = (bt_get (pb_queued_deadlines s))(n \<mapsto> d)"
  by (simp_all add: probe_enqueue_def btree_simps)

lemma probe_enqueue_queue_inv:
  "probe_queue_inv s \<Longrightarrow> bt_get (pb_queued_deadlines s) n = None \<Longrightarrow> probe_queue_inv (probe_enqueue d n s)"
  by (auto simp: probe_queue_inv_def probe_enqueue_def btree_simps split: if_splits)

lemma fold_enqueue_simps [simp]:
  "pb_generation (fold (probe_enqueue d) ns s) = pb_generation s"
  "pb_last_generation (fold (probe_enqueue d) ns s) = pb_last_generation s"
  "pb_active_nodes (fold (probe_enqueue d) ns s) = pb_active_nodes s"
  "pb_in_flight (fold (probe_enqueue d) ns s) = pb_in_flight s"
  "pb_samples (fold (probe_enqueue d) ns s) = pb_samples s"
  "pb_next_attempt_id (fold (probe_enqueue d) ns s) = pb_next_attempt_id s"
  by (induction ns arbitrary: s) simp_all

lemma fold_enqueue_queued:
  "dom (bt_get (pb_queued_deadlines (fold (probe_enqueue d) ns s))) =
    dom (bt_get (pb_queued_deadlines s)) \<union> set ns"
  by (induction ns arbitrary: s) auto

lemma fold_enqueue_queue_inv:
  "distinct ns \<Longrightarrow> probe_queue_inv s \<Longrightarrow> set ns \<inter> dom (bt_get (pb_queued_deadlines s)) = {} \<Longrightarrow>
    probe_queue_inv (fold (probe_enqueue d) ns s)"
proof (induction ns arbitrary: s)
  case (Cons n ns)
  have "probe_queue_inv (probe_enqueue d n s)"
    using Cons.prems by (intro probe_enqueue_queue_inv) auto
  moreover have "set ns \<inter> dom (bt_get (pb_queued_deadlines (probe_enqueue d n s))) = {}"
    using Cons.prems by auto
  ultimately show ?case
    using Cons.IH Cons.prems(1) by simp
qed simp

lemma collect_active_nodes_Ok:
  "collect_active_nodes ns acc = Ok active \<Longrightarrow> bs_wf acc \<Longrightarrow> length acc \<le> MAX_ACTIVE_NODES \<Longrightarrow>
    bs_wf active \<and> set active = set acc \<union> set ns \<and> length active \<le> MAX_ACTIVE_NODES"
proof (induction ns arbitrary: acc)
  case (Cons n ns)
  then have "collect_active_nodes ns (bs_insert n acc) = Ok active" "length (bs_insert n acc) \<le> MAX_ACTIVE_NODES"
    by (auto simp: Let_def split: if_splits)
  with Cons show ?case
    by (simp add: btree_simps)
qed simp

section \<open>The operations keep the invariant\<close>

lemma probe_reset_inv:
  assumes "probe_inv s"
  shows "probe_inv (snd (probe_reset g nodes now s))"
proof (cases "fst (probe_reset g nodes now s)")
  case (Inl e)
  then have "snd (probe_reset g nodes now s) = s"
    by (auto simp: probe_reset_def split: if_splits sum.splits)
  with assms show ?thesis by simp
next
  case (Inr u)
  define t where "t active = s\<lparr>pb_generation := Some g, pb_last_generation := Some g, pb_active_nodes := active,
    pb_queue := [], pb_queued_deadlines := [], pb_in_flight := [], pb_samples := []\<rparr>" for active
  from Inr obtain active where active: "collect_active_nodes nodes [] = Ok active"
    and s': "snd (probe_reset g nodes now s) = fold (probe_enqueue now) active (t active)"
    unfolding probe_reset_def t_def by (auto split: if_splits sum.splits)
  have wf: "bs_wf active" "length active \<le> MAX_ACTIVE_NODES"
    using collect_active_nodes_Ok [OF active] by (simp_all add: bs_wf_def)
  have empty: "probe_queue_inv (t active)" "dom (bt_get (pb_queued_deadlines (t active))) = {}"
    by (simp_all add: t_def probe_queue_inv_def bs_wf_def)
  have "probe_queue_inv (fold (probe_enqueue now) active (t active))"
    using wf(1) empty by (intro fold_enqueue_queue_inv) (auto simp: bs_wf_def strict_sorted_iff)
  with wf empty show ?thesis
    unfolding s' probe_inv_def by (simp add: fold_enqueue_queued) (simp add: t_def)
qed

lemma probe_deactivate_inv: "probe_inv (probe_deactivate s)"
  by (simp add: probe_deactivate_def probe_inv_def probe_queue_inv_def bs_wf_def)

lemma probe_launch_simps [simp]:
  "pb_generation (snd (probe_launch g e s)) = pb_generation s"
  "pb_last_generation (snd (probe_launch g e s)) = pb_last_generation s"
  "pb_active_nodes (snd (probe_launch g e s)) = pb_active_nodes s"
  "pb_samples (snd (probe_launch g e s)) = pb_samples s"
  "pb_queue (snd (probe_launch g e s)) = bs_remove e (pb_queue s)"
  "pb_queued_deadlines (snd (probe_launch g e s)) = bt_remove (snd e) (pb_queued_deadlines s)"
  "pb_in_flight (snd (probe_launch g e s)) =
     bt_insert (snd e) \<lparr>fp_attempt_id = pb_next_attempt_id s, fp_generation = g\<rparr> (pb_in_flight s)"
  "fst (probe_launch g e s) =
     \<lparr>pt_attempt_id = pb_next_attempt_id s, pt_generation = g, pt_node_id = snd e, pt_due_at_unix_ms = fst e\<rparr>"
  by (simp_all add: probe_launch_def probe_take_attempt_id_def)

lemma probe_launch_queue_inv:
  "probe_queue_inv s \<Longrightarrow> e \<in> set (pb_queue s) \<Longrightarrow> probe_queue_inv (snd (probe_launch g e s))"
  by (cases e) (auto simp: probe_queue_inv_def btree_simps)

lemma probe_launch_inv:
  assumes inv: "probe_inv s" and queue: "e \<in> set (pb_queue s)" and gen: "pb_generation s = Some g"
    and free: "length (pb_in_flight s) < PROBE_WORKER_COUNT"
  shows "probe_inv (snd (probe_launch g e s))"
    and "length (pb_in_flight (snd (probe_launch g e s))) = Suc (length (pb_in_flight s))"
proof -
  have q: "bt_get (pb_queued_deadlines s) (snd e) = Some (fst e)"
    using inv queue by (cases e) (auto simp: probe_inv_def probe_queue_inv_def)
  then have none: "bt_get (pb_in_flight s) (snd e) = None"
    using inv by (auto simp: probe_inv_def)
  show len: "length (pb_in_flight (snd (probe_launch g e s))) = Suc (length (pb_in_flight s))"
    using inv none by (simp add: probe_inv_def length_bt_insert)
  have "set (pb_active_nodes s) = (dom (bt_get (pb_queued_deadlines s)) - {snd e}) \<union>
      insert (snd e) (dom (bt_get (pb_in_flight s)))"
    using inv q by (auto simp: probe_inv_def)
  moreover have "probe_queue_inv (snd (probe_launch g e s))"
    using inv queue by (intro probe_launch_queue_inv) (simp_all add: probe_inv_def)
  ultimately show "probe_inv (snd (probe_launch g e s))"
    using inv gen free len unfolding probe_inv_def
    by (simp add: btree_simps del: length_bt_keys) auto
qed

declare probe_drain.simps(2) [simp del]

lemma probe_drain_inv:
  "probe_inv s \<Longrightarrow> pb_generation s = Some g \<Longrightarrow> k + length (pb_in_flight s) \<le> PROBE_WORKER_COUNT \<Longrightarrow>
    probe_inv (snd (probe_drain k g now s))"
proof (induction k arbitrary: s)
  case (Suc k)
  show ?case
  proof (cases "pb_queue s")
    case Nil
    with Suc show ?thesis by (simp add: probe_drain.simps)
  next
    case (Cons e q)
    have launch: "probe_inv (snd (probe_launch g e s))"
      "length (pb_in_flight (snd (probe_launch g e s))) = Suc (length (pb_in_flight s))"
      using probe_launch_inv [OF Suc.prems(1) _ Suc.prems(2), of e] Suc.prems(3) Cons by auto
    have "probe_inv (snd (probe_drain k g now (snd (probe_launch g e s))))"
      using launch Suc.prems by (intro Suc.IH) simp_all
    with Suc.prems(1) Cons show ?thesis
      by (simp add: probe_drain.simps case_prod_unfold Let_def)
  qed
qed simp

lemma probe_take_due_inv: "probe_inv s \<Longrightarrow> probe_inv (snd (probe_take_due now s))"
  by (auto simp: probe_take_due_def probe_inv_def [of s] split: option.splits intro!: probe_drain_inv)

lemma probe_record_simps [simp]:
  "pb_generation (probe_record c s) = pb_generation s"
  "pb_last_generation (probe_record c s) = pb_last_generation s"
  "pb_active_nodes (probe_record c s) = pb_active_nodes s"
  "pb_queue (probe_record c s) = pb_queue s"
  "pb_queued_deadlines (probe_record c s) = pb_queued_deadlines s"
  "pb_in_flight (probe_record c s) = bt_remove (pt_node_id (pc_task c)) (pb_in_flight s)"
  "bt_get (pb_samples (probe_record c s)) = (bt_get (pb_samples s))(pt_node_id (pc_task c) \<mapsto>
     \<lparr>sp_outcome = pc_outcome c, sp_sampled_at_unix_ms = pc_completed_at_unix_ms c,
      sp_generation = pt_generation (pc_task c)\<rparr>)"
  by (simp_all add: probe_record_def Let_def btree_simps)

lemma probe_complete_accepted:
  assumes inv: "probe_inv s" and gen: "pb_generation s = Some (pt_generation (pc_task c))"
    and flying: "bt_get (pb_in_flight s) (pt_node_id (pc_task c)) = Some f"
  shows "probe_schedule_asserts (pt_node_id (pc_task c)) (probe_record c s)"
    and "probe_inv (probe_schedule (pt_node_id (pc_task c)) d (probe_record c s))"
proof -
  let ?n = "pt_node_id (pc_task c)"
  let ?t = "probe_schedule ?n d (probe_record c s)"
  have none: "bt_get (pb_queued_deadlines s) ?n = None"
    using inv flying by (auto simp: probe_inv_def)
  then show "probe_schedule_asserts ?n (probe_record c s)"
    by (simp add: probe_schedule_asserts_def bt_contains_def btree_simps)
  have "probe_queue_inv (probe_record c s)"
    using inv by (simp add: probe_inv_def probe_queue_inv_def)
  then have "probe_queue_inv ?t"
    unfolding probe_schedule_def using none by (intro probe_enqueue_queue_inv) simp_all
  moreover have "length (bt_remove ?n (pb_in_flight s)) \<le> length (pb_in_flight s)"
    by (simp add: bt_remove_def)
  moreover have "?n \<in> set (pb_active_nodes s)"
    using inv flying by (auto simp: probe_inv_def)
  ultimately show "probe_inv ?t"
    using inv gen unfolding probe_inv_def probe_schedule_def
    by (simp add: btree_simps) auto
qed

lemma probe_complete_cases:
  assumes "probe_complete c s = (status, s')"
  shows "(status = ProbeLateGeneration \<and> s' = s \<and> pb_generation s \<noteq> Some (pt_generation (pc_task c))) \<or>
    (status = ProbeUnknownTask \<and> s' = s) \<or>
    (\<exists>f. pb_generation s = Some (pt_generation (pc_task c)) \<and>
       bt_get (pb_in_flight s) (pt_node_id (pc_task c)) = Some f \<and>
       fp_attempt_id f = pt_attempt_id (pc_task c) \<and>
       status = ProbeRescheduled (saturating_add (pc_completed_at_unix_ms c) (duration_ms PROBE_INTERVAL)) \<and>
       s' = probe_schedule (pt_node_id (pc_task c))
         (saturating_add (pc_completed_at_unix_ms c) (duration_ms PROBE_INTERVAL)) (probe_record c s))"
  using assms by (auto simp: probe_complete_def Let_def split: if_splits option.splits)

lemma probe_complete_inv: "probe_inv s \<Longrightarrow> probe_inv (snd (probe_complete c s))"
  using probe_complete_cases [of c s "fst (probe_complete c s)" "snd (probe_complete c s)"]
    probe_complete_accepted(2) [of s c]
  by auto

interpretation probe_pool: worker_pool probe_new probe_step probe_inv
  "\<lambda>s. length (pb_in_flight s)" PROBE_WORKER_COUNT
proof unfold_locales
  show "probe_inv probe_new"
    by (simp add: probe_inv_def probe_queue_inv_def probe_new_def bs_wf_def)
  show "probe_inv (probe_step op s)" if "probe_inv s" for op s
    using that
    by (cases op) (simp_all add: probe_reset_inv probe_deactivate_inv probe_take_due_inv probe_complete_inv)
  show "length (pb_in_flight s) \<le> PROBE_WORKER_COUNT" if "probe_inv s" for s
    using that by (simp add: probe_inv_def)
qed

section \<open>Generations\<close>

text \<open>The newest generation that was ever started; it survives deactivation and never goes down.\<close>

definition generation_stamp :: "ProbeScheduler \<Rightarrow> nat" where
  "generation_stamp s = (case pb_last_generation s of None \<Rightarrow> 0 | Some g \<Rightarrow> Suc (unat g))"

lemma probe_drain_generation [simp]:
  "pb_generation (snd (probe_drain n g now s)) = pb_generation s"
  "pb_last_generation (snd (probe_drain n g now s)) = pb_last_generation s"
  by (induction n arbitrary: s) (auto simp: split_def Let_def probe_drain.simps split: list.split)

lemma probe_drain_tasks: "task \<in> set (fst (probe_drain n g now s)) \<Longrightarrow> pt_generation task = g"
  by (induction n arbitrary: s)
    (auto simp: split_def Let_def probe_drain.simps probe_launch_def probe_take_attempt_id_def split: list.splits if_splits)

lemma probe_take_due_tasks: "task \<in> set (fst (probe_take_due now s)) \<Longrightarrow> pb_generation s = Some (pt_generation task)"
  by (auto simp: probe_take_due_def split: option.splits dest: probe_drain_tasks)

lemma probe_reset_stamp: "generation_stamp s \<le> generation_stamp (snd (probe_reset g nodes now s))"
  by (auto simp: probe_reset_def generation_stamp_def word_le_nat_alt split: sum.split option.split)

interpretation probe_generations: stamped_machine probe_new probe_step probe_inv generation_stamp
proof
  show "generation_stamp s \<le> generation_stamp (probe_step op s)" if "probe_inv s" for op s
  proof (cases op)
    case (ProbeComplete c)
    then show ?thesis
      using probe_complete_cases [of c s "fst (probe_complete c s)" "snd (probe_complete c s)"]
      by (auto simp: generation_stamp_def probe_schedule_def)
  next
    case (ProbeReset g nodes now)
    then show ?thesis by (simp add: probe_reset_stamp)
  qed (simp_all add: generation_stamp_def probe_deactivate_def probe_take_due_def split: option.split)
qed

lemma stamp_of_current: "probe_inv s \<Longrightarrow> pb_generation s = Some h \<Longrightarrow> generation_stamp s = Suc (unat h)"
  by (simp add: probe_inv_def generation_stamp_def)

text \<open>Once a newer generation has been started, completions of an older one are late for ever.\<close>

lemma older_is_late:
  assumes "probe_inv s" "Suc (unat (pt_generation (pc_task c))) < generation_stamp s"
  shows "probe_complete c (fold probe_step later s) = (ProbeLateGeneration, fold probe_step later s)"
proof -
  have "probe_inv (fold probe_step later s)" "generation_stamp s \<le> generation_stamp (fold probe_step later s)"
    using assms(1) probe_pool.run_from probe_generations.run_stamp by auto
  then have "pb_generation (fold probe_step later s) \<noteq> Some (pt_generation (pc_task c))"
    using assms(2) stamp_of_current by fastforce
  then show ?thesis by (simp add: probe_complete_def)
qed

lemma probe_reset_fresh:
  assumes "probe_reset g nodes now s = (Ok (), s')"
  shows "(\<forall>l. pb_last_generation s = Some l \<longrightarrow> l < g) \<and> card (set nodes) \<le> MAX_ACTIVE_NODES \<and>
    set (pb_active_nodes s') = set nodes \<and> dom (bt_get (pb_queued_deadlines s')) = set nodes \<and>
    pb_in_flight s' = [] \<and> pb_samples s' = [] \<and> pb_generation s' = Some g \<and> pb_last_generation s' = Some g"
proof -
  define t where "t active = s\<lparr>pb_generation := Some g, pb_last_generation := Some g, pb_active_nodes := active,
    pb_queue := [], pb_queued_deadlines := [], pb_in_flight := [], pb_samples := []\<rparr>" for active
  from assms obtain active where active: "collect_active_nodes nodes [] = Ok active"
    and s': "s' = fold (probe_enqueue now) active (t active)"
    and last: "\<forall>l. pb_last_generation s = Some l \<longrightarrow> l < g"
    unfolding probe_reset_def t_def by (auto split: if_splits sum.splits option.splits)
  have nodes: "set active = set nodes" "length active \<le> MAX_ACTIVE_NODES" "distinct active"
    using collect_active_nodes_Ok [OF active] by (simp_all add: bs_wf_def strict_sorted_iff)
  then have "card (set nodes) \<le> MAX_ACTIVE_NODES"
    using distinct_card [OF nodes(3)] by simp
  moreover have "dom (bt_get (pb_queued_deadlines s')) = set nodes"
    using nodes(1) fold_enqueue_queued [of now active "t active"] by (simp add: s' t_def)
  ultimately show ?thesis using last nodes(1) by (simp add: s' t_def)
qed

section \<open>Counting and draining\<close>

lemma probe_queue_length:
  assumes "probe_queue_inv s"
  shows "length (pb_queue s) = card (dom (bt_get (pb_queued_deadlines s)))"
proof -
  have "distinct (pb_queue s)"
    using assms by (simp add: probe_queue_inv_def bs_wf_def strict_sorted_iff)
  then have "length (pb_queue s) = card (set (pb_queue s))"
    by (simp add: distinct_card)
  also have "\<dots> = card (snd ` set (pb_queue s))"
    using assms by (intro card_image [symmetric] inj_onI) (auto simp: probe_queue_inv_def prod_eq_iff)
  also have "snd ` set (pb_queue s) = dom (bt_get (pb_queued_deadlines s))"
    using assms by (force simp: probe_queue_inv_def)
  finally show ?thesis .
qed

lemma probe_counts:
  assumes "probe_inv s"
  shows "length (pb_queue s) + length (pb_in_flight s) = length (pb_active_nodes s)"
proof -
  have "distinct (pb_active_nodes s)"
    using assms by (simp add: probe_inv_def bs_wf_def strict_sorted_iff)
  then have "length (pb_active_nodes s) = card (set (pb_active_nodes s))"
    by (simp add: distinct_card)
  also have "\<dots> = card (dom (bt_get (pb_queued_deadlines s))) + card (dom (bt_get (pb_in_flight s)))"
    using assms by (simp add: probe_inv_def card_Un_disjoint bt.finite_dom)
  also have "card (dom (bt_get (pb_in_flight s))) = length (pb_in_flight s)"
    using assms bt.length_keys [of "pb_in_flight s"] by (simp add: probe_inv_def)
  finally show ?thesis
    using assms probe_queue_length [of s] by (simp add: probe_inv_def)
qed

lemma probe_drain_prefix:
  "bs_wf (pb_queue s) \<Longrightarrow>
    (let m = min k (length (takeWhile (\<lambda>e. fst e \<le> now) (pb_queue s)))
     in map (\<lambda>t. (pt_due_at_unix_ms t, pt_node_id t)) (fst (probe_drain k g now s)) = take m (pb_queue s) \<and>
        pb_queue (snd (probe_drain k g now s)) = drop m (pb_queue s)) \<and>
     list_all (\<lambda>t. pt_generation t = g) (fst (probe_drain k g now s))"
proof (induction k arbitrary: s)
  case (Suc k)
  show ?case
  proof (cases "pb_queue s")
    case Nil
    then show ?thesis by (simp add: probe_drain.simps)
  next
    case (Cons e q)
    have launched: "pb_queue (snd (probe_launch g e s)) = q"
      using Suc.prems Cons by (simp add: bs_remove_head)
    have "bs_wf (pb_queue (snd (probe_launch g e s)))"
      using Suc.prems Cons by (metis bs_wf_tl launched)
    from Suc.IH [OF this] show ?thesis
      unfolding launched by (simp add: Cons probe_drain.simps case_prod_unfold Let_def)
  qed
qed simp

lemma takeWhile_due:
  assumes "bs_wf (q :: DueProbe list)"
  shows "takeWhile (\<lambda>e. fst e \<le> now) q = filter (\<lambda>e. fst e \<le> now) q"
  using assms
proof (induction q)
  case (Cons e q)
  show ?case
  proof (cases "fst e \<le> now")
    case False
    have "\<not> fst x \<le> now" if "x \<in> set q" for x
      using Cons.prems that False by (fastforce simp: bs_wf_def less_prod_def)
    then have "filter (\<lambda>e. fst e \<le> now) q = []"
      by (simp add: filter_empty_conv)
    with False show ?thesis by simp
  qed (use Cons in \<open>simp add: bs_wf_def\<close>)
qed simp

lemma estimated_full_pass:
  assumes "n \<le> MAX_ACTIVE_NODES"
  shows "unat (saturating_mul (batches n PROBE_WORKER_COUNT) (duration_ms PROBE_TIMEOUT)) = (n + 15) div 16 * 5000"
proof -
  define k where "k = (15 + n) div 16"
  have less: "k \<le> 1000"
    using assms by (simp add: k_def MAX_ACTIVE_NODES_def)
  have "batches n PROBE_WORKER_COUNT = of_nat k"
    using less unfolding batches_def PROBE_WORKER_COUNT_def k_def Let_def
    by simp
  then have b: "unat (batches n PROBE_WORKER_COUNT) = k"
    using less by (simp add: unsigned_of_nat take_bit_nat_eq_self)
  have d: "unat (duration_ms PROBE_TIMEOUT) = 5000"
    by (simp add: duration_ms_def PROBE_TIMEOUT_def from_secs_def)
  have "k * 5000 < 2 ^ 64"
    using less by simp
  then show ?thesis
    unfolding saturating_mul_def b d add.commute [of n] k_def [symmetric] by (simp add: unat_word_ariths b d)
qed

section \<open>Properties\<close>

text \<open>C17. No active node is lost or probed twice: from the empty scheduler, after any sequence of
  resets, deactivations, polls and completions, queue and in-flight map partition the active
  nodes, the queue and its deadline index agree, at most sixteen probes run, and the node
  limit holds.\<close>

theorem probe_partition:
  "let s = fold probe_step ops probe_new in
   set (pb_active_nodes s) = dom (bt_get (pb_queued_deadlines s)) \<union> dom (bt_get (pb_in_flight s)) \<and>
   dom (bt_get (pb_queued_deadlines s)) \<inter> dom (bt_get (pb_in_flight s)) = {} \<and>
   set (pb_queue s) = {(d, n). bt_get (pb_queued_deadlines s) n = Some d} \<and>
   length (pb_queue s) + length (pb_in_flight s) = length (pb_active_nodes s) \<and>
   length (pb_in_flight s) \<le> PROBE_WORKER_COUNT \<and> length (pb_active_nodes s) \<le> MAX_ACTIVE_NODES"
  using probe_pool.run_inv [of ops] probe_counts [OF probe_pool.run_inv [of ops]]
  by (auto simp: Let_def probe_inv_def probe_queue_inv_def)

text \<open>A poll starts the most overdue probes: it takes the first entries of the deadline-ordered
  queue, as many as there are free workers and due entries, and leaves the rest of the queue.\<close>

theorem probe_take_due_prefix:
  assumes "probe_inv s" "pb_generation s = Some g" "probe_take_due now s = (tasks, s')"
  shows "let m = min (PROBE_WORKER_COUNT - length (pb_in_flight s))
                     (length (filter (\<lambda>e. fst e \<le> now) (pb_queue s)))
    in map (\<lambda>t. (pt_due_at_unix_ms t, pt_node_id t)) tasks = take m (pb_queue s) \<and>
       pb_queue s' = drop m (pb_queue s) \<and> sorted_wrt (<) (pb_queue s) \<and>
       list_all (\<lambda>t. pt_generation t = g) tasks"
proof -
  have wf: "bs_wf (pb_queue s)"
    using assms(1) by (simp add: probe_inv_def probe_queue_inv_def)
  have "probe_drain (PROBE_WORKER_COUNT - length (pb_in_flight s)) g now s = (tasks, s')"
    using assms(2,3) by (simp add: probe_take_due_def)
  with probe_drain_prefix [OF wf, of "PROBE_WORKER_COUNT - length (pb_in_flight s)" now g] wf show ?thesis
    by (simp add: Let_def takeWhile_due bs_wf_def)
qed

theorem probe_take_due_prefix_witness:
  "let s = fold probe_step [ProbeReset 1 [NodeRecordId ''b'', NodeRecordId ''a''] 5] probe_new
   in map pt_node_id (fst (probe_take_due 7 s)) = [NodeRecordId ''a'', NodeRecordId ''b'']"
proof -
  define t where "t = fold probe_step [ProbeReset 1 [NodeRecordId ''b'', NodeRecordId ''a''] 5] probe_new"
  have t: "pb_generation t = Some 1" "pb_queue t = [(5, NodeRecordId ''a''), (5, NodeRecordId ''b'')]"
    "pb_in_flight t = []"
    by (simp_all add: t_def probe_reset_def probe_new_def MAX_ACTIVE_NODES_def bs_insert_def probe_enqueue_def
        bt_insert_def less_NodeRecordId_def less_prod_def less_char_def Let_def)
  have "probe_inv t"
    unfolding t_def by (rule probe_pool.run_inv)
  from probe_take_due_prefix [OF this t(1) prod.collapse [symmetric], of 7]
  have "map (\<lambda>t. (pt_due_at_unix_ms t, pt_node_id t)) (fst (probe_take_due 7 t)) =
      [(5, NodeRecordId ''a''), (5, NodeRecordId ''b'')]"
    by (simp add: t PROBE_WORKER_COUNT_def Let_def)
  then have "map snd (map (\<lambda>t. (pt_due_at_unix_ms t, pt_node_id t)) (fst (probe_take_due 7 t))) =
      [NodeRecordId ''a'', NodeRecordId ''b'']"
    by simp
  then show ?thesis
    unfolding Let_def t_def [symmetric] by (simp add: comp_def)
qed

text \<open>C21. Completions move a node back to the queue exactly once: a completion that is late or
  unknown changes nothing; an accepted one meets the scheduler's debug assertions, puts the
  node back with a deadline one interval later and records the sample, and the same
  completion is unknown afterwards.\<close>

theorem probe_complete_exactly_once:
  assumes "probe_inv s" "probe_complete c s = (status, s')"
  defines "n \<equiv> pt_node_id (pc_task c)"
  shows "(pb_generation s \<noteq> Some (pt_generation (pc_task c)) \<longrightarrow> status = ProbeLateGeneration) \<and>
    ((status = ProbeLateGeneration \<or> status = ProbeUnknownTask) \<longrightarrow> s' = s) \<and>
    (\<forall>next. status = ProbeRescheduled next \<longrightarrow>
       probe_schedule_asserts n (probe_record c s) \<and>
       bt_get (pb_in_flight s) n \<noteq> None \<and> bt_get (pb_in_flight s') n = None \<and>
       bt_get (pb_queued_deadlines s') n = Some next \<and>
       unat next = min (2 ^ 64 - 1) (unat (pc_completed_at_unix_ms c) + 300000) \<and>
       bt_get (pb_samples s') n = Some \<lparr>sp_outcome = pc_outcome c,
         sp_sampled_at_unix_ms = pc_completed_at_unix_ms c, sp_generation = pt_generation (pc_task c)\<rparr> \<and>
       fst (probe_complete c s') = ProbeUnknownTask)"
  using probe_complete_cases [OF assms(2)]
proof (elim disjE exE conjE)
  assume "status = ProbeLateGeneration" "s' = s"
  then show ?thesis by simp
next
  assume unknown: "status = ProbeUnknownTask" "s' = s"
  then have "pb_generation s = Some (pt_generation (pc_task c))"
    using assms(2) by (auto simp: probe_complete_def Let_def split: if_splits)
  with unknown show ?thesis by simp
next
  fix f
  let ?next = "saturating_add (pc_completed_at_unix_ms c) (duration_ms PROBE_INTERVAL)"
  assume gen: "pb_generation s = Some (pt_generation (pc_task c))"
    and flying: "bt_get (pb_in_flight s) (pt_node_id (pc_task c)) = Some f"
    and status: "status = ProbeRescheduled ?next"
    and s': "s' = probe_schedule (pt_node_id (pc_task c)) ?next (probe_record c s)"
  have "unat ?next = min (2 ^ 64 - 1) (unat (pc_completed_at_unix_ms c) + 300000)"
    by (simp add: unat_saturating_add duration_ms_def PROBE_INTERVAL_def from_secs_def)
  moreover have "fst (probe_complete c s') = ProbeUnknownTask"
    by (simp add: s' probe_schedule_def probe_complete_def gen btree_simps Let_def)
  ultimately show ?thesis
    using probe_complete_accepted(1) [OF assms(1) gen flying] flying
    by (simp add: status gen n_def s' probe_schedule_def btree_simps)
qed

theorem probe_complete_exactly_once_witness:
  "let s = fold probe_step [ProbeReset 1 [NodeRecordId ''a''] 5] probe_new;
       c = \<lparr>pc_task = \<lparr>pt_attempt_id = 9, pt_generation = 2, pt_node_id = NodeRecordId ''a'', pt_due_at_unix_ms = 5\<rparr>,
            pc_outcome = ProbeTimedOut, pc_completed_at_unix_ms = 8\<rparr>
   in probe_complete c s = (ProbeLateGeneration, s)"
proof -
  define t where "t = fold probe_step [ProbeReset 1 [NodeRecordId ''a''] 5] probe_new"
  let ?c = "\<lparr>pc_task = \<lparr>pt_attempt_id = 9, pt_generation = 2, pt_node_id = NodeRecordId ''a'', pt_due_at_unix_ms = 5\<rparr>,
            pc_outcome = ProbeTimedOut, pc_completed_at_unix_ms = 8\<rparr>"
  have "pb_generation t = Some 1"
    by (simp add: t_def probe_reset_def probe_new_def MAX_ACTIVE_NODES_def bs_insert_def probe_enqueue_def
        bt_insert_def Let_def)
  moreover have "probe_inv t"
    unfolding t_def by (rule probe_pool.run_inv)
  ultimately have "fst (probe_complete ?c t) = ProbeLateGeneration \<and> snd (probe_complete ?c t) = t"
    using probe_complete_exactly_once [OF _ prod.collapse [symmetric], of t ?c] by simp
  then show ?thesis
    unfolding Let_def t_def [symmetric] by (simp add: prod_eq_iff)
qed

text \<open>C22. A reset starts a clean generation.  Let any operations, deactivation among them, lead from a consistent
  state s to t, and reset there.  A rejected reset changes nothing.  A reset that succeeds has a generation above
  that of s and above the newest one ever started, and at most ten thousand distinct nodes; exactly these are active, all queued,
  nothing is in flight or sampled.  Every probe that was in flight in s or is issued there is late from then on,
  whatever operations follow.\<close>

theorem probe_reset_isolates:
  assumes "probe_inv s" "t = fold probe_step between s" "probe_reset g nodes now t = (result, t')"
  shows "(\<forall>e. result = Err e \<longrightarrow> t' = t) \<and>
    (result = Ok () \<longrightarrow>
       (\<forall>l. pb_last_generation s = Some l \<longrightarrow> l < g) \<and> (\<forall>l. pb_last_generation t = Some l \<longrightarrow> l < g) \<and>
       card (set nodes) \<le> MAX_ACTIVE_NODES \<and>
       set (pb_active_nodes t') = set nodes \<and> dom (bt_get (pb_queued_deadlines t')) = set nodes \<and>
       pb_in_flight t' = [] \<and> pb_samples t' = [] \<and> pb_generation t' = Some g \<and>
       (\<forall>c later.
          (\<exists>n f. bt_get (pb_in_flight s) n = Some f \<and> pt_generation (pc_task c) = fp_generation f) \<or>
          (\<exists>time. pc_task c \<in> set (fst (probe_take_due time s))) \<longrightarrow>
          probe_complete c (fold probe_step later t') = (ProbeLateGeneration, fold probe_step later t')))"
proof (cases result)
  case (Inl e)
  with assms(3) show ?thesis
    by (auto simp: probe_reset_def split: if_splits sum.splits)
next
  case (Inr u)
  with assms(3) have fresh: "probe_reset g nodes now t = (Ok (), t')" by simp
  have t: "probe_inv t" "generation_stamp s \<le> generation_stamp t"
    using assms(1,2) probe_pool.run_from probe_generations.run_stamp by auto
  have t': "probe_inv t'" using probe_reset_inv [OF t(1), of g nodes now] fresh by simp
  have stamp: "generation_stamp t \<le> unat g" "generation_stamp t' = Suc (unat g)"
    using probe_reset_fresh [OF fresh] by (auto simp: generation_stamp_def word_less_nat_alt split: option.split)
  have "l < g" if "pb_last_generation s = Some l" for l
    using that t(2) stamp(1) by (simp add: generation_stamp_def word_less_nat_alt)
  moreover have "Suc (unat (pt_generation (pc_task c))) < generation_stamp t'"
    if "(\<exists>n f. bt_get (pb_in_flight s) n = Some f \<and> pt_generation (pc_task c) = fp_generation f) \<or>
      (\<exists>time. pc_task c \<in> set (fst (probe_take_due time s)))" for c
  proof -
    have "pb_generation s = Some (pt_generation (pc_task c))"
      using that assms(1) by (auto simp: probe_inv_def dest: probe_take_due_tasks)
    then show ?thesis using stamp_of_current [OF assms(1)] t(2) stamp by simp
  qed
  ultimately have "\<forall>l. pb_last_generation s = Some l \<longrightarrow> l < g"
    and "\<forall>c later.
      (\<exists>n f. bt_get (pb_in_flight s) n = Some f \<and> pt_generation (pc_task c) = fp_generation f) \<or>
      (\<exists>time. pc_task c \<in> set (fst (probe_take_due time s))) \<longrightarrow>
      probe_complete c (fold probe_step later t') = (ProbeLateGeneration, fold probe_step later t')"
    using older_is_late [OF t'] by blast+
  moreover have "\<forall>e. result = Err e \<longrightarrow> t' = t" using Inr by simp
  ultimately show ?thesis using probe_reset_fresh [OF fresh] by blast
qed

text \<open>A probe of generation 4 is late after a deactivation and a reset to generation 5.\<close>

theorem probe_reset_isolates_witness:
  "let a = NodeRecordId ''a'';
       s = snd (probe_reset 4 [a] 5 probe_new);
       t = fold probe_step [ProbeTakeDue 5, ProbeDeactivate] s;
       task = \<lparr>pt_attempt_id = 1, pt_generation = 4, pt_node_id = a, pt_due_at_unix_ms = 5\<rparr>;
       c = \<lparr>pc_task = task, pc_outcome = ProbeTimedOut, pc_completed_at_unix_ms = 6\<rparr>;
       t' = snd (probe_reset 5 [a] 7 t)
   in fst (probe_take_due 5 s) = [task] \<and> probe_complete c t' = (ProbeLateGeneration, t')"
proof -
  define s where "s = snd (probe_reset 4 [NodeRecordId ''a''] 5 probe_new)"
  define t where "t = fold probe_step [ProbeTakeDue 5, ProbeDeactivate] s"
  define task where "task = \<lparr>pt_attempt_id = 1, pt_generation = 4, pt_node_id = NodeRecordId ''a'', pt_due_at_unix_ms = 5\<rparr>"
  define c where "c = \<lparr>pc_task = task, pc_outcome = ProbeTimedOut, pc_completed_at_unix_ms = 6\<rparr>"
  have s: "s = \<lparr>pb_generation = Some 4, pb_last_generation = Some 4, pb_active_nodes = [NodeRecordId ''a''],
      pb_queue = [(5, NodeRecordId ''a'')], pb_queued_deadlines = [(NodeRecordId ''a'', 5)], pb_in_flight = [], pb_samples = [],
      pb_next_attempt_id = 1\<rparr>"
    by (simp add: s_def probe_reset_def probe_new_def MAX_ACTIVE_NODES_def bs_insert_def bt_insert_def probe_enqueue_def)
  have inv: "probe_inv s" unfolding s_def by (rule probe_reset_inv) (rule probe_pool.inv_init)
  have tasks: "fst (probe_take_due 5 s) = [task]"
    by (simp add: s probe_take_due_def PROBE_WORKER_COUNT_def numeral_eq_Suc probe_drain.simps probe_launch_def probe_take_attempt_id_def
        bs_remove_def Let_def task_def)
  have "fst (probe_reset 5 [NodeRecordId ''a''] 7 t) = Ok ()"
    by (simp add: t_def probe_deactivate_def s probe_take_due_def probe_reset_def MAX_ACTIVE_NODES_def bs_insert_def)
  then have reset: "probe_reset 5 [NodeRecordId ''a''] 7 t = (Ok (), snd (probe_reset 5 [NodeRecordId ''a''] 7 t))"
    by (simp add: prod_eq_iff)
  have "\<exists>time. pc_task c \<in> set (fst (probe_take_due time s))"
    by (rule exI [of _ 5]) (simp add: tasks c_def)
  with probe_reset_isolates [OF inv t_def reset]
  have "probe_complete c (fold probe_step [] (snd (probe_reset 5 [NodeRecordId ''a''] 7 t))) =
      (ProbeLateGeneration, fold probe_step [] (snd (probe_reset 5 [NodeRecordId ''a''] 7 t)))"
    by blast
  with tasks show ?thesis
    unfolding Let_def s_def [symmetric] t_def [symmetric] task_def [symmetric] c_def [symmetric] by simp
qed

text \<open>C23. The metrics are consistent: queue depth and running probes add up to the active nodes, the
  stale count stays within them, the estimate of a full pass is the exact number of rounds of
  sixteen probes times the probe timeout, and the scheduler reports overload for its size from
  the first node count whose full pass outlasts the freshness window.\<close>

theorem probe_metrics_consistent:
  assumes "probe_inv s"
  shows "let m = probe_metrics now s in
    pm_queue_depth m + pm_in_flight_count m = pm_active_node_count m \<and>
    pm_stale_node_count m \<le> pm_active_node_count m \<and>
    unat (pm_estimated_full_pass_duration_ms m) = (pm_active_node_count m + 15) div 16 * 5000 \<and>
    (pm_active_node_count m > 1920 \<longrightarrow> pm_overloaded m) \<and>
    (pm_overloaded m \<longrightarrow> pm_active_node_count m > 1920 \<or>
       (\<exists>age. pm_oldest_due_age_ms m = Some age \<and> age > duration_ms LATENCY_FRESHNESS))"
proof -
  let ?n = "length (pb_active_nodes s)"
  define est where "est = saturating_mul (batches ?n PROBE_WORKER_COUNT) (duration_ms PROBE_TIMEOUT)"
  have est: "unat est = (?n + 15) div 16 * 5000"
    unfolding est_def by (rule estimated_full_pass) (use assms in \<open>simp add: probe_inv_def\<close>)
  have fresh: "unat (duration_ms LATENCY_FRESHNESS) = 600000"
    by (simp add: duration_ms_def LATENCY_FRESHNESS_def from_secs_def)
  have "est > duration_ms LATENCY_FRESHNESS \<longleftrightarrow> 121 \<le> (?n + 15) div 16"
    unfolding word_less_nat_alt est fresh by auto
  also have "\<dots> \<longleftrightarrow> ?n > 1920"
    by (simp add: less_eq_div_iff_mult_less_eq) auto
  finally have "est > duration_ms LATENCY_FRESHNESS \<longleftrightarrow> ?n > 1920" .
  moreover have "length (filter P (pb_active_nodes s)) \<le> ?n" for P
    by simp
  ultimately show ?thesis
    using probe_counts [OF assms] est
    unfolding probe_metrics_def Let_def est_def [symmetric]
    by (cases "pb_queue s") (simp_all, (metis less_zeroE list.size(3))+)
qed

theorem probe_metrics_consistent_witness:
  "pm_queue_depth (probe_metrics 0 probe_new) + pm_in_flight_count (probe_metrics 0 probe_new) =
    pm_active_node_count (probe_metrics 0 probe_new)"
  using probe_metrics_consistent [OF probe_pool.inv_init, of 0] by (simp add: Let_def)

end
