(* ===== verification/Telemetry.thy ===== *)
theory Telemetry
  imports Domain_Types Machines
begin

text \<open>
  Log retention and telemetry (\<open>src/src/telemetry.rs\<close>).

  \<open>LogBuffer\<close> keeps the newest log records within a record count and a byte budget;
  \<open>evict_logs\<close> is the eviction loop of \<open>push\<close>, \<open>collect_tail\<close> the backwards loop of
  \<open>tail_after\<close>, \<open>sequence_gap_from\<close> the loop of \<open>sequence_has_gap\<close>.  \<open>TelemetryStore\<close>
  guards every publication with the generation of the running core.  Lower-casing of
  Unicode text is a parameter of \<open>log_query\<close>.
\<close>

section \<open>Log records\<close>

datatype LogLevel = LogDebug | LogInfo | LogWarn | LogError
datatype LogSource = CoreApi | LogStdout | LogStderr

record CoreLogRecord =
  lr_sequence :: u64
  lr_timestamp_unix_ms :: u64
  lr_level :: LogLevel
  lr_source :: LogSource
  lr_message :: string

record LogFilter =
  lf_level :: "LogLevel option"
  lf_contains :: "string option"
  lf_since_unix_ms :: "u64 option"
  lf_until_unix_ms :: "u64 option"

record LogTail =
  lt_records :: "CoreLogRecord list"
  lt_dropped_total :: u64
  lt_gap :: bool
  lt_earliest_sequence :: "u64 option"
  lt_latest_sequence :: "u64 option"
  lt_sequence_horizon :: "u64 option"

datatype TelemetryError = InvalidLimit | LogLineTooLarge nat | SequenceExhausted

record LogBuffer =
  lb_capacity :: nat
  lb_max_line_bytes :: nat
  lb_next_sequence :: u64
  lb_dropped_total :: u64
  lb_retained_bytes :: nat
  lb_records :: "CoreLogRecord list"

definition LOG_TAIL_ENVELOPE_MAX_BYTES :: nat where "LOG_TAIL_ENVELOPE_MAX_BYTES = 512"
definition LOG_RECORD_FIXED_MAX_BYTES :: nat where "LOG_RECORD_FIXED_MAX_BYTES = 256"

section \<open>The log buffer\<close>

definition log_new :: "nat \<Rightarrow> nat \<Rightarrow> TelemetryError + LogBuffer" where
  "log_new capacity max_line_bytes =
    (if capacity = 0 \<or> max_line_bytes = 0 then Err InvalidLimit
     else Ok \<lparr>lb_capacity = capacity, lb_max_line_bytes = max_line_bytes, lb_next_sequence = 1,
              lb_dropped_total = 0, lb_retained_bytes = 0, lb_records = []\<rparr>)"

fun evict_logs :: "nat \<Rightarrow> nat \<Rightarrow> nat \<Rightarrow> u64 \<Rightarrow> CoreLogRecord list \<Rightarrow> nat \<times> u64 \<times> CoreLogRecord list" where
  "evict_logs capacity message_bytes retained dropped [] = (retained, dropped, [])"
| "evict_logs capacity message_bytes retained dropped (r # rs) =
    (if length (r # rs) = capacity \<or> usize_add retained message_bytes > LOG_RETENTION_MAX_BYTES
     then evict_logs capacity message_bytes (retained - length (lr_message r)) (saturating_add dropped 1) rs
     else (retained, dropped, r # rs))"

definition log_push ::
  "u64 \<Rightarrow> LogLevel \<Rightarrow> LogSource \<Rightarrow> string \<Rightarrow> LogBuffer \<Rightarrow> (TelemetryError + u64) \<times> LogBuffer" where
  "log_push timestamp level source message b =
    (if length message > lb_max_line_bytes b then (Err (LogLineTooLarge (lb_max_line_bytes b)), b)
     else if length message > LOG_RETENTION_MAX_BYTES then (Err (LogLineTooLarge LOG_RETENTION_MAX_BYTES), b)
     else (case checked_add (lb_next_sequence b) 1 of
        None \<Rightarrow> (Err SequenceExhausted, b)
      | Some next \<Rightarrow>
          let (retained, dropped, records) =
                evict_logs (lb_capacity b) (length message) (lb_retained_bytes b) (lb_dropped_total b) (lb_records b)
          in (Ok (lb_next_sequence b),
              b\<lparr>lb_next_sequence := next, lb_dropped_total := dropped,
                lb_retained_bytes := usize_add retained (length message),
                lb_records := records @
                  [\<lparr>lr_sequence = lb_next_sequence b, lr_timestamp_unix_ms = timestamp, lr_level = level,
                    lr_source = source, lr_message = message\<rparr>]\<rparr>)))"

definition log_record_external_drop :: "u64 \<Rightarrow> LogBuffer \<Rightarrow> (TelemetryError + unit) \<times> LogBuffer" where
  "log_record_external_drop count b =
    (if count = 0 then (Ok (), b)
     else (case checked_add (lb_next_sequence b) count of
        None \<Rightarrow> (Err SequenceExhausted, b)
      | Some next \<Rightarrow>
          (Ok (), b\<lparr>lb_next_sequence := next, lb_dropped_total := saturating_add (lb_dropped_total b) count\<rparr>)))"

definition encoded_byte_cost :: "char \<Rightarrow> nat" where
  "encoded_byte_cost c =
    (let b = byte_of c in
     if b = 0x22 \<or> b = 0x5C \<or> b = 0x08 \<or> b = 0x09 \<or> b = 0x0A \<or> b = 0x0C \<or> b = 0x0D then 2
     else if b \<le> 0x1F then 6 else 1)"

definition encoded_json_string_bytes :: "string \<Rightarrow> nat" where
  "encoded_json_string_bytes v = foldl (\<lambda>encoded c. usize_add encoded (encoded_byte_cost c)) 2 v"

definition encoded_record_upper_bound :: "CoreLogRecord \<Rightarrow> nat" where
  "encoded_record_upper_bound r = usize_add LOG_RECORD_FIXED_MAX_BYTES (encoded_json_string_bytes (lr_message r))"

fun records_have_gap :: "CoreLogRecord list \<Rightarrow> bool" where
  "records_have_gap (a # b # rs) =
    ((case checked_add (lr_sequence a) 1 of None \<Rightarrow> True | Some expected \<Rightarrow> lr_sequence b \<noteq> expected) \<or>
     records_have_gap (b # rs))"
| "records_have_gap _ = False"

fun sequence_gap_from :: "u64 \<Rightarrow> CoreLogRecord list \<Rightarrow> u64 \<Rightarrow> bool" where
  "sequence_gap_from expected [] next_sequence = (next_sequence > expected)"
| "sequence_gap_from expected (r # rs) next_sequence =
    (if lr_sequence r > expected then True
     else sequence_gap_from (saturating_add (lr_sequence r) 1) rs next_sequence)"

definition sequence_has_gap :: "u64 \<Rightarrow> CoreLogRecord list \<Rightarrow> u64 \<Rightarrow> bool" where
  "sequence_has_gap after records next_sequence =
    (case checked_add after 1 of None \<Rightarrow> False
     | Some expected \<Rightarrow> sequence_gap_from expected records next_sequence)"

fun collect_tail :: "nat \<Rightarrow> nat \<Rightarrow> CoreLogRecord list \<Rightarrow> CoreLogRecord list \<times> bool" where
  "collect_tail count delivery_bytes [] = ([], False)"
| "collect_tail count delivery_bytes (r # rs) =
    (if count = LOG_TAIL_MAX_RECORDS \<or>
        usize_add delivery_bytes (encoded_record_upper_bound r) > LOG_TAIL_MAX_BYTES
     then ([], True)
     else (let (records, truncated) =
                 collect_tail (count + 1) (usize_add delivery_bytes (encoded_record_upper_bound r)) rs
           in (r # records, truncated)))"

fun first_sequence :: "CoreLogRecord list \<Rightarrow> u64 option" where
  "first_sequence [] = None"
| "first_sequence (r # rs) = Some (lr_sequence r)"

definition is_after :: "u64 option \<Rightarrow> CoreLogRecord \<Rightarrow> bool" where
  "is_after after r = (case after of None \<Rightarrow> True | Some a \<Rightarrow> lr_sequence r > a)"

definition log_tail_after :: "u64 option \<Rightarrow> LogBuffer \<Rightarrow> LogTail" where
  "log_tail_after after b =
    (let retained_earliest = first_sequence (lb_records b);
         latest = first_sequence (rev (lb_records b));
         horizon = (if lb_next_sequence b > 1 then Some (lb_next_sequence b - 1) else None);
         (newest_first, truncated) =
           collect_tail 0 LOG_TAIL_ENVELOPE_MAX_BYTES (filter (is_after after) (rev (lb_records b)));
         records = rev newest_first;
         gap = (truncated \<or>
           (case after of
              None \<Rightarrow> lb_dropped_total b > 0 \<or> records_have_gap records
            | Some a \<Rightarrow> sequence_has_gap a records (lb_next_sequence b)));
         earliest = (if truncated
           then (case first_sequence records of Some s \<Rightarrow> Some s | None \<Rightarrow> retained_earliest)
           else retained_earliest)
     in \<lparr>lt_records = records, lt_dropped_total = lb_dropped_total b, lt_gap = gap,
         lt_earliest_sequence = earliest, lt_latest_sequence = latest, lt_sequence_horizon = horizon\<rparr>)"

definition log_query :: "(string \<Rightarrow> string) \<Rightarrow> LogFilter \<Rightarrow> LogBuffer \<Rightarrow> CoreLogRecord list" where
  "log_query to_lowercase f b =
    filter (\<lambda>r. case map_option to_lowercase (lf_contains f) of None \<Rightarrow> True
              | Some needle \<Rightarrow> sublist needle (to_lowercase (lr_message r)))
   (filter (\<lambda>r. case lf_until_unix_ms f of None \<Rightarrow> True | Some t \<Rightarrow> lr_timestamp_unix_ms r \<le> t)
   (filter (\<lambda>r. case lf_since_unix_ms f of None \<Rightarrow> True | Some t \<Rightarrow> lr_timestamp_unix_ms r \<ge> t)
   (filter (\<lambda>r. case lf_level f of None \<Rightarrow> True | Some l \<Rightarrow> lr_level r = l) (lb_records b))))"

section \<open>The telemetry store\<close>

record TelemetryStore =
  ts_core_generation :: CoreInstanceGeneration
  ts_logs :: LogBuffer
  ts_traffic_capacity :: nat
  ts_traffic_history :: "TrafficSample list"
  ts_latest_traffic :: "TrafficSample option"
  ts_connection_count :: "u64 option"
  ts_upload_total_bytes :: "u64 option"
  ts_download_total_bytes :: "u64 option"
  ts_memory_bytes :: "u64 option"
  ts_connections :: "ConnectionRecord list"

definition store_new :: "CoreInstanceGeneration \<Rightarrow> nat \<Rightarrow> nat \<Rightarrow> nat \<Rightarrow> TelemetryError + TelemetryStore" where
  "store_new core_generation log_capacity max_log_line_bytes traffic_capacity =
    (if traffic_capacity = 0 then Err InvalidLimit
     else and_then (log_new log_capacity max_log_line_bytes) (\<lambda>logs.
       Ok \<lparr>ts_core_generation = core_generation, ts_logs = logs, ts_traffic_capacity = traffic_capacity,
           ts_traffic_history = [], ts_latest_traffic = None, ts_connection_count = None,
           ts_upload_total_bytes = None, ts_download_total_bytes = None, ts_memory_bytes = None,
           ts_connections = []\<rparr>))"

definition store_replace_core :: "CoreInstanceGeneration \<Rightarrow> TelemetryStore \<Rightarrow> TelemetryStore" where
  "store_replace_core g t =
    t\<lparr>ts_core_generation := g, ts_latest_traffic := None, ts_traffic_history := [],
      ts_connection_count := None, ts_upload_total_bytes := None, ts_download_total_bytes := None,
      ts_memory_bytes := None, ts_connections := []\<rparr>"

definition store_publish_traffic ::
  "CoreInstanceGeneration \<Rightarrow> TrafficSample \<Rightarrow> TelemetryStore \<Rightarrow> bool \<times> TelemetryStore" where
  "store_publish_traffic g sample t =
    (if g \<noteq> ts_core_generation t then (False, t)
     else
       let history = (if length (ts_traffic_history t) = ts_traffic_capacity t
                      then tl (ts_traffic_history t) else ts_traffic_history t)
       in (True, t\<lparr>ts_traffic_history := history @ [sample], ts_latest_traffic := Some sample\<rparr>))"

definition store_publish_connections ::
  "CoreInstanceGeneration \<Rightarrow> u64 \<Rightarrow> u64 \<Rightarrow> u64 \<Rightarrow> u64 option \<Rightarrow> ConnectionRecord list \<Rightarrow>
   TelemetryStore \<Rightarrow> bool \<times> TelemetryStore" where
  "store_publish_connections g count upload download memory connections t =
    (if g \<noteq> ts_core_generation t then (False, t)
     else (True, t\<lparr>ts_connection_count := Some count, ts_upload_total_bytes := Some upload,
                   ts_download_total_bytes := Some download, ts_memory_bytes := memory,
                   ts_connections := take CONNECTION_RECORD_CAPACITY connections\<rparr>))"

definition store_publish_log ::
  "CoreInstanceGeneration \<Rightarrow> u64 \<Rightarrow> LogLevel \<Rightarrow> LogSource \<Rightarrow> string \<Rightarrow> TelemetryStore \<Rightarrow>
   (TelemetryError + bool) \<times> TelemetryStore" where
  "store_publish_log g timestamp level source message t =
    (if g \<noteq> ts_core_generation t then (Ok False, t)
     else (case log_push timestamp level source message (ts_logs t) of
        (Inl e, logs) \<Rightarrow> (Err e, t\<lparr>ts_logs := logs\<rparr>)
      | (Inr _, logs) \<Rightarrow> (Ok True, t\<lparr>ts_logs := logs\<rparr>)))"

definition store_record_log_drop ::
  "CoreInstanceGeneration \<Rightarrow> u64 \<Rightarrow> TelemetryStore \<Rightarrow> (TelemetryError + bool) \<times> TelemetryStore" where
  "store_record_log_drop g count t =
    (if g \<noteq> ts_core_generation t then (Ok False, t)
     else (case log_record_external_drop count (ts_logs t) of
        (Inl e, logs) \<Rightarrow> (Err e, t\<lparr>ts_logs := logs\<rparr>)
      | (Inr _, logs) \<Rightarrow> (Ok True, t\<lparr>ts_logs := logs\<rparr>)))"

section \<open>Invariants and runs\<close>

definition message_bytes :: "CoreLogRecord list \<Rightarrow> nat" where
  "message_bytes rs = sum_list (map (length \<circ> lr_message) rs)"

definition log_inv :: "LogBuffer \<Rightarrow> bool" where
  "log_inv b =
    (0 < lb_capacity b \<and> length (lb_records b) \<le> lb_capacity b \<and>
     lb_retained_bytes b = message_bytes (lb_records b) \<and> lb_retained_bytes b \<le> LOG_RETENTION_MAX_BYTES \<and>
     sorted_wrt (\<lambda>x y. lr_sequence x < lr_sequence y) (lb_records b) \<and>
     list_all (\<lambda>r. 0 < lr_sequence r \<and> lr_sequence r < lb_next_sequence b) (lb_records b) \<and>
     unat (lb_next_sequence b) = length (lb_records b) + unat (lb_dropped_total b) + 1)"

datatype LogOp = LogPush u64 LogLevel LogSource string | LogExternalDrop u64

fun log_step :: "LogOp \<Rightarrow> LogBuffer \<Rightarrow> LogBuffer" where
  "log_step (LogPush t l s m) b = snd (log_push t l s m b)"
| "log_step (LogExternalDrop n) b = snd (log_record_external_drop n b)"

definition log_product :: LogBuffer where
  "log_product = \<lparr>lb_capacity = LOG_CAPACITY, lb_max_line_bytes = CORE_LOG_LINE_MAX_BYTES, lb_next_sequence = 1,
    lb_dropped_total = 0, lb_retained_bytes = 0, lb_records = []\<rparr>"

datatype StoreOp
  = StoreTraffic CoreInstanceGeneration TrafficSample
  | StoreConnections CoreInstanceGeneration u64 u64 u64 "u64 option" "ConnectionRecord list"
  | StoreLog CoreInstanceGeneration u64 LogLevel LogSource string
  | StoreLogDrop CoreInstanceGeneration u64
  | StoreReplaceCore CoreInstanceGeneration

fun store_step :: "StoreOp \<Rightarrow> TelemetryStore \<Rightarrow> TelemetryStore" where
  "store_step (StoreTraffic g x) t = snd (store_publish_traffic g x t)"
| "store_step (StoreConnections g c u d m cs) t = snd (store_publish_connections g c u d m cs t)"
| "store_step (StoreLog g ts l s m) t = snd (store_publish_log g ts l s m t)"
| "store_step (StoreLogDrop g n) t = snd (store_record_log_drop g n t)"
| "store_step (StoreReplaceCore g) t = store_replace_core g t"

fun published_by :: "StoreOp \<Rightarrow> CoreInstanceGeneration option" where
  "published_by (StoreTraffic g x) = Some g"
| "published_by (StoreConnections g c u d m cs) = Some g"
| "published_by (StoreLog g ts l s m) = Some g"
| "published_by (StoreLogDrop g n) = Some g"
| "published_by (StoreReplaceCore g) = None"

definition store_inv :: "TelemetryStore \<Rightarrow> bool" where
  "store_inv t =
    (log_inv (ts_logs t) \<and> 0 < ts_traffic_capacity t \<and>
     length (ts_traffic_history t) \<le> ts_traffic_capacity t \<and>
     length (ts_connections t) \<le> CONNECTION_RECORD_CAPACITY \<and>
     ts_latest_traffic t = (if ts_traffic_history t = [] then None else Some (last (ts_traffic_history t))))"

section \<open>Eviction\<close>

lemma usize_add_gt: "n < usize_max \<Longrightarrow> n < usize_add a b \<longleftrightarrow> n < a + b"
  by (auto simp: usize_add_def)

lemma usize_add_exact: "a + b \<le> n \<Longrightarrow> n \<le> usize_max \<Longrightarrow> usize_add a b = a + b"
  by (simp add: usize_add_def)

lemma limits_below_usize [simp]: "LOG_RETENTION_MAX_BYTES < usize_max" "LOG_TAIL_MAX_BYTES < usize_max"
  by (simp_all add: LOG_RETENTION_MAX_BYTES_def LOG_TAIL_MAX_BYTES_def usize_max_def)

lemma message_bytes_simps [simp]:
  "message_bytes [] = 0" "message_bytes (r # rs) = length (lr_message r) + message_bytes rs"
  "message_bytes (xs @ ys) = message_bytes xs + message_bytes ys"
  by (simp_all add: message_bytes_def)

lemma unat_saturating_add_1: "unat d + k < 2 ^ 64 \<Longrightarrow> 0 < k \<Longrightarrow> unat (saturating_add (d :: u64) 1) = unat d + 1"
  by (simp add: unat_saturating_add)

lemma evict_logs_correct:
  assumes "evict_logs capacity n retained dropped rs = (retained', dropped', rs')"
    and "retained = message_bytes rs" "n \<le> LOG_RETENTION_MAX_BYTES" "length rs \<le> capacity" "0 < capacity"
    and "unat dropped + length rs < 2 ^ 64"
  shows "suffix rs' rs \<and> retained' = message_bytes rs' \<and> length rs' < capacity \<and>
    retained' + n \<le> LOG_RETENTION_MAX_BYTES \<and> unat dropped' + length rs' = unat dropped + length rs"
  using assms
proof (induction capacity n retained dropped rs rule: evict_logs.induct)
  case (2 capacity n retained dropped r rs)
  show ?case
  proof (cases "length (r # rs) = capacity \<or> usize_add retained n > LOG_RETENTION_MAX_BYTES")
    case True
    have step: "unat (saturating_add dropped 1) = unat dropped + 1"
      using "2.prems"(6) by (intro unat_saturating_add_1 [where k = "length (r # rs)"]) auto
    have "suffix rs' rs \<and> retained' = message_bytes rs' \<and> length rs' < capacity \<and>
        retained' + n \<le> LOG_RETENTION_MAX_BYTES \<and>
        unat dropped' + length rs' = unat (saturating_add dropped 1) + length rs"
      using "2.prems" True step by (intro "2.IH") auto
    with step show ?thesis by (auto simp: suffix_Cons)
  next
    case False
    with "2.prems" show ?thesis
      by (auto simp: usize_add_gt not_less)
  qed
qed auto

lemma evict_total: "\<exists>a d rs'. evict_logs c n ret dr rs = (a, d, rs')"
  by (metis prod_cases3)

section \<open>The log buffer keeps its invariant\<close>

lemma log_push_cases:
  assumes "log_push t l s m b = (res, b')"
  obtains (rejected) e where "res = Err e" "b' = b"
  | (stored) nxt retained dropped records where
      "res = Ok (lb_next_sequence b)" "length m \<le> LOG_RETENTION_MAX_BYTES" "length m \<le> lb_max_line_bytes b"
      "unat nxt = unat (lb_next_sequence b) + 1"
      "evict_logs (lb_capacity b) (length m) (lb_retained_bytes b) (lb_dropped_total b) (lb_records b) =
        (retained, dropped, records)"
      "b' = b\<lparr>lb_next_sequence := nxt, lb_dropped_total := dropped,
           lb_retained_bytes := usize_add retained (length m),
           lb_records := records @ [\<lparr>lr_sequence = lb_next_sequence b, lr_timestamp_unix_ms = t,
             lr_level = l, lr_source = s, lr_message = m\<rparr>]\<rparr>"
proof -
  consider "length m > lb_max_line_bytes b \<or> length m > LOG_RETENTION_MAX_BYTES \<or> checked_add (lb_next_sequence b) 1 = None"
    | nxt where "length m \<le> LOG_RETENTION_MAX_BYTES" "length m \<le> lb_max_line_bytes b"
        "checked_add (lb_next_sequence b) 1 = Some nxt"
    by (metis not_le option.exhaust)
  then show thesis
  proof cases
    case 1
    then have "\<exists>e. res = Err e \<and> b' = b"
      using assms by (auto simp: log_push_def split: if_splits)
    then show thesis using rejected by blast
  next
    case 2
    obtain a d rs where ev: "evict_logs (lb_capacity b) (length m) (lb_retained_bytes b) (lb_dropped_total b)
        (lb_records b) = (a, d, rs)"
      using evict_total by blast
    have "unat nxt = unat (lb_next_sequence b) + 1"
      using 2(3) by (simp add: checked_add_Some)
    with 2 ev assms show thesis
      by (intro stored [of nxt a d rs]) (simp_all add: log_push_def)
  qed
qed

lemma log_push_inv:
  assumes inv: "log_inv b" and push: "log_push t l s m b = (res, b')"
  shows "log_inv b'"
  using push
proof (cases rule: log_push_cases)
  case (stored nxt retained dropped records)
  have below: "unat (lb_next_sequence b) < 2 ^ 64"
    using unat_below [of "lb_next_sequence b"] by simp
  have ev: "suffix records (lb_records b)" "retained = message_bytes records" "length records < lb_capacity b"
    "retained + length m \<le> LOG_RETENTION_MAX_BYTES"
    "unat dropped + length records = unat (lb_dropped_total b) + length (lb_records b)"
    using evict_logs_correct [OF stored(5)] inv stored(2) below by (auto simp: log_inv_def)
  have sub: "set records \<subseteq> set (lb_records b)"
    using ev(1) by (simp add: set_mono_suffix)
  have sorted: "sorted_wrt (\<lambda>x y. lr_sequence x < lr_sequence y) records"
    using inv ev(1) by (auto simp: log_inv_def suffix_def sorted_wrt_append)
  have nxt': "lb_next_sequence b < nxt"
    using stored(4) by (simp add: word_less_nat_alt)
  have "0 < lb_next_sequence b"
    using inv by (simp add: log_inv_def word_less_nat_alt)
  moreover have seqs: "0 < lr_sequence r \<and> lr_sequence r < lb_next_sequence b" if "r \<in> set records" for r
    using inv sub that by (auto simp: log_inv_def list_all_iff)
  moreover have "usize_add retained (length m) = retained + length m"
    using ev(4) less_imp_le [OF limits_below_usize(1)] by (rule usize_add_exact)
  ultimately show ?thesis
    using inv ev(2-5) sorted nxt' stored(4)
    by (auto simp: stored(6) log_inv_def list_all_iff sorted_wrt_append intro: less_trans)
qed (simp add: inv)

lemma log_drop_cases:
  assumes "log_record_external_drop n b = (res, b')"
  obtains (same) "b' = b"
  | (counted) nxt where "unat nxt = unat (lb_next_sequence b) + unat n"
      "b' = b\<lparr>lb_next_sequence := nxt, lb_dropped_total := saturating_add (lb_dropped_total b) n\<rparr>"
proof (cases "checked_add (lb_next_sequence b) n")
  case None
  with assms same show thesis by (simp add: log_record_external_drop_def split: if_splits)
next
  case (Some nxt)
  then have "unat nxt = unat (lb_next_sequence b) + unat n"
    by (simp add: checked_add_Some)
  with Some assms same counted [of nxt] show thesis
    by (simp add: log_record_external_drop_def split: if_splits)
qed

lemma log_drop_inv:
  assumes inv: "log_inv b" and drop: "log_record_external_drop n b = (res, b')"
  shows "log_inv b'"
  using drop
proof (cases rule: log_drop_cases)
  case (counted nxt)
  have "unat nxt < 2 ^ 64"
    using unat_below [of nxt] by simp
  then have "unat (saturating_add (lb_dropped_total b) n) = unat (lb_dropped_total b) + unat n"
    using inv counted(1) by (simp add: unat_saturating_add log_inv_def)
  moreover have "lr_sequence r < nxt" if "r \<in> set (lb_records b)" for r
    using inv that counted(1) by (fastforce simp: log_inv_def list_all_iff word_less_nat_alt)
  ultimately show ?thesis
    using inv counted(1) by (simp add: counted(2) log_inv_def list_all_iff)
qed (simp add: inv)

lemma log_step_inv: "log_inv b \<Longrightarrow> log_inv (log_step op b)"
  by (cases op) (auto intro: log_push_inv [OF _ prod.collapse [symmetric]] log_drop_inv [OF _ prod.collapse [symmetric]])

lemma log_step_frame:
  "unat (lb_next_sequence b) \<le> unat (lb_next_sequence (log_step op b)) \<and>
   lb_capacity (log_step op b) = lb_capacity b \<and> lb_max_line_bytes (log_step op b) = lb_max_line_bytes b"
proof (cases op)
  case (LogPush t l s m)
  have "log_push t l s m b = (fst (log_push t l s m b), log_step op b)"
    by (simp add: LogPush)
  then show ?thesis
    by (cases rule: log_push_cases) simp_all
next
  case (LogExternalDrop n)
  have "log_record_external_drop n b = (fst (log_record_external_drop n b), log_step op b)"
    by (simp add: LogExternalDrop)
  then show ?thesis
    by (cases rule: log_drop_cases) simp_all
qed

lemma log_product_inv: "log_inv log_product" "lb_capacity log_product = LOG_CAPACITY"
  by (simp_all add: log_inv_def log_product_def LOG_CAPACITY_def)

interpretation product_log: stamped_machine log_product log_step
  "\<lambda>b. log_inv b \<and> lb_capacity b = LOG_CAPACITY" "\<lambda>b. unat (lb_next_sequence b)"
  by unfold_locales (auto simp: log_step_inv log_step_frame log_product_inv)

interpretation product_log_pool: worker_pool log_product log_step
  "\<lambda>b. log_inv b \<and> lb_capacity b = LOG_CAPACITY" "\<lambda>b. length (lb_records b)" LOG_CAPACITY
  by unfold_locales (auto simp: log_inv_def)

section \<open>Tails\<close>

lemma collect_tail_correct:
  assumes "collect_tail c bytes xs = (ys, truncated)" "c \<le> LOG_TAIL_MAX_RECORDS" "bytes \<le> LOG_TAIL_MAX_BYTES"
  shows "prefix ys xs \<and> (if truncated then length ys < length xs else ys = xs) \<and>
    c + length ys \<le> LOG_TAIL_MAX_RECORDS \<and>
    bytes + sum_list (map encoded_record_upper_bound ys) \<le> LOG_TAIL_MAX_BYTES"
  using assms
proof (induction c bytes xs arbitrary: ys rule: collect_tail.induct)
  case (2 c bytes r rs)
  show ?case
  proof (cases "c = LOG_TAIL_MAX_RECORDS \<or> usize_add bytes (encoded_record_upper_bound r) > LOG_TAIL_MAX_BYTES")
    case True
    with "2.prems" show ?thesis by auto
  next
    case False
    then have bytes: "usize_add bytes (encoded_record_upper_bound r) = bytes + encoded_record_upper_bound r"
      "bytes + encoded_record_upper_bound r \<le> LOG_TAIL_MAX_BYTES"
      by (auto simp: usize_add_gt not_less intro: usize_add_exact less_imp_le [OF limits_below_usize(2)])
    obtain zs where zs: "collect_tail (c + 1) (usize_add bytes (encoded_record_upper_bound r)) rs = (zs, truncated)"
      "ys = r # zs"
      using "2.prems"(1) False by (auto split: prod.splits)
    have "prefix zs rs \<and> (if truncated then length zs < length rs else zs = rs) \<and>
        c + 1 + length zs \<le> LOG_TAIL_MAX_RECORDS \<and>
        usize_add bytes (encoded_record_upper_bound r) + sum_list (map encoded_record_upper_bound zs) \<le> LOG_TAIL_MAX_BYTES"
      using "2.prems"(2) False bytes zs(1) by (intro "2.IH") auto
    with bytes zs(2) show ?thesis by simp
  qed
qed auto

lemma sequence_gap_from_exact:
  "sorted_wrt (\<lambda>x y. lr_sequence x < lr_sequence y) rs \<Longrightarrow>
   (\<And>r. r \<in> set rs \<Longrightarrow> expected \<le> lr_sequence r \<and> lr_sequence r < nxt) \<Longrightarrow>
   \<not> sequence_gap_from expected rs nxt \<longleftrightarrow> map (unat \<circ> lr_sequence) rs = [unat expected..<unat nxt]"
proof (induction rs arbitrary: expected)
  case Nil
  have "[] = [unat expected..<unat nxt] \<longleftrightarrow> unat nxt \<le> unat expected"
    by (subst eq_commute) auto
  then show ?case by (simp add: word_less_nat_alt not_less)
next
  case (Cons r rs)
  have r: "unat expected \<le> unat (lr_sequence r)" "unat (lr_sequence r) < unat nxt"
    using Cons.prems(2) [of r] by (simp_all add: word_le_nat_alt word_less_nat_alt)
  then have upt: "[unat expected..<unat nxt] = unat expected # [Suc (unat expected)..<unat nxt]"
    by (intro upt_conv_Cons) simp
  show ?case
  proof (cases "lr_sequence r > expected")
    case True
    then show ?thesis
      unfolding upt by (auto simp: word_less_nat_alt)
  next
    case False
    then have eq: "lr_sequence r = expected"
      using Cons.prems(2) [of r] by simp
    have "unat (saturating_add expected 1) = Suc (unat expected)"
      using r eq unat_below [of nxt] by (simp add: unat_saturating_add)
    moreover have "\<not> sequence_gap_from (saturating_add expected 1) rs nxt \<longleftrightarrow>
        map (unat \<circ> lr_sequence) rs = [unat (saturating_add expected 1)..<unat nxt]"
    proof (rule Cons.IH)
      show "sorted_wrt (\<lambda>x y. lr_sequence x < lr_sequence y) rs"
        using Cons.prems(1) by simp
      show "saturating_add expected 1 \<le> lr_sequence x \<and> lr_sequence x < nxt" if "x \<in> set rs" for x
        using Cons.prems that eq calculation by (auto simp: word_le_nat_alt word_less_nat_alt Suc_le_eq)
    qed
    ultimately show ?thesis
      unfolding upt by (simp add: eq comp_def)
  qed
qed

lemma consecutive_no_gap: "map (unat \<circ> lr_sequence) rs = [k..<n] \<Longrightarrow> \<not> records_have_gap rs"
proof (induction rs arbitrary: k rule: records_have_gap.induct)
  case (1 a b rs)
  have "[k..<n] = unat (lr_sequence a) # unat (lr_sequence b) # map (unat \<circ> lr_sequence) rs"
    using "1.prems" [symmetric] by simp
  then have a: "unat (lr_sequence a) = k" and rest: "map (unat \<circ> lr_sequence) (b # rs) = [Suc k..<n]"
    and b: "unat (lr_sequence b) = Suc k"
    by (auto simp: upt_eq_Cons_conv upt_conv_Cons)
  have "checked_add (lr_sequence a) 1 = Some (lr_sequence b)"
    unfolding checked_add_Some using a b by simp
  with "1.IH" [OF rest] show ?case by simp
qed simp_all

lemma sequences_subset:
  fixes after :: "u64 option"
  assumes "log_inv b"
  defines "low \<equiv> Suc (case after of None \<Rightarrow> 0 | Some a \<Rightarrow> unat a)"
  shows "sorted_wrt (<) (map (unat \<circ> lr_sequence) (filter (is_after after) (lb_records b)))"
    and "set (map (unat \<circ> lr_sequence) (filter (is_after after) (lb_records b))) \<subseteq> set [low..<unat (lb_next_sequence b)]"
proof -
  have "sorted_wrt (\<lambda>x y. unat (lr_sequence x) < unat (lr_sequence y)) (lb_records b)"
    using assms(1) by (simp add: log_inv_def word_less_nat_alt)
  then show "sorted_wrt (<) (map (unat \<circ> lr_sequence) (filter (is_after after) (lb_records b)))"
    by (simp add: sorted_wrt_map sorted_wrt_filter)
  show "set (map (unat \<circ> lr_sequence) (filter (is_after after) (lb_records b))) \<subseteq> set [low..<unat (lb_next_sequence b)]"
    using assms(1)
    by (auto simp: low_def log_inv_def list_all_iff is_after_def word_less_nat_alt Suc_le_eq split: option.splits)
qed

lemma strict_sorted_eq_upt:
  assumes "sorted_wrt (<) xs" "set xs \<subseteq> set [m..<n]" "length xs = n - m"
  shows "xs = [m..<n]"
proof -
  have "card (set xs) = card (set [m..<n])"
    using assms(1,3) by (simp add: strict_sorted_iff distinct_card)
  then have "set xs = set [m..<n]"
    using assms(2) by (intro card_subset_eq) auto
  with assms(1) show ?thesis
    by (intro sorted_distinct_set_unique) (auto simp: strict_sorted_iff)
qed

lemma strict_sorted_length_upt:
  "sorted_wrt (<) xs \<Longrightarrow> set xs \<subseteq> set [m..<n] \<Longrightarrow> length xs \<le> length [m..<n]"
  by (metis List.finite_set card_mono distinct_card distinct_upt strict_sorted_iff)

lemma log_tail_decompose:
  obtains ys truncated where
    "collect_tail 0 LOG_TAIL_ENVELOPE_MAX_BYTES (filter (is_after after) (rev (lb_records b))) = (ys, truncated)"
    "lt_records (log_tail_after after b) = rev ys"
    "lt_gap (log_tail_after after b) \<longleftrightarrow> truncated \<or> (case after of
       None \<Rightarrow> lb_dropped_total b > 0 \<or> records_have_gap (rev ys)
     | Some a \<Rightarrow> sequence_has_gap a (rev ys) (lb_next_sequence b))"
  by (cases "collect_tail 0 LOG_TAIL_ENVELOPE_MAX_BYTES (filter (is_after after) (rev (lb_records b)))")
    (auto simp: log_tail_after_def Let_def)

lemma tail_limits: "LOG_TAIL_ENVELOPE_MAX_BYTES \<le> LOG_TAIL_MAX_BYTES"
  by (simp add: LOG_TAIL_ENVELOPE_MAX_BYTES_def LOG_TAIL_MAX_BYTES_def)

text \<open>Whether the complete list of newer records has a gap.\<close>

lemma full_tail_gap:
  fixes after :: "u64 option"
  assumes inv: "log_inv b"
  defines "rs \<equiv> filter (is_after after) (lb_records b)"
    and "low \<equiv> Suc (case after of None \<Rightarrow> 0 | Some a \<Rightarrow> unat a)"
  shows "\<not> (case after of None \<Rightarrow> lb_dropped_total b > 0 \<or> records_have_gap rs
        | Some a \<Rightarrow> sequence_has_gap a rs (lb_next_sequence b)) \<longleftrightarrow>
    map (unat \<circ> lr_sequence) rs = [low..<unat (lb_next_sequence b)]"
proof (cases after)
  case None
  have rs: "rs = lb_records b"
    by (simp add: rs_def None is_after_def [abs_def])
  have count: "unat (lb_next_sequence b) - 1 = length (lb_records b) + unat (lb_dropped_total b)"
    using inv by (simp add: log_inv_def)
  show ?thesis
  proof (cases "lb_dropped_total b = 0")
    case True
    then have "map (unat \<circ> lr_sequence) rs = [low..<unat (lb_next_sequence b)]"
      using sequences_subset [OF inv, where after = after, folded rs_def low_def] count
      by (intro strict_sorted_eq_upt) (simp_all add: rs low_def None)
    with True consecutive_no_gap [OF this] show ?thesis by (simp add: None)
  next
    case False
    then have "0 < unat (lb_dropped_total b)"
      by (simp add: unat_gt_0)
    then have "length (map (unat \<circ> lr_sequence) rs) \<noteq> length [low..<unat (lb_next_sequence b)]"
      using count by (simp add: rs low_def None)
    then have "map (unat \<circ> lr_sequence) rs \<noteq> [low..<unat (lb_next_sequence b)]"
      by metis
    with False show ?thesis by (simp add: None word_gt_0)
  qed
next
  case (Some a)
  show ?thesis
  proof (cases "checked_add a 1")
    case None
    then have "unat a = 2 ^ 64 - 1"
      using unat_below [of a] by (simp add: checked_add_None)
    then have "[low..<unat (lb_next_sequence b)] = []"
      using unat_below [of "lb_next_sequence b"] by (simp add: low_def Some)
    moreover have "set (map (unat \<circ> lr_sequence) rs) \<subseteq> set []"
      using sequences_subset(2) [OF inv, where after = after, folded rs_def low_def] unfolding calculation .
    then have "rs = []" by simp
    ultimately show ?thesis
      using None by (simp only: Some sequence_has_gap_def option.case list.map simp_thms)
  next
    case (Some e)
    then have e: "unat e = low"
      by (simp add: checked_add_Some low_def \<open>after = Some a\<close>)
    have "\<not> sequence_gap_from e rs (lb_next_sequence b) \<longleftrightarrow>
        map (unat \<circ> lr_sequence) rs = [unat e..<unat (lb_next_sequence b)]"
    proof (rule sequence_gap_from_exact)
      show "sorted_wrt (\<lambda>x y. lr_sequence x < lr_sequence y) rs"
        using inv by (simp add: rs_def log_inv_def sorted_wrt_filter)
      show "e \<le> lr_sequence r \<and> lr_sequence r < lb_next_sequence b" if "r \<in> set rs" for r
        using sequences_subset(2) [OF inv, where after = after, folded rs_def low_def] that
        by (auto simp: word_le_nat_alt word_less_nat_alt e)
    qed
    then show ?thesis
      using Some e by (simp add: \<open>after = Some a\<close> sequence_has_gap_def)
  qed
qed

section \<open>Properties\<close>

text \<open>C30. The product log never outgrows its budgets and loses nothing unaccounted: after any pushes
  and reported drops it holds at most the configured number of records and bytes, the byte
  counter is the sum of the messages, sequence numbers ascend, and every number ever assigned
  is either retained or counted as dropped.\<close>

theorem log_retention_bounded:
  "let b = fold log_step ops log_product in
   length (lb_records b) \<le> LOG_CAPACITY \<and>
   lb_retained_bytes b = message_bytes (lb_records b) \<and> lb_retained_bytes b \<le> LOG_RETENTION_MAX_BYTES \<and>
   sorted_wrt (\<lambda>x y. lr_sequence x < lr_sequence y) (lb_records b) \<and>
   unat (lb_next_sequence b) = length (lb_records b) + unat (lb_dropped_total b) + 1"
  using product_log.run_inv [of ops] product_log_pool.run_load [of ops] by (simp add: Let_def log_inv_def)

text \<open>C31. Tails tell the truth about gaps: a tail is reported without a gap exactly when its records
  carry every sequence number after the requested one up to the newest assigned.\<close>

theorem log_tail_gap_exact:
  assumes inv: "log_inv b"
  shows "\<not> lt_gap (log_tail_after after b) \<longleftrightarrow>
    map (unat \<circ> lr_sequence) (lt_records (log_tail_after after b)) =
      [Suc (case after of None \<Rightarrow> 0 | Some a \<Rightarrow> unat a)..<unat (lb_next_sequence b)]"
proof -
  let ?low = "Suc (case after of None \<Rightarrow> 0 | Some a \<Rightarrow> unat a)"
  let ?rs = "filter (is_after after) (lb_records b)"
  obtain ys truncated where tail:
    "collect_tail 0 LOG_TAIL_ENVELOPE_MAX_BYTES (filter (is_after after) (rev (lb_records b))) = (ys, truncated)"
    "lt_records (log_tail_after after b) = rev ys"
    "lt_gap (log_tail_after after b) \<longleftrightarrow> truncated \<or> (case after of
       None \<Rightarrow> lb_dropped_total b > 0 \<or> records_have_gap (rev ys)
     | Some a \<Rightarrow> sequence_has_gap a (rev ys) (lb_next_sequence b))"
    by (rule log_tail_decompose)
  have collected: "if truncated then length ys < length ?rs else rev ys = ?rs"
    using collect_tail_correct [OF tail(1) _ tail_limits] by (auto simp: rev_filter [symmetric] split: if_splits)
  show ?thesis
  proof (cases truncated)
    case True
    have "length ys < length [?low..<unat (lb_next_sequence b)]"
      using collected True strict_sorted_length_upt [OF sequences_subset [OF inv, where after = after]]
      by (simp only: length_map if_True)
    then have "length (map (unat \<circ> lr_sequence) (rev ys)) \<noteq> length [?low..<unat (lb_next_sequence b)]"
      by simp
    then have "map (unat \<circ> lr_sequence) (rev ys) \<noteq> [?low..<unat (lb_next_sequence b)]"
      by metis
    with True show ?thesis by (simp add: tail)
  next
    case False
    with collected have "rev ys = ?rs" by (simp only: if_False)
    with False show ?thesis
      unfolding tail using full_tail_gap [OF inv, where after = after] by (simp only: simp_thms)
  qed
qed

theorem log_tail_gap_exact_witness:
  "\<not> lt_gap (log_tail_after (Some 1) (fold log_step [LogPush 5 LogInfo CoreApi ''a'', LogPush 6 LogInfo CoreApi ''b''] log_product))"
proof -
  define b where "b = fold log_step [LogPush 5 LogInfo CoreApi ''a'', LogPush 6 LogInfo CoreApi ''b''] log_product"
  have "log_inv b"
    using product_log.run_inv unfolding b_def by blast
  from log_tail_gap_exact [OF this, of "Some 1"] show ?thesis
    unfolding b_def
    by (simp add: log_push_def log_product_def CORE_LOG_LINE_MAX_BYTES_def LOG_RETENTION_MAX_BYTES_def
        checked_add_def LOG_CAPACITY_def usize_add_def usize_max_def log_tail_after_def is_after_def
        encoded_record_upper_bound_def encoded_json_string_bytes_def encoded_byte_cost_def
        LOG_TAIL_MAX_RECORDS_def LOG_TAIL_MAX_BYTES_def LOG_TAIL_ENVELOPE_MAX_BYTES_def
        LOG_RECORD_FIXED_MAX_BYTES_def Let_def upt_rec)
qed

text \<open>Tails fit one delivery: at most the configured number of records, whose encoded upper
  bounds together with the envelope stay within the byte limit, and the records are the newest
  ones after the requested sequence, in order.\<close>

theorem log_tail_bounded:
  "length (lt_records (log_tail_after after b)) \<le> LOG_TAIL_MAX_RECORDS \<and>
   LOG_TAIL_ENVELOPE_MAX_BYTES + sum_list (map encoded_record_upper_bound (lt_records (log_tail_after after b)))
     \<le> LOG_TAIL_MAX_BYTES \<and>
   suffix (lt_records (log_tail_after after b)) (filter (is_after after) (lb_records b))"
proof -
  obtain ys truncated where tail:
    "collect_tail 0 LOG_TAIL_ENVELOPE_MAX_BYTES (filter (is_after after) (rev (lb_records b))) = (ys, truncated)"
    "lt_records (log_tail_after after b) = rev ys"
    using log_tail_decompose [of after b] by metis
  then show ?thesis
    using collect_tail_correct [OF tail(1) _ tail_limits]
    by (auto simp: rev_map [symmetric] sum_list_rev suffix_to_prefix rev_filter)
qed

text \<open>C32. A core that was replaced cannot write telemetry: as long as the running core is not
  replaced, publications of every other generation have no effect at all, in whatever order they
  arrive among those of the running core.\<close>

theorem stale_publications_ignored:
  assumes "list_all (\<lambda>op. published_by op \<noteq> None) ops"
  shows "fold store_step ops t =
    fold store_step (filter (\<lambda>op. published_by op = Some (ts_core_generation t)) ops) t"
  using assms
proof (induction ops arbitrary: t)
  case (Cons op ops)
  have "store_step op t = t" if "published_by op \<noteq> Some (ts_core_generation t)"
    using that Cons.prems
    by (cases op)
      (auto simp: store_publish_traffic_def store_publish_connections_def store_publish_log_def
        store_record_log_drop_def)
  moreover have "ts_core_generation (store_step op t) = ts_core_generation t"
    using Cons.prems
    by (cases op)
      (auto simp: store_publish_traffic_def store_publish_connections_def store_publish_log_def
        store_record_log_drop_def Let_def split: prod.splits sum.splits)
  ultimately show ?case
    using Cons by (cases "published_by op = Some (ts_core_generation t)") auto
qed simp

theorem stale_publications_ignored_witness:
  "let t = \<lparr>ts_core_generation = 2, ts_logs = log_product, ts_traffic_capacity = 3, ts_traffic_history = [],
        ts_latest_traffic = None, ts_connection_count = None, ts_upload_total_bytes = None,
        ts_download_total_bytes = None, ts_memory_bytes = None, ts_connections = []\<rparr>
   in fold store_step [StoreLogDrop 1 4, StoreConnections 1 9 9 9 None []] t = t"
  unfolding Let_def by (subst stale_publications_ignored) simp_all

text \<open>The store stays within its limits: whatever is published and whichever cores come and go,
  traffic history and connection list keep their capacities, the latest sample is the last of the
  history, and the log keeps its invariant.\<close>

theorem store_bounded:
  assumes "store_inv t"
  shows "store_inv (fold store_step ops t)"
  using assms
proof (induction ops arbitrary: t)
  case (Cons op ops)
  have "store_inv (store_step op t)"
  proof (cases op)
    case (StoreTraffic g x)
    with Cons.prems show ?thesis
      by (cases "ts_traffic_history t") (auto simp: store_publish_traffic_def store_inv_def Let_def)
  next
    case (StoreLog g ts l s m)
    obtain res logs where push: "log_push ts l s m (ts_logs t) = (res, logs)" by fastforce
    then have "log_inv logs"
      using Cons.prems by (auto simp: store_inv_def intro: log_push_inv)
    with push StoreLog Cons.prems show ?thesis
      by (cases res) (auto simp: store_publish_log_def store_inv_def)
  next
    case (StoreLogDrop g n)
    obtain res logs where drop: "log_record_external_drop n (ts_logs t) = (res, logs)" by fastforce
    then have "log_inv logs"
      using Cons.prems by (auto simp: store_inv_def intro: log_drop_inv)
    with drop StoreLogDrop Cons.prems show ?thesis
      by (cases res) (auto simp: store_record_log_drop_def store_inv_def)
  qed (use Cons.prems in \<open>auto simp: store_publish_connections_def store_replace_core_def store_inv_def\<close>)
  with Cons.IH show ?case by simp
qed simp

theorem store_bounded_witness:
  "let t = \<lparr>ts_core_generation = 2, ts_logs = log_product, ts_traffic_capacity = 3, ts_traffic_history = [],
        ts_latest_traffic = None, ts_connection_count = None, ts_upload_total_bytes = None,
        ts_download_total_bytes = None, ts_memory_bytes = None, ts_connections = []\<rparr>
   in store_inv (fold store_step [StoreLogDrop 2 4, StoreReplaceCore 3] t)"
  unfolding Let_def by (rule store_bounded) (simp add: store_inv_def log_product_inv)

end
