(* ===== verification/Yaml_Values.thy ===== *)
theory Yaml_Values
  imports Rust_Strings
begin

text \<open>
  YAML documents as the code handles them: the value tree of the \<open>serde_yaml_ng\<close> crate and
  the part of its interface that \<open>src/src/profile.rs\<close> and \<open>src/src/config.rs\<close> use.  A mapping
  keeps insertion order; \<open>insert\<close> replaces in place, \<open>remove\<close> moves the last entry into the
  gap, and two mappings are equal when they have the same entries in any order, as that
  crate documents.  The accessors look through tags, pattern matches of the code do not.
  Reading and writing YAML text stays a parameter of the components.

  Number tokens are kept apart by kind; a float is its bit pattern.
\<close>

section \<open>Values and mappings\<close>

datatype YamlNumber = PosInt u64 | NegInt "64 word" | Float u64

datatype Value =
    VNull
  | VBool bool
  | VNumber YamlNumber
  | VString string
  | VSequence "Value list"
  | VMapping "(Value \<times> Value) list"
  | VTagged string Value

type_synonym Mapping = "(Value \<times> Value) list"

fun untag :: "Value \<Rightarrow> Value" where
  "untag (VTagged t v) = untag v"
| "untag v = v"

definition as_str :: "Value \<Rightarrow> string option" where
  "as_str v = (case untag v of VString s \<Rightarrow> Some s | _ \<Rightarrow> None)"

definition as_bool :: "Value \<Rightarrow> bool option" where
  "as_bool v = (case untag v of VBool b \<Rightarrow> Some b | _ \<Rightarrow> None)"

definition as_mapping :: "Value \<Rightarrow> Mapping option" where
  "as_mapping v = (case untag v of VMapping m \<Rightarrow> Some m | _ \<Rightarrow> None)"

definition as_sequence :: "Value \<Rightarrow> Value list option" where
  "as_sequence v = (case untag v of VSequence vs \<Rightarrow> Some vs | _ \<Rightarrow> None)"

definition is_string :: "Value \<Rightarrow> bool" where
  "is_string v = (as_str v \<noteq> None)"

definition m_get :: "string \<Rightarrow> Mapping \<Rightarrow> Value option" where
  "m_get k m = map_of m (VString k)"

definition m_contains :: "string \<Rightarrow> Mapping \<Rightarrow> bool" where
  "m_contains k m = (m_get k m \<noteq> None)"

fun m_insert :: "Value \<Rightarrow> Value \<Rightarrow> Mapping \<Rightarrow> Mapping" where
  "m_insert k v [] = [(k, v)]"
| "m_insert k v ((k', v') # m) = (if k' = k then (k, v) # m else (k', v') # m_insert k v m)"

text \<open>The closing of a gap by the last entry.\<close>

definition fill_gap :: "Mapping \<Rightarrow> Mapping" where
  "fill_gap m = (if m = [] then [] else last m # butlast m)"

fun m_remove :: "Value \<Rightarrow> Mapping \<Rightarrow> Mapping" where
  "m_remove k [] = []"
| "m_remove k ((k', v') # m) = (if k' = k then fill_gap m else (k', v') # m_remove k m)"

text \<open>In-place update of the value under a key (\<open>get_mut\<close>).\<close>

fun m_update :: "(Value \<Rightarrow> Value) \<Rightarrow> Value \<Rightarrow> Mapping \<Rightarrow> Mapping" where
  "m_update f k [] = []"
| "m_update f k ((k', v') # m) = (if k' = k then (k', f v') # m else (k', v') # m_update f k m)"

text \<open>A change of the mapping inside a value, through its tags (\<open>as_mapping_mut\<close>).\<close>

fun map_mapping :: "(Mapping \<Rightarrow> Mapping) \<Rightarrow> Value \<Rightarrow> Value" where
  "map_mapping f (VMapping m) = VMapping (f m)"
| "map_mapping f (VTagged t v) = VTagged t (map_mapping f v)"
| "map_mapping f v = v"

definition m_wf :: "Mapping \<Rightarrow> bool" where
  "m_wf m = distinct (map fst m)"

text \<open>Unique keys at every level, which the mapping type of the crate guarantees.\<close>

function value_wf :: "Value \<Rightarrow> bool"
  and values_wf :: "Value list \<Rightarrow> bool"
  and entries_wf :: "Mapping \<Rightarrow> bool" where
  "value_wf v =
    (case v of
       VSequence vs \<Rightarrow> values_wf vs
     | VMapping m \<Rightarrow> m_wf m \<and> entries_wf m
     | VTagged t v \<Rightarrow> value_wf v
     | _ \<Rightarrow> True)"
| "values_wf [] = True"
| "values_wf (v # vs) = (value_wf v \<and> values_wf vs)"
| "entries_wf [] = True"
| "entries_wf ((k, v) # m) = (value_wf k \<and> value_wf v \<and> entries_wf m)"
  by pat_completeness auto
termination
  by (relation "measure
      (\<lambda>x. case x of Inl v \<Rightarrow> size v | Inr (Inl vs) \<Rightarrow> size_list size vs
         | Inr (Inr m) \<Rightarrow> size_list (size_prod size size) m)") auto

declare value_wf.simps [simp del]

section \<open>Equality\<close>

function value_eq :: "Value \<Rightarrow> Value \<Rightarrow> bool"
  and values_eq :: "Value list \<Rightarrow> Value list \<Rightarrow> bool"
  and entries_within :: "Mapping \<Rightarrow> Mapping \<Rightarrow> bool"
  and entry_among :: "Value \<Rightarrow> Value \<Rightarrow> Mapping \<Rightarrow> bool" where
  "value_eq v w =
    (case (v, w) of
       (VNull, VNull) \<Rightarrow> True
     | (VBool a, VBool b) \<Rightarrow> a = b
     | (VNumber a, VNumber b) \<Rightarrow> a = b
     | (VString a, VString b) \<Rightarrow> a = b
     | (VSequence as, VSequence bs) \<Rightarrow> values_eq as bs
     | (VMapping m, VMapping n) \<Rightarrow> length m = length n \<and> entries_within m n
     | (VTagged s a, VTagged t b) \<Rightarrow> s = t \<and> value_eq a b
     | _ \<Rightarrow> False)"
| "values_eq [] bs = (bs = [])"
| "values_eq (a # as) bs = (case bs of [] \<Rightarrow> False | b # bs \<Rightarrow> value_eq a b \<and> values_eq as bs)"
| "entries_within [] n = True"
| "entries_within ((k, v) # m) n = (entry_among k v n \<and> entries_within m n)"
| "entry_among k v [] = False"
| "entry_among k v ((k', v') # n) = (value_eq k k' \<and> value_eq v v' \<or> entry_among k v n)"
  by pat_completeness auto
termination
  by (relation "measures
      [\<lambda>x. case x of Inl (Inl (v, w)) \<Rightarrow> size v | Inl (Inr (as, bs)) \<Rightarrow> size_list size as
         | Inr (Inl (m, n)) \<Rightarrow> size_list (size_prod size size) m
         | Inr (Inr (k, v, n)) \<Rightarrow> size k + size v + 1,
       \<lambda>x. case x of Inr (Inr (k, v, n)) \<Rightarrow> length n | _ \<Rightarrow> 0]") auto

declare value_eq.simps [simp del]

section \<open>Depth\<close>

function yaml_depth :: "Value \<Rightarrow> nat"
  and seq_depth :: "Value list \<Rightarrow> nat"
  and map_depth :: "Mapping \<Rightarrow> nat" where
  "yaml_depth (VSequence vs) = 1 + seq_depth vs"
| "yaml_depth (VMapping m) = 1 + map_depth m"
| "yaml_depth (VTagged t v) = 1 + yaml_depth v"
| "yaml_depth VNull = 1"
| "yaml_depth (VBool b) = 1"
| "yaml_depth (VNumber n) = 1"
| "yaml_depth (VString s) = 1"
| "seq_depth [] = 0"
| "seq_depth (v # vs) = max (yaml_depth v) (seq_depth vs)"
| "map_depth [] = 0"
| "map_depth ((k, v) # m) = max (max (yaml_depth k) (yaml_depth v)) (map_depth m)"
  by pat_completeness auto
termination
  by (relation "measure
      (\<lambda>x. case x of Inl v \<Rightarrow> size v | Inr (Inl vs) \<Rightarrow> size_list size vs
         | Inr (Inr m) \<Rightarrow> size_list (size_prod size size) m)") auto

section \<open>Laws\<close>

lemma as_str_VString [simp]: "as_str (VString s) = Some s"
  by (simp add: as_str_def)

lemma as_bool_VBool [simp]: "as_bool (VBool b) = Some b"
  by (simp add: as_bool_def)

lemma as_mapping_VMapping [simp]: "as_mapping (VMapping m) = Some m"
  by (simp add: as_mapping_def)

lemma as_sequence_VSequence [simp]: "as_sequence (VSequence vs) = Some vs"
  by (simp add: as_sequence_def)

lemma m_get_insert [simp]:
  "m_get k (m_insert (VString k') v m) = (if k = k' then Some v else m_get k m)"
  by (induction m) (auto simp: m_get_def)

lemma map_of_m_insert [simp]: "map_of (m_insert k v m) = (map_of m)(k \<mapsto> v)"
  by (induction m) auto

lemma keys_m_insert: "fst ` set (m_insert k v m) = insert k (fst ` set m)"
proof (induction m)
  case (Cons p m)
  then show ?case by (cases p) (simp add: insert_commute)
qed simp

lemma m_wf_insert: "m_wf m \<Longrightarrow> m_wf (m_insert k v m)"
proof (induction m)
  case (Cons p m)
  then show ?case
    using keys_m_insert [of k v m] by (cases p) (auto simp: m_wf_def)
qed (simp add: m_wf_def)

lemma set_fill_gap [simp]: "set (fill_gap m) = set m"
  by (cases m rule: rev_cases) (auto simp: fill_gap_def)

lemma set_m_remove: "m_wf m \<Longrightarrow> set (m_remove k m) = {p \<in> set m. fst p \<noteq> k}"
  by (induction m) (force simp: m_wf_def)+

lemma distinct_fill_gap: "distinct (map fst m) \<Longrightarrow> distinct (map fst (fill_gap m))"
  by (cases m rule: rev_cases) (auto simp: fill_gap_def)

lemma m_wf_remove: "m_wf m \<Longrightarrow> m_wf (m_remove k m)"
proof (induction m)
  case (Cons p m)
  then show ?case
    using set_m_remove [of m k] by (cases p) (force simp: m_wf_def distinct_fill_gap)
qed (simp add: m_wf_def)

lemma map_of_iff: "m_wf m \<Longrightarrow> map_of m k = Some v \<longleftrightarrow> (k, v) \<in> set m"
  by (simp add: m_wf_def map_of_eq_Some_iff)

lemma map_of_m_remove:
  assumes "m_wf m"
  shows "map_of (m_remove k m) = (map_of m)(k := None)"
proof
  fix x
  have "map_of (m_remove k m) x = Some v \<longleftrightarrow> ((map_of m)(k := None)) x = Some v" for v
    using assms by (auto simp: map_of_iff m_wf_remove set_m_remove)
  then show "map_of (m_remove k m) x = ((map_of m)(k := None)) x"
    by (metis not_Some_eq)
qed

lemma keys_m_update [simp]: "map fst (m_update f k m) = map fst m"
  by (induction m) auto

lemma m_wf_update [simp]: "m_wf (m_update f k m) \<longleftrightarrow> m_wf m"
  by (simp add: m_wf_def)

lemma map_of_m_update:
  "map_of (m_update f k m) = (map_of m)(k := map_option f (map_of m k))"
  by (induction m) (auto simp: fun_eq_iff)

lemma yaml_depth_pos [simp]: "0 < yaml_depth v"
  by (cases v) auto

lemma values_wf_iff: "values_wf vs \<longleftrightarrow> (\<forall>v \<in> set vs. value_wf v)"
  by (induction vs) auto

lemma entries_wf_iff: "entries_wf m \<longleftrightarrow> (\<forall>(k, v) \<in> set m. value_wf k \<and> value_wf v)"
  by (induction m) auto

lemma value_wf_simps [simp]:
  "value_wf VNull" "value_wf (VBool b)" "value_wf (VNumber n)" "value_wf (VString s)"
  "value_wf (VSequence vs) \<longleftrightarrow> (\<forall>v \<in> set vs. value_wf v)"
  "value_wf (VMapping m) \<longleftrightarrow> m_wf m \<and> (\<forall>(k, v) \<in> set m. value_wf k \<and> value_wf v)"
  "value_wf (VTagged t v) \<longleftrightarrow> value_wf v"
  by (simp_all add: value_wf.simps values_wf_iff entries_wf_iff)

lemma set_m_insert: "set (m_insert k v m) \<subseteq> insert (k, v) (set m)"
  by (induction m) (auto split: if_splits)

lemma value_wf_insert:
  "value_wf (VMapping m) \<Longrightarrow> value_wf k \<Longrightarrow> value_wf v \<Longrightarrow> value_wf (VMapping (m_insert k v m))"
  using set_m_insert [of k v m] by (auto simp: m_wf_insert)

lemma value_wf_remove: "value_wf (VMapping m) \<Longrightarrow> value_wf (VMapping (m_remove k m))"
  by (auto simp: m_wf_remove set_m_remove)

lemma set_m_update: "(j, w) \<in> set (m_update f k m) \<Longrightarrow> \<exists>v. (j, v) \<in> set m \<and> (w = v \<or> j = k \<and> w = f v)"
  by (induction m) (force split: if_splits)+

lemma value_wf_update:
  assumes "value_wf (VMapping m)" and "\<And>v. value_wf v \<Longrightarrow> value_wf (f v)"
  shows "value_wf (VMapping (m_update f k m))"
  using assms by (fastforce dest: set_m_update)

lemma m_update_id: "(\<And>v. map_of m k = Some v \<Longrightarrow> f v = v) \<Longrightarrow> m_update f k m = m"
  by (induction m) auto

lemma m_get_update [simp]:
  "m_get k (m_update f (VString k') m) = (if k = k' then map_option f (m_get k m) else m_get k m)"
  by (auto simp: m_get_def map_of_m_update)

lemma m_get_remove:
  "m_wf m \<Longrightarrow> m_get k (m_remove (VString k') m) = (if k = k' then None else m_get k m)"
  by (simp add: m_get_def map_of_m_remove)

lemma m_get_in: "m_get k m = Some v \<Longrightarrow> (VString k, v) \<in> set m"
  by (simp add: m_get_def map_of_SomeD)

lemma m_insert_fresh: "k \<notin> fst ` set m \<Longrightarrow> m_insert k v m = m @ [(k, v)]"
  by (induction m) auto

lemma values_eq_iff: "values_eq as bs \<longleftrightarrow> list_all2 value_eq as bs"
  by (induction as arbitrary: bs) (auto simp: list_all2_Cons1 split: list.splits)

lemma entry_among_iff: "entry_among k v n \<longleftrightarrow> (\<exists>(k', v') \<in> set n. value_eq k k' \<and> value_eq v v')"
  by (induction n) auto

lemma entries_within_iff:
  "entries_within m n \<longleftrightarrow> (\<forall>(k, v) \<in> set m. \<exists>(k', v') \<in> set n. value_eq k k' \<and> value_eq v v')"
  by (induction m) (force simp: entry_among_iff)+

lemma value_eq_simps [simp]:
  "value_eq VNull VNull" "value_eq (VBool a) (VBool b) \<longleftrightarrow> a = b"
  "value_eq (VNumber i) (VNumber j) \<longleftrightarrow> i = j" "value_eq (VString s) (VString t) \<longleftrightarrow> s = t"
  "value_eq (VTagged s v) (VTagged t w) \<longleftrightarrow> s = t \<and> value_eq v w"
  "value_eq (VSequence vs) (VSequence ws) \<longleftrightarrow> list_all2 value_eq vs ws"
  "value_eq (VMapping m) (VMapping n) \<longleftrightarrow>
    length m = length n \<and> (\<forall>(k, v) \<in> set m. \<exists>(k', v') \<in> set n. value_eq k k' \<and> value_eq v v')"
  by (simp_all add: value_eq.simps values_eq_iff entries_within_iff)

lemma value_eq_refl [simp]: "value_eq v v"
proof (induction v)
  case (VSequence vs)
  then show ?case by (simp add: list_all2_same)
next
  case (VMapping m)
  then show ?case by (fastforce simp: prod_set_simps)
qed simp_all

end
