(* ===== verification/Config_Policy.thy ===== *)
theory Config_Policy
  imports Yaml_Values
begin

text \<open>
  The configuration policy of \<open>src/src/config.rs\<close>: the schema language, the validator, the
  removal of managed fields and the check that they are absent, together with the policy
  that is bundled from \<open>src/fixtures/mihomo/v1.19.28/config-policy.yaml\<close>.

  The validator walks value and schema together and reports the first violation with its
  path.  Its meaning is the relation \<open>conforms\<close>, which is stated by rules without paths and
  order; the validator decides it.

  \<open>Panic\<close> is not a variant of the error type of the code: it marks the places where the
  code calls \<open>expect\<close> or \<open>unreachable!\<close>.
\<close>

section \<open>Errors and paths\<close>

datatype ConfigError
  = PolicyInvalid
  | PolicyVersionMismatch
  | UnsupportedField string
  | UnsupportedVariant string string
  | InvalidShape string string
  | MissingDiscriminator string string
  | MissingField string
  | EmptyName string
  | DuplicateName string string
  | InvalidRoutingRule string string
  | UnavailableReference string string string
  | InvalidAuthoritativeValue string
  | StagingRootUnavailable string
  | ProviderPathRequired string
  | ProviderUrlRequired string
  | ProviderUrlInvalid string
  | ProviderPathTraversal string
  | ProviderPathOutsideStagingRoot string
  | ProviderFileUnavailable string
  | CoreValidationFailed
  | PersistedConfigurationInvalid
  | ConfigSerializationFailed
  | Panic string

type_synonym checked = "(unit, ConfigError) result"

definition child_path :: "string \<Rightarrow> string \<Rightarrow> string" where
  "child_path parent child = (if parent = [] then child else parent @ ''.'' @ child)"

definition index_path :: "string \<Rightarrow> nat \<Rightarrow> string" where
  "index_path path index = path @ ''['' @ decimal index @ '']''"

definition invalid_shape :: "string \<Rightarrow> string \<Rightarrow> ConfigError" where
  "invalid_shape path expected = InvalidShape path expected"

section \<open>Schemas\<close>

datatype AdditionalFields = Reject | CorePassthrough

definition are_core_passthrough :: "AdditionalFields \<Rightarrow> bool" where
  "are_core_passthrough a = (a = CorePassthrough)"

datatype SchemaNode
  = SString
  | ManagedDrop
  | ManagedReplace
  | SSequence SchemaNode
  | SMapping "(string \<times> SchemaNode) list" "string list" AdditionalFields
  | SNamedMap SchemaNode
  | SDiscriminated string "(string \<times> SchemaNode) list" "(string \<times> (string \<times> SchemaNode) list) list"
      "string list" "(string \<times> string list) list" AdditionalFields

type_synonym Fields = "(string \<times> SchemaNode) list"

record ConfigPolicy =
  cp_policy_version :: u16
  cp_core_version :: string
  cp_additional_fields :: AdditionalFields
  cp_top_level :: Fields

definition is_managed :: "SchemaNode \<Rightarrow> bool" where
  "is_managed s = (s = ManagedDrop \<or> s = ManagedReplace)"

section \<open>Validation\<close>

fun validate_required_fields :: "Mapping \<Rightarrow> string list \<Rightarrow> string \<Rightarrow> checked" where
  "validate_required_fields m [] path = Ok ()"
| "validate_required_fields m (field # required) path =
    (if \<not> m_contains field m then Err (MissingField (child_path path field))
     else validate_required_fields m required path)"

function (sequential) validate_node :: "Value \<Rightarrow> SchemaNode \<Rightarrow> string \<Rightarrow> checked"
  and validate_items :: "Value list \<Rightarrow> SchemaNode \<Rightarrow> string \<Rightarrow> nat \<Rightarrow> checked"
  and validate_named :: "Mapping \<Rightarrow> SchemaNode \<Rightarrow> string \<Rightarrow> checked"
  and validate_variant_entries ::
    "Mapping \<Rightarrow> Fields \<Rightarrow> Fields \<Rightarrow> (string \<times> Fields) list \<Rightarrow> AdditionalFields \<Rightarrow> string \<Rightarrow> checked"
  and validate_known_mapping :: "Mapping \<Rightarrow> Fields \<Rightarrow> string \<Rightarrow> AdditionalFields \<Rightarrow> checked" where
  "validate_node v ManagedDrop path = Ok ()"
| "validate_node v ManagedReplace path = Ok ()"
| "validate_node v SString path = (if is_string v then Ok () else Err (invalid_shape path ''a string''))"
| "validate_node (VSequence vs) (SSequence item) path = validate_items vs item path 0"
| "validate_node v (SSequence item) path = Err (invalid_shape path ''a sequence'')"
| "validate_node (VMapping m) (SMapping flds required additional) path =
    and_then (validate_required_fields m required path)
      (\<lambda>_. validate_known_mapping m flds path additional)"
| "validate_node v (SMapping flds required additional) path = Err (invalid_shape path ''a mapping'')"
| "validate_node (VMapping m) (SNamedMap value_schema) path = validate_named m value_schema path"
| "validate_node v (SNamedMap value_schema) path = Err (invalid_shape path ''a mapping'')"
| "validate_node (VMapping m) (SDiscriminated discriminator common variants required variant_required additional) path =
    (case Option.bind (m_get discriminator m) as_str of
       None \<Rightarrow> Err (MissingDiscriminator path discriminator)
     | Some variant \<Rightarrow>
        (case map_of variants variant of
           None \<Rightarrow> Err (UnsupportedVariant (child_path path discriminator) variant)
         | Some variant_flds \<Rightarrow>
            and_then (validate_required_fields m required path) (\<lambda>_.
            and_then (case map_of variant_required variant of
                        None \<Rightarrow> Ok () | Some needed \<Rightarrow> validate_required_fields m needed path) (\<lambda>_.
            validate_variant_entries m common variant_flds variants additional path))))"
| "validate_node v (SDiscriminated discriminator common variants required variant_required additional) path =
    Err (invalid_shape path ''a mapping'')"
| "validate_items [] item path index = Ok ()"
| "validate_items (v # vs) item path index =
    and_then (validate_node v item (index_path path index)) (\<lambda>_. validate_items vs item path (Suc index))"
| "validate_named [] value_schema path = Ok ()"
| "validate_named ((k, v) # m) value_schema path =
    (case as_str k of
       None \<Rightarrow> Err (invalid_shape path ''a string-keyed mapping'')
     | Some name \<Rightarrow>
        if name = [] then Err (EmptyName path)
        else and_then (validate_node v value_schema (child_path path name))
          (\<lambda>_. validate_named m value_schema path))"
| "validate_variant_entries [] common variant_flds variants additional path = Ok ()"
| "validate_variant_entries ((k, v) # m) common variant_flds variants additional path =
    (case as_str k of
       None \<Rightarrow> Err (invalid_shape path ''a string-keyed mapping'')
     | Some key \<Rightarrow>
        (case (case map_of common key of Some s \<Rightarrow> Some s | None \<Rightarrow> map_of variant_flds key) of
           Some field_schema \<Rightarrow>
             and_then (validate_node v field_schema (child_path path key))
               (\<lambda>_. validate_variant_entries m common variant_flds variants additional path)
         | None \<Rightarrow>
             if list_ex (\<lambda>(_, flds). map_of flds key \<noteq> None) variants \<or>
                \<not> are_core_passthrough additional
             then Err (UnsupportedField (child_path path key))
             else validate_variant_entries m common variant_flds variants additional path))"
| "validate_known_mapping [] flds path additional = Ok ()"
| "validate_known_mapping ((k, v) # m) flds path additional =
    (case as_str k of
       None \<Rightarrow> Err (invalid_shape path ''a string-keyed mapping'')
     | Some key \<Rightarrow>
        (case map_of flds key of
           Some schema \<Rightarrow>
             and_then (validate_node v schema (child_path path key))
               (\<lambda>_. validate_known_mapping m flds path additional)
         | None \<Rightarrow>
             if \<not> are_core_passthrough additional then Err (UnsupportedField (child_path path key))
             else validate_known_mapping m flds path additional))"
  by pat_completeness auto
termination
  by (relation "measure
      (\<lambda>x. case x of
         Inl (Inl (v, s, p)) \<Rightarrow> size v
       | Inl (Inr (vs, s, p, i)) \<Rightarrow> size_list size vs
       | Inr (Inl (m, s, p)) \<Rightarrow> size_list (size_prod size size) m
       | Inr (Inr (Inl (m, c, f, vs, a, p))) \<Rightarrow> size_list (size_prod size size) m
       | Inr (Inr (Inr (m, f, p, a))) \<Rightarrow> size_list (size_prod size size) m)") auto

definition policy_validate :: "ConfigPolicy \<Rightarrow> Mapping \<Rightarrow> checked" where
  "policy_validate policy document =
    validate_known_mapping document (cp_top_level policy) [] (cp_additional_fields policy)"

section \<open>Managed fields\<close>

abbreviation fields_size :: "Fields \<Rightarrow> nat" where
  "fields_size \<equiv> size_list (size_prod (\<lambda>_. 0) size)"

lemma size_list_append: "size_list f (xs @ ys) = size_list f xs + size_list f ys"
  by (induction xs) auto

lemma fields_size_lookup: "map_of fs k = Some s \<Longrightarrow> size s < fields_size fs"
  by (induction fs) (auto split: if_splits)

lemma variants_size_lookup:
  "map_of variants k = Some fs \<Longrightarrow> fields_size fs < size_list (size_prod (\<lambda>_. 0) fields_size) variants"
  by (induction variants) (auto split: if_splits)

function strip_managed_mapping :: "Mapping \<Rightarrow> Fields \<Rightarrow> Mapping"
  and strip_managed_node :: "Value \<Rightarrow> SchemaNode \<Rightarrow> Value" where
  "strip_managed_mapping m [] = m"
| "strip_managed_mapping m ((field, schema) # flds) =
    strip_managed_mapping
      (if is_managed schema then m_remove (VString field) m
       else m_update (\<lambda>v. strip_managed_node v schema) (VString field) m) flds"
| "strip_managed_node v schema =
    (case (v, schema) of
       (VSequence vs, SSequence item) \<Rightarrow> VSequence (map (\<lambda>v. strip_managed_node v item) vs)
     | (VMapping m, SMapping flds required additional) \<Rightarrow> VMapping (strip_managed_mapping m flds)
     | (VMapping m, SNamedMap value_schema) \<Rightarrow>
         VMapping (map (\<lambda>(k, v). (k, strip_managed_node v value_schema)) m)
     | (VMapping m, SDiscriminated discriminator common variants required variant_required additional) \<Rightarrow>
         (case Option.bind (Option.bind (m_get discriminator m) as_str) (map_of variants) of
            None \<Rightarrow> v
          | Some variant \<Rightarrow> VMapping (strip_managed_mapping m (common @ variant)))
     | _ \<Rightarrow> v)"
  by pat_completeness auto
termination
  by (relation "measure (\<lambda>x. case x of Inl (m, fs) \<Rightarrow> fields_size fs | Inr (v, s) \<Rightarrow> size s)")
    (auto simp: size_list_append split: option.splits dest!: variants_size_lookup bind_eq_Some_conv [THEN iffD1])

function validate_managed_fields_absent :: "Mapping \<Rightarrow> Fields \<Rightarrow> string \<Rightarrow> checked"
  and validate_managed_node_absent :: "Value \<Rightarrow> SchemaNode \<Rightarrow> string \<Rightarrow> checked"
  and absent_items :: "Value list \<Rightarrow> SchemaNode \<Rightarrow> string \<Rightarrow> nat \<Rightarrow> checked"
  and absent_named :: "Mapping \<Rightarrow> SchemaNode \<Rightarrow> string \<Rightarrow> checked"
  and absent_entries :: "Mapping \<Rightarrow> Fields \<Rightarrow> Fields \<Rightarrow> string \<Rightarrow> checked" where
  "validate_managed_fields_absent m [] path = Ok ()"
| "validate_managed_fields_absent m ((field, schema) # flds) path =
    (case m_get field m of
       None \<Rightarrow> validate_managed_fields_absent m flds path
     | Some v \<Rightarrow>
        (case schema of
           ManagedDrop \<Rightarrow> Err PersistedConfigurationInvalid
         | ManagedReplace \<Rightarrow> validate_managed_fields_absent m flds path
         | _ \<Rightarrow> and_then (validate_managed_node_absent v schema (child_path path field))
                 (\<lambda>_. validate_managed_fields_absent m flds path)))"
| "validate_managed_node_absent v schema path =
    (case (v, schema) of
       (_, ManagedDrop) \<Rightarrow> Err PersistedConfigurationInvalid
     | (_, ManagedReplace) \<Rightarrow> Ok ()
     | (VSequence vs, SSequence item) \<Rightarrow> absent_items vs item path 0
     | (VMapping m, SMapping flds required additional) \<Rightarrow> validate_managed_fields_absent m flds path
     | (VMapping m, SNamedMap value_schema) \<Rightarrow> absent_named m value_schema path
     | (VMapping m, SDiscriminated discriminator common variants required variant_required additional) \<Rightarrow>
         (case Option.bind (Option.bind (m_get discriminator m) as_str) (map_of variants) of
            None \<Rightarrow> Err PersistedConfigurationInvalid
          | Some variant \<Rightarrow> absent_entries m common variant path)
     | _ \<Rightarrow> Ok ())"
| "absent_items [] item path index = Ok ()"
| "absent_items (v # vs) item path index =
    and_then (validate_managed_node_absent v item (index_path path index))
      (\<lambda>_. absent_items vs item path (Suc index))"
| "absent_named [] value_schema path = Ok ()"
| "absent_named ((k, v) # m) value_schema path =
    (case as_str k of
       None \<Rightarrow> Err PersistedConfigurationInvalid
     | Some name \<Rightarrow>
        and_then (validate_managed_node_absent v value_schema (child_path path name))
          (\<lambda>_. absent_named m value_schema path))"
| "absent_entries [] common variant path = Ok ()"
| "absent_entries ((k, v) # m) common variant path =
    (case as_str k of
       None \<Rightarrow> Err PersistedConfigurationInvalid
     | Some field \<Rightarrow>
        (case (case map_of common field of Some s \<Rightarrow> Some s | None \<Rightarrow> map_of variant field) of
           None \<Rightarrow> absent_entries m common variant path
         | Some schema \<Rightarrow>
             if schema = ManagedDrop then Err PersistedConfigurationInvalid
             else and_then (validate_managed_node_absent v schema (child_path path field))
               (\<lambda>_. absent_entries m common variant path)))"
  by pat_completeness auto
termination
  by (relation "measures
      [\<lambda>x. case x of
         Inl (Inl (m, fs, p)) \<Rightarrow> fields_size fs
       | Inl (Inr (v, s, p)) \<Rightarrow> size s
       | Inr (Inl (vs, s, p, i)) \<Rightarrow> size s
       | Inr (Inr (Inl (m, s, p))) \<Rightarrow> size s
       | Inr (Inr (Inr (m, c, vf, p))) \<Rightarrow> fields_size c + fields_size vf,
       \<lambda>x. case x of
         Inr (Inl (vs, s, p, i)) \<Rightarrow> Suc (length vs)
       | Inr (Inr (Inl (m, s, p))) \<Rightarrow> Suc (length m)
       | Inr (Inr (Inr (m, c, vf, p))) \<Rightarrow> Suc (length m)
       | _ \<Rightarrow> 0]")
    (auto split: option.splits if_splits
      dest!: variants_size_lookup fields_size_lookup bind_eq_Some_conv [THEN iffD1])

declare strip_managed_node.simps [simp del] validate_managed_node_absent.simps [simp del]

section \<open>The bundled policy\<close>

definition string_sequence_schema :: SchemaNode where
  "string_sequence_schema = SSequence SString"

definition proxy_schema :: SchemaNode where
  "proxy_schema = SMapping [(''name'', SString), (''type'', SString)] [''name'', ''type''] CorePassthrough"

definition proxy_group_schema :: SchemaNode where
  "proxy_group_schema = SMapping
    [(''name'', SString), (''proxies'', string_sequence_schema), (''type'', SString),
     (''use'', string_sequence_schema)] [''name'', ''type''] CorePassthrough"

definition provider_schema :: "SchemaNode \<Rightarrow> SchemaNode" where
  "provider_schema payload = SDiscriminated ''type''
    [(''payload'', payload), (''type'', SString)]
    [(''file'', [(''path'', SString)]),
     (''http'', [(''path'', SString), (''url'', SString)]),
     (''inline'', [])]
    [''type'']
    [(''file'', [''path'']), (''http'', [''url'']), (''inline'', [''payload''])]
    CorePassthrough"

definition dns_fields :: Fields where
  "dns_fields =
    [(''enable'', ManagedReplace), (''enhanced-mode'', ManagedReplace),
     (''fake-ip-filter'', ManagedReplace), (''fake-ip-filter-mode'', ManagedReplace),
     (''fake-ip-range'', ManagedReplace), (''fake-ip-range6'', ManagedReplace),
     (''fallback'', ManagedReplace), (''ipv6'', ManagedReplace),
     (''listen'', ManagedDrop), (''listen-routing-mark'', ManagedDrop)]"

definition ntp_fields :: Fields where
  "ntp_fields = [(''write-to-system'', ManagedDrop)]"

definition bundled_top_level :: Fields where
  "bundled_top_level =
    [(''allow-lan'', ManagedReplace), (''authentication'', ManagedDrop), (''bind-address'', ManagedDrop),
     (''dns'', SMapping dns_fields [] CorePassthrough),
     (''external-controller'', ManagedDrop), (''external-controller-cors'', ManagedDrop),
     (''external-controller-pipe'', ManagedDrop), (''external-controller-routing-mark'', ManagedDrop),
     (''external-controller-tls'', ManagedDrop), (''external-controller-unix'', ManagedReplace),
     (''external-doh-server'', ManagedDrop), (''external-ui'', ManagedDrop),
     (''external-ui-name'', ManagedDrop), (''external-ui-url'', ManagedDrop),
     (''geo-auto-update'', ManagedReplace), (''inbound-mptcp'', ManagedDrop), (''inbound-tfo'', ManagedDrop),
     (''interface-name'', ManagedDrop), (''iptables'', ManagedDrop), (''ipv6'', ManagedReplace),
     (''lan-allowed-ips'', ManagedDrop), (''lan-disallowed-ips'', ManagedDrop), (''listeners'', ManagedDrop),
     (''mixed-port'', ManagedDrop), (''mode'', ManagedReplace),
     (''ntp'', SMapping ntp_fields [] CorePassthrough),
     (''port'', ManagedDrop),
     (''proxies'', SSequence proxy_schema),
     (''proxy-groups'', SSequence proxy_group_schema),
     (''proxy-providers'', SNamedMap (provider_schema (SSequence proxy_schema))),
     (''redir-port'', ManagedDrop),
     (''rule-providers'', SNamedMap (provider_schema string_sequence_schema)),
     (''rules'', ManagedReplace), (''secret'', ManagedReplace), (''skip-auth-prefixes'', ManagedDrop),
     (''sniffer'', ManagedReplace), (''socks-port'', ManagedDrop), (''ss-config'', ManagedDrop),
     (''sub-rules'', SNamedMap string_sequence_schema),
     (''tproxy-port'', ManagedDrop), (''tuic-server'', ManagedDrop), (''tun'', ManagedReplace),
     (''tunnels'', ManagedDrop), (''vmess-config'', ManagedDrop)]"

definition bundled_policy :: ConfigPolicy where
  "bundled_policy = \<lparr>cp_policy_version = 1, cp_core_version = ''v1.19.28'',
     cp_additional_fields = CorePassthrough, cp_top_level = bundled_top_level\<rparr>"

section \<open>Conformance\<close>

definition variant_field :: "Fields \<Rightarrow> Fields \<Rightarrow> string \<Rightarrow> SchemaNode option" where
  "variant_field common variant key =
    (case map_of common key of Some s \<Rightarrow> Some s | None \<Rightarrow> map_of variant key)"

text \<open>
  The entries of a mapping against a lookup of field schemas: every key is a string, a known
  field meets its schema, an unknown one is let through only if the last argument allows it.
\<close>

inductive conforms :: "Value \<Rightarrow> SchemaNode \<Rightarrow> bool" where
  conforms_drop: "conforms v ManagedDrop"
| conforms_replace: "conforms v ManagedReplace"
| conforms_string: "is_string v \<Longrightarrow> conforms v SString"
| conforms_sequence: "(\<And>v. v \<in> set vs \<Longrightarrow> conforms v item) \<Longrightarrow> conforms (VSequence vs) (SSequence item)"
| conforms_mapping:
    "\<lbrakk>\<And>f. f \<in> set required \<Longrightarrow> m_contains f m;
      \<And>k v. (k, v) \<in> set m \<Longrightarrow> \<exists>key. as_str k = Some key \<and>
        (\<forall>s. map_of flds key = Some s \<longrightarrow> conforms v s) \<and>
        (map_of flds key = None \<longrightarrow> are_core_passthrough additional)\<rbrakk>
     \<Longrightarrow> conforms (VMapping m) (SMapping flds required additional)"
| conforms_named:
    "(\<And>k v. (k, v) \<in> set m \<Longrightarrow> \<exists>name. as_str k = Some name \<and> name \<noteq> [] \<and> conforms v schema)
     \<Longrightarrow> conforms (VMapping m) (SNamedMap schema)"
| conforms_discriminated:
    "\<lbrakk>m_get discriminator m = Some d; as_str d = Some variant; map_of variants variant = Some variant_flds;
      \<And>f. f \<in> set required \<Longrightarrow> m_contains f m;
      \<And>needed f. map_of variant_required variant = Some needed \<Longrightarrow> f \<in> set needed \<Longrightarrow> m_contains f m;
      \<And>k v. (k, v) \<in> set m \<Longrightarrow> \<exists>key. as_str k = Some key \<and>
        (\<forall>s. variant_field common variant_flds key = Some s \<longrightarrow> conforms v s) \<and>
        (variant_field common variant_flds key = None \<longrightarrow>
           \<not> list_ex (\<lambda>(_, flds). map_of flds key \<noteq> None) variants \<and> are_core_passthrough additional)\<rbrakk>
     \<Longrightarrow> conforms (VMapping m)
          (SDiscriminated discriminator common variants required variant_required additional)"

inductive_simps conforms_simps:
  "conforms v ManagedDrop" "conforms v ManagedReplace" "conforms v SString" "conforms v (SSequence item)"
  "conforms v (SMapping flds required additional)" "conforms v (SNamedMap schema)"
  "conforms v (SDiscriminated discriminator common variants required variant_required additional)"

lemma validate_required_fields_Ok:
  "validate_required_fields m required path = Ok () \<longleftrightarrow> (\<forall>f \<in> set required. m_contains f m)"
  by (induction required) auto

lemma validate_decides:
  "validate_node v schema path = Ok () \<longleftrightarrow> conforms v schema"
  "validate_items vs schema path index = Ok () \<longleftrightarrow> (\<forall>v \<in> set vs. conforms v schema)"
  "validate_named m schema path = Ok () \<longleftrightarrow>
    (\<forall>(k, v) \<in> set m. \<exists>name. as_str k = Some name \<and> name \<noteq> [] \<and> conforms v schema)"
  "validate_variant_entries m common variant_flds variants additional path = Ok () \<longleftrightarrow>
    (\<forall>(k, v) \<in> set m. \<exists>key. as_str k = Some key \<and>
        (\<forall>s. variant_field common variant_flds key = Some s \<longrightarrow> conforms v s) \<and>
        (variant_field common variant_flds key = None \<longrightarrow>
           \<not> list_ex (\<lambda>(_, flds). map_of flds key \<noteq> None) variants \<and> are_core_passthrough additional))"
  "validate_known_mapping m flds path additional = Ok () \<longleftrightarrow>
    (\<forall>(k, v) \<in> set m. \<exists>key. as_str k = Some key \<and>
        (\<forall>s. map_of flds key = Some s \<longrightarrow> conforms v s) \<and>
        (map_of flds key = None \<longrightarrow> are_core_passthrough additional))"
proof (induction v schema path and vs schema path index and m schema path
    and m common variant_flds variants additional path and m flds path additional
    rule: validate_node_validate_items_validate_named_validate_variant_entries_validate_known_mapping.induct)
qed (auto simp: conforms_simps result_simps validate_required_fields_Ok variant_field_def bind_eq_Some_conv
    split: option.splits if_splits)

section \<open>Laws of the policy\<close>

lemma validate_no_panic:
  "validate_node v schema path \<noteq> Err (Panic t)"
  "validate_items vs schema path index \<noteq> Err (Panic t)"
  "validate_named m schema path \<noteq> Err (Panic t)"
  "validate_variant_entries m common variant_flds variants additional path \<noteq> Err (Panic t)"
  "validate_known_mapping m flds path additional \<noteq> Err (Panic t)"
proof -
  have required: "validate_required_fields m required path \<noteq> Err (Panic t)" for m required path
    by (induction required) auto
  show "validate_node v schema path \<noteq> Err (Panic t)"
    "validate_items vs schema path index \<noteq> Err (Panic t)"
    "validate_named m schema path \<noteq> Err (Panic t)"
    "validate_variant_entries m common variant_flds variants additional path \<noteq> Err (Panic t)"
    "validate_known_mapping m flds path additional \<noteq> Err (Panic t)"
    by (induction v schema path and vs schema path index and m schema path
        and m common variant_flds variants additional path and m flds path additional
        rule: validate_node_validate_items_validate_named_validate_variant_entries_validate_known_mapping.induct)
      (auto simp: result_simps invalid_shape_def required split: option.splits)
qed

lemma policy_validate_conforms:
  "policy_validate policy document = Ok () \<longleftrightarrow>
    conforms (VMapping document) (SMapping (cp_top_level policy) [] (cp_additional_fields policy))"
  by (auto simp: policy_validate_def validate_decides conforms_simps)

lemma policy_validate_field:
  assumes "policy_validate policy document = Ok ()"
    and "m_get f document = Some v" "map_of (cp_top_level policy) f = Some s"
  shows "conforms v s"
  using assms m_get_in [OF assms(2)] by (force simp: policy_validate_def validate_decides)

text \<open>Schemas without managed nodes leave values alone; schemas without dropped ones admit them.\<close>

fun managed_free :: "SchemaNode \<Rightarrow> bool" where
  "managed_free (SSequence item) = managed_free item"
| "managed_free (SMapping flds required additional) = list_all (\<lambda>(_, s). managed_free s) flds"
| "managed_free (SNamedMap schema) = managed_free schema"
| "managed_free (SDiscriminated d common variants required vr additional) =
    (list_all (\<lambda>(_, s). managed_free s) common \<and>
     list_all (\<lambda>(_, vf). list_all (\<lambda>(_, s). managed_free s) vf) variants)"
| "managed_free SString = True"
| "managed_free ManagedDrop = False"
| "managed_free ManagedReplace = False"

lemma list_all_lookup: "list_all (\<lambda>(_, s). P s) flds \<Longrightarrow> map_of flds f = Some s \<Longrightarrow> P s"
  by (auto simp: list_all_iff dest: map_of_SomeD)

lemma managed_free_not_managed: "managed_free s \<Longrightarrow> \<not> is_managed s"
  by (cases s) (auto simp: is_managed_def)

lemma strip_managed_free:
  "list_all (\<lambda>(_, s). managed_free s) flds \<Longrightarrow> strip_managed_mapping m flds = m"
  "managed_free s \<Longrightarrow> strip_managed_node v s = v"
proof (induction m flds and v s rule: strip_managed_mapping_strip_managed_node.induct)
  case (2 m field schema flds)
  then show ?case by (simp add: managed_free_not_managed m_update_id)
next
  case (3 v s)
  show ?case
  proof (cases v)
    case (VSequence vs)
    with 3 show ?thesis
      by (cases s) (auto simp: strip_managed_node.simps intro: map_idI)
  next
    case (VMapping m)
    show ?thesis
    proof (cases s)
      case (SDiscriminated d common variants required vr additional)
      have "strip_managed_mapping m (common @ vf) = m" if "map_of variants n = Some vf"
        "Option.bind (m_get d m) as_str = Some n" for n vf
        using 3(4) [OF refl VMapping SDiscriminated] that 3(5) VMapping SDiscriminated
          list_all_lookup [of "list_all (\<lambda>(_, s). managed_free s)" variants n vf] by auto
      then show ?thesis
        by (auto simp: strip_managed_node.simps VMapping SDiscriminated bind_eq_Some_conv split: option.splits)
    qed (use 3 VMapping in \<open>auto simp: strip_managed_node.simps intro: map_idI\<close>)
  qed (simp_all add: strip_managed_node.simps)
qed simp

lemma map_of_strip:
  assumes "distinct (map fst flds)" "m_wf m"
  shows "m_get f (strip_managed_mapping m flds) =
    (case map_of flds f of
       None \<Rightarrow> m_get f m
     | Some s \<Rightarrow> if is_managed s then None else map_option (\<lambda>v. strip_managed_node v s) (m_get f m))"
  using assms
proof (induction flds arbitrary: m)
  case (Cons fs flds)
  obtain g s where fs: "fs = (g, s)" by (cases fs)
  define m' where "m' = (if is_managed s then m_remove (VString g) m
    else m_update (\<lambda>v. strip_managed_node v s) (VString g) m)"
  have "m_wf m'"
    using Cons.prems by (simp add: m'_def m_wf_remove)
  moreover have "strip_managed_mapping m (fs # flds) = strip_managed_mapping m' flds"
    by (simp add: fs m'_def)
  ultimately have "m_get f (strip_managed_mapping m (fs # flds)) =
    (case map_of flds f of
       None \<Rightarrow> m_get f m'
     | Some s \<Rightarrow> if is_managed s then None else map_option (\<lambda>v. strip_managed_node v s) (m_get f m'))"
    using Cons by (simp add: fs)
  moreover have "m_get f m' = (if f = g then if is_managed s then None
      else map_option (\<lambda>v. strip_managed_node v s) (m_get f m) else m_get f m)"
    using Cons.prems by (simp add: m'_def m_get_remove)
  moreover have "map_of flds g = None"
    using Cons.prems by (simp add: fs map_of_eq_None_iff)
  ultimately show ?case
    by (auto simp: fs split: option.splits)
qed simp

lemma value_wf_map_values:
  "value_wf (VMapping m) \<Longrightarrow> (\<And>k v. (k, v) \<in> set m \<Longrightarrow> value_wf v \<Longrightarrow> value_wf (g v)) \<Longrightarrow>
    value_wf (VMapping (map (\<lambda>(k, v). (k, g v)) m))"
  by (auto simp: m_wf_def comp_def case_prod_unfold)

lemma value_wf_strip:
  "value_wf (VMapping m) \<Longrightarrow> value_wf (VMapping (strip_managed_mapping m flds))"
  "value_wf v \<Longrightarrow> value_wf (strip_managed_node v s)"
proof (induction m flds and v s rule: strip_managed_mapping_strip_managed_node.induct)
  case (2 m field schema flds)
  then show ?case by (simp add: value_wf_remove value_wf_update del: value_wf_simps)
next
  case (3 v s)
  show ?case
  proof (cases v)
    case (VSequence vs)
    with 3 show ?thesis
      by (cases s) (auto simp: strip_managed_node.simps)
  next
    case (VMapping m)
    show ?thesis
    proof (cases s)
      case (SMapping flds required additional)
      then show ?thesis using 3(2) [OF refl VMapping SMapping] 3(5) VMapping
        by (simp add: strip_managed_node.simps del: value_wf_simps)
    next
      case (SNamedMap schema)
      then show ?thesis
        using 3(3) [OF refl VMapping SNamedMap] 3(5) VMapping value_wf_map_values [of m "\<lambda>v. strip_managed_node v schema"]
        by (simp add: strip_managed_node.simps del: value_wf_simps)
    next
      case (SDiscriminated d common variants required vr additional)
      then show ?thesis
        using 3(4) [OF refl VMapping SDiscriminated] 3(5) VMapping
        by (simp add: strip_managed_node.simps del: value_wf_simps split: option.splits)
    qed (use 3(5) VMapping in \<open>simp_all add: strip_managed_node.simps\<close>)
  qed (use 3(5) in \<open>simp_all add: strip_managed_node.simps\<close>)
qed simp

fun drop_free :: "SchemaNode \<Rightarrow> bool" where
  "drop_free (SSequence item) = drop_free item"
| "drop_free (SMapping flds required additional) =
    (distinct (map fst flds) \<and> list_all (\<lambda>(_, s). drop_free s) flds)"
| "drop_free (SNamedMap schema) = drop_free schema"
| "drop_free (SDiscriminated d common variants required vr additional) =
    (list_all (\<lambda>(_, s). drop_free s) common \<and>
     list_all (\<lambda>(_, vf). list_all (\<lambda>(_, s). drop_free s) vf) variants)"
| "drop_free SString = True"
| "drop_free ManagedDrop = False"
| "drop_free ManagedReplace = True"

lemma absent_simps [simp]:
  "validate_managed_node_absent v ManagedDrop path = Err PersistedConfigurationInvalid"
  "validate_managed_node_absent v ManagedReplace path = Ok ()"
  "validate_managed_node_absent v SString path = Ok ()"
  "validate_managed_node_absent (VSequence vs) (SSequence item) path = absent_items vs item path 0"
  "validate_managed_node_absent (VMapping m) (SMapping flds required additional) path =
    validate_managed_fields_absent m flds path"
  "validate_managed_node_absent (VMapping m) (SNamedMap schema) path = absent_named m schema path"
  "validate_managed_node_absent (VMapping m) (SDiscriminated d common variants required vr additional) path =
    (case Option.bind (Option.bind (m_get d m) as_str) (map_of variants) of
       None \<Rightarrow> Err PersistedConfigurationInvalid
     | Some variant \<Rightarrow> absent_entries m common variant path)"
  by (cases v; simp add: validate_managed_node_absent.simps)+

lemma fields_absent_Ok:
  "validate_managed_fields_absent m flds path = Ok () \<longleftrightarrow>
    (\<forall>(f, s) \<in> set flds. \<forall>v. m_get f m = Some v \<longrightarrow>
       validate_managed_node_absent v s (child_path path f) = Ok ())"
proof (induction flds)
  case (Cons fs flds)
  obtain f s where "fs = (f, s)" by (cases fs)
  with Cons show ?case
    by (cases "m_get f m"; cases s) (auto simp: result_simps)
qed simp

lemma absent_items_Ok:
  "absent_items vs s path i = Ok () \<longleftrightarrow>
    (\<forall>j < length vs. validate_managed_node_absent (vs ! j) s (index_path path (i + j)) = Ok ())"
  by (induction vs arbitrary: i) (auto simp: result_simps All_less_Suc2)

lemma absent_named_Ok:
  "absent_named m s path = Ok () \<longleftrightarrow>
    (\<forall>(k, v) \<in> set m. \<exists>name. as_str k = Some name \<and>
       validate_managed_node_absent v s (child_path path name) = Ok ())"
  by (induction m) (auto simp: result_simps split: option.splits)

lemma absent_entries_Ok:
  "absent_entries m common variant path = Ok () \<longleftrightarrow>
    (\<forall>(k, v) \<in> set m. \<exists>name. as_str k = Some name \<and>
       (\<forall>s. variant_field common variant name = Some s \<longrightarrow>
          validate_managed_node_absent v s (child_path path name) = Ok ()))"
proof (induction m)
  case (Cons kv m)
  then show ?case
    by (cases kv) (auto simp: result_simps variant_field_def [symmetric] split: option.splits)
qed simp

lemma drop_free_absent:
  "conforms v s \<Longrightarrow> drop_free s \<Longrightarrow> validate_managed_node_absent v s path = Ok ()"
proof (induction arbitrary: path rule: conforms.induct)
  case (conforms_sequence vs item)
  then show ?case by (simp add: absent_items_Ok)
next
  case (conforms_mapping required m flds additional)
  have "validate_managed_node_absent v s (child_path path f) = Ok ()"
    if "(f, s) \<in> set flds" "m_get f m = Some v" for f s v
    using that conforms_mapping.IH [of "VString f" v] m_get_in [of f m v] conforms_mapping.prems
    by (auto simp: list_all_iff)
  then show ?case by (auto simp: fields_absent_Ok)
next
  case (conforms_named m schema)
  then show ?case by (force simp: absent_named_Ok)
next
  case (conforms_discriminated discriminator m d variant variants variant_flds required variant_required
      common additional)
  have free: "drop_free s" if "variant_field common variant_flds f = Some s" for f s
    using that conforms_discriminated.prems conforms_discriminated.hyps(3)
    by (auto simp: variant_field_def dest: list_all_lookup split: option.splits)
  have "\<exists>name. as_str k = Some name \<and> (\<forall>s. variant_field common variant_flds name = Some s \<longrightarrow>
      validate_managed_node_absent v s (child_path path name) = Ok ())" if "(k, v) \<in> set m" for k v
    using conforms_discriminated.IH [OF that] free by blast
  with conforms_discriminated.hyps show ?case
    by (auto simp: absent_entries_Ok)
qed simp_all

section \<open>Properties\<close>

text \<open>C36. The validator decides conformance: it accepts a value under a schema exactly when the value
  conforms to it, whatever the path it reports from, and it accepts a document exactly when the
  document conforms to the top level of the policy.\<close>

theorem policy_validate_decides:
  "(validate_node v schema path = Ok () \<longleftrightarrow> conforms v schema) \<and>
   (policy_validate policy document = Ok () \<longleftrightarrow>
     conforms (VMapping document) (SMapping (cp_top_level policy) [] (cp_additional_fields policy)))"
  by (simp add: validate_decides policy_validate_conforms)

end
