(* ===== verification/Rules.thy ===== *)
theory Rules
  imports Rust_Strings Machines
begin

text \<open>
  The rule language and the local rule set (\<open>src/src/rule.rs\<close>).

  \<open>parse_rule\<close> dispatches on the rule type to the four parsers of the code.  The regex
  parser peels parameters off the right end in a loop (\<open>regex_params\<close>); the logical
  parser finds the end of a parenthesised payload with a scanner over characters
  (\<open>logical_scan\<close>) that skips escapes and character classes.  \<open>LocalRuleSet\<close> is the
  editable list with its revision; its operations take the set and return the result
  together with the set as it is afterwards, so that what an error leaves behind can
  be stated.  The YAML codec of \<open>from_yaml\<close> and \<open>to_yaml\<close> is a parameter.
\<close>

section \<open>Rule types\<close>

datatype RuleType
  = RtAnd | RtDomain | RtDomainKeyword | RtDomainRegex | RtDomainSuffix | RtDomainWildcard
  | RtDscp | RtDstPort | RtGeoIp | RtGeosite | RtInName | RtInPort
  | RtInType | RtInUser | RtIpAsn | RtIpCidr | RtIpCidr6 | RtIpSuffix
  | RtMatch | RtNetwork | RtNot | RtOr | RtProcessName | RtProcessNameRegex
  | RtProcessNameWildcard | RtProcessPath | RtProcessPathRegex | RtProcessPathWildcard | RtRematchName | RtRuleSet
  | RtSrcGeoIp | RtSrcIpAsn | RtSrcIpCidr | RtSrcIpSuffix | RtSrcPort | RtSubRule
  | RtUid

datatype RuleParseError
  = MissingRuleType
  | UnsupportedRuleType string
  | MissingPayload RuleType
  | MissingPolicyTarget RuleType
  | InvalidLogicalPayload RuleType

definition RuleType_parse :: "string \<Rightarrow> RuleParseError + RuleType" where
  "RuleType_parse v =
    (if v = ''AND'' then Ok RtAnd
     else if v = ''DOMAIN'' then Ok RtDomain
     else if v = ''DOMAIN-KEYWORD'' then Ok RtDomainKeyword
     else if v = ''DOMAIN-REGEX'' then Ok RtDomainRegex
     else if v = ''DOMAIN-SUFFIX'' then Ok RtDomainSuffix
     else if v = ''DOMAIN-WILDCARD'' then Ok RtDomainWildcard
     else if v = ''DSCP'' then Ok RtDscp
     else if v = ''DST-PORT'' then Ok RtDstPort
     else if v = ''GEOIP'' then Ok RtGeoIp
     else if v = ''GEOSITE'' then Ok RtGeosite
     else if v = ''IN-NAME'' then Ok RtInName
     else if v = ''IN-PORT'' then Ok RtInPort
     else if v = ''IN-TYPE'' then Ok RtInType
     else if v = ''IN-USER'' then Ok RtInUser
     else if v = ''IP-ASN'' then Ok RtIpAsn
     else if v = ''IP-CIDR'' then Ok RtIpCidr
     else if v = ''IP-CIDR6'' then Ok RtIpCidr6
     else if v = ''IP-SUFFIX'' then Ok RtIpSuffix
     else if v = ''MATCH'' then Ok RtMatch
     else if v = ''NETWORK'' then Ok RtNetwork
     else if v = ''NOT'' then Ok RtNot
     else if v = ''OR'' then Ok RtOr
     else if v = ''PROCESS-NAME'' then Ok RtProcessName
     else if v = ''PROCESS-NAME-REGEX'' then Ok RtProcessNameRegex
     else if v = ''PROCESS-NAME-WILDCARD'' then Ok RtProcessNameWildcard
     else if v = ''PROCESS-PATH'' then Ok RtProcessPath
     else if v = ''PROCESS-PATH-REGEX'' then Ok RtProcessPathRegex
     else if v = ''PROCESS-PATH-WILDCARD'' then Ok RtProcessPathWildcard
     else if v = ''REMATCH-NAME'' then Ok RtRematchName
     else if v = ''RULE-SET'' then Ok RtRuleSet
     else if v = ''SRC-GEOIP'' then Ok RtSrcGeoIp
     else if v = ''SRC-IP-ASN'' then Ok RtSrcIpAsn
     else if v = ''SRC-IP-CIDR'' then Ok RtSrcIpCidr
     else if v = ''SRC-IP-SUFFIX'' then Ok RtSrcIpSuffix
     else if v = ''SRC-PORT'' then Ok RtSrcPort
     else if v = ''SUB-RULE'' then Ok RtSubRule
     else if v = ''UID'' then Ok RtUid
     else if v = [] then Err MissingRuleType
     else Err (UnsupportedRuleType v))"

fun RuleType_as_str :: "RuleType \<Rightarrow> string" where
  "RuleType_as_str RtAnd = ''AND''"
| "RuleType_as_str RtDomain = ''DOMAIN''"
| "RuleType_as_str RtDomainKeyword = ''DOMAIN-KEYWORD''"
| "RuleType_as_str RtDomainRegex = ''DOMAIN-REGEX''"
| "RuleType_as_str RtDomainSuffix = ''DOMAIN-SUFFIX''"
| "RuleType_as_str RtDomainWildcard = ''DOMAIN-WILDCARD''"
| "RuleType_as_str RtDscp = ''DSCP''"
| "RuleType_as_str RtDstPort = ''DST-PORT''"
| "RuleType_as_str RtGeoIp = ''GEOIP''"
| "RuleType_as_str RtGeosite = ''GEOSITE''"
| "RuleType_as_str RtInName = ''IN-NAME''"
| "RuleType_as_str RtInPort = ''IN-PORT''"
| "RuleType_as_str RtInType = ''IN-TYPE''"
| "RuleType_as_str RtInUser = ''IN-USER''"
| "RuleType_as_str RtIpAsn = ''IP-ASN''"
| "RuleType_as_str RtIpCidr = ''IP-CIDR''"
| "RuleType_as_str RtIpCidr6 = ''IP-CIDR6''"
| "RuleType_as_str RtIpSuffix = ''IP-SUFFIX''"
| "RuleType_as_str RtMatch = ''MATCH''"
| "RuleType_as_str RtNetwork = ''NETWORK''"
| "RuleType_as_str RtNot = ''NOT''"
| "RuleType_as_str RtOr = ''OR''"
| "RuleType_as_str RtProcessName = ''PROCESS-NAME''"
| "RuleType_as_str RtProcessNameRegex = ''PROCESS-NAME-REGEX''"
| "RuleType_as_str RtProcessNameWildcard = ''PROCESS-NAME-WILDCARD''"
| "RuleType_as_str RtProcessPath = ''PROCESS-PATH''"
| "RuleType_as_str RtProcessPathRegex = ''PROCESS-PATH-REGEX''"
| "RuleType_as_str RtProcessPathWildcard = ''PROCESS-PATH-WILDCARD''"
| "RuleType_as_str RtRematchName = ''REMATCH-NAME''"
| "RuleType_as_str RtRuleSet = ''RULE-SET''"
| "RuleType_as_str RtSrcGeoIp = ''SRC-GEOIP''"
| "RuleType_as_str RtSrcIpAsn = ''SRC-IP-ASN''"
| "RuleType_as_str RtSrcIpCidr = ''SRC-IP-CIDR''"
| "RuleType_as_str RtSrcIpSuffix = ''SRC-IP-SUFFIX''"
| "RuleType_as_str RtSrcPort = ''SRC-PORT''"
| "RuleType_as_str RtSubRule = ''SUB-RULE''"
| "RuleType_as_str RtUid = ''UID''"

section \<open>Rule strings and parsed rules\<close>

datatype RuleString = RuleString (rule_text: string)

datatype RuleStringError = RuleStringTooLarge (actual_bytes: nat) (max_bytes: nat)

definition RuleString_new :: "string \<Rightarrow> nat \<Rightarrow> RuleStringError + RuleString" where
  "RuleString_new v limit =
    (if length v > limit then Err (RuleStringTooLarge (length v) limit) else Ok (RuleString v))"

record ParsedRule =
  pr_original :: RuleString
  pr_rule_type :: RuleType
  pr_payload :: "string option"
  pr_policy_target :: string
  pr_params :: "string list"

abbreviation comma :: char where "comma \<equiv> CHR '',''"

definition required_field :: "string option \<Rightarrow> RuleParseError \<Rightarrow> RuleParseError + string" where
  "required_field v e = (case v of Some s \<Rightarrow> if s \<noteq> [] then Ok s else Err e | None \<Rightarrow> Err e)"

definition is_rule_parameter :: "string \<Rightarrow> bool" where
  "is_rule_parameter v = (v = ''no-resolve'' \<or> v = ''src'')"

function regex_params :: "string \<Rightarrow> string list \<Rightarrow> string \<times> string list" where
  "regex_params rule_and_target params =
    (case rsplit_once comma rule_and_target of
       None \<Rightarrow> (rule_and_target, params)
     | Some (head, tail) \<Rightarrow>
         if \<not> is_rule_parameter (trim tail) \<or> comma \<notin> set head then (rule_and_target, params)
         else regex_params head (params @ [trim tail]))"
  by pat_completeness auto
termination
  by (relation "measure (length \<circ> fst)") (auto simp: rsplit_once_Some)

declare regex_params.simps [simp del]

definition parse_regex_rule :: "RuleString \<Rightarrow> RuleType \<Rightarrow> string \<Rightarrow> RuleParseError + ParsedRule" where
  "parse_regex_rule rule rule_type remainder =
    (let (rule_and_target, params) = regex_params remainder [] in
     and_then (ok_or (rsplit_once comma rule_and_target) (MissingPolicyTarget rule_type))
       (\<lambda>(payload, policy_target).
     and_then (required_field (Some (trim payload)) (MissingPayload rule_type)) (\<lambda>payload.
     and_then (required_field (Some (trim policy_target)) (MissingPolicyTarget rule_type)) (\<lambda>policy_target.
     Ok \<lparr>pr_original = rule, pr_rule_type = rule_type, pr_payload = Some payload,
         pr_policy_target = policy_target, pr_params = rev params\<rparr>))))"

fun next_field :: "string list \<Rightarrow> string option" where
  "next_field [] = None"
| "next_field (f # fs) = Some f"

definition parse_rule_without_payload :: "RuleString \<Rightarrow> RuleType \<Rightarrow> string \<Rightarrow> RuleParseError + ParsedRule" where
  "parse_rule_without_payload rule rule_type remainder =
    (let fields = map trim (split_on comma remainder) in
     and_then (required_field (next_field fields) (MissingPolicyTarget rule_type)) (\<lambda>policy_target.
     Ok \<lparr>pr_original = rule, pr_rule_type = rule_type, pr_payload = None,
         pr_policy_target = policy_target, pr_params = tl fields\<rparr>))"

definition parse_standard_rule :: "RuleString \<Rightarrow> RuleType \<Rightarrow> string \<Rightarrow> RuleParseError + ParsedRule" where
  "parse_standard_rule rule rule_type remainder =
    (let fields = map trim (split_on comma remainder) in
     and_then (required_field (next_field fields) (MissingPayload rule_type)) (\<lambda>payload.
     and_then (required_field (next_field (tl fields)) (MissingPolicyTarget rule_type)) (\<lambda>policy_target.
     Ok \<lparr>pr_original = rule, pr_rule_type = rule_type, pr_payload = Some payload,
         pr_policy_target = policy_target, pr_params = tl (tl fields)\<rparr>)))"

abbreviation backslash_ch :: string where "backslash_ch \<equiv> [CHR 0x5C]"

fun logical_scan :: "nat \<Rightarrow> bool \<Rightarrow> bool \<Rightarrow> nat \<Rightarrow> string list \<Rightarrow> nat option" where
  "logical_scan depth escaped in_character_class index [] = None"
| "logical_scan depth escaped in_character_class index (ch # rest) =
    (let next = index + length ch in
     if escaped then logical_scan depth False in_character_class next rest
     else if ch = backslash_ch then logical_scan depth True in_character_class next rest
     else if ch = ''['' then logical_scan depth escaped True next rest
     else if ch = '']'' then logical_scan depth escaped False next rest
     else if in_character_class then logical_scan depth escaped in_character_class next rest
     else if ch = ''('' then logical_scan (depth + 1) escaped in_character_class next rest
     else if ch = '')'' then
       (if depth = 0 then None
        else if depth - 1 = 0 then Some next
        else logical_scan (depth - 1) escaped in_character_class next rest)
     else if depth = 0 \<and> \<not> is_whitespace ch then None
     else logical_scan depth escaped in_character_class next rest)"

definition logical_payload_end :: "string \<Rightarrow> nat option" where
  "logical_payload_end v = logical_scan 0 False False 0 (utf8_chars v)"

definition parse_logical_rule :: "RuleString \<Rightarrow> RuleType \<Rightarrow> string \<Rightarrow> RuleParseError + ParsedRule" where
  "parse_logical_rule rule rule_type remainder =
    (let remainder = trim_start remainder in
     and_then (ok_or (logical_payload_end remainder) (InvalidLogicalPayload rule_type)) (\<lambda>payload_end.
     let payload = trim (take payload_end remainder) in
     and_then (ok_or (strip_prefix [comma] (trim_start (drop payload_end remainder)))
                (MissingPolicyTarget rule_type)) (\<lambda>tail.
     let fields = map trim (split_on comma tail) in
     and_then (required_field (next_field fields) (MissingPolicyTarget rule_type)) (\<lambda>policy_target.
     Ok \<lparr>pr_original = rule, pr_rule_type = rule_type, pr_payload = Some payload,
         pr_policy_target = policy_target, pr_params = tl fields\<rparr>))))"

fun parse_by_type :: "RuleType \<Rightarrow> RuleString \<Rightarrow> string \<Rightarrow> RuleParseError + ParsedRule" where
  "parse_by_type RtMatch rule remainder = parse_rule_without_payload rule RtMatch remainder"
| "parse_by_type RtAnd rule remainder = parse_logical_rule rule RtAnd remainder"
| "parse_by_type RtNot rule remainder = parse_logical_rule rule RtNot remainder"
| "parse_by_type RtOr rule remainder = parse_logical_rule rule RtOr remainder"
| "parse_by_type RtSubRule rule remainder = parse_logical_rule rule RtSubRule remainder"
| "parse_by_type RtDomainRegex rule remainder = parse_regex_rule rule RtDomainRegex remainder"
| "parse_by_type RtProcessNameRegex rule remainder = parse_regex_rule rule RtProcessNameRegex remainder"
| "parse_by_type RtProcessPathRegex rule remainder = parse_regex_rule rule RtProcessPathRegex remainder"
| "parse_by_type rt rule remainder = parse_standard_rule rule rt remainder"

definition parse_rule :: "RuleString \<Rightarrow> RuleParseError + ParsedRule" where
  "parse_rule rule =
    (case split_once comma (rule_text rule) of
       Some (rule_type, remainder) \<Rightarrow>
         and_then (RuleType_parse (trim rule_type)) (\<lambda>rt. parse_by_type rt rule remainder)
     | None \<Rightarrow> and_then (RuleType_parse (trim (rule_text rule))) (\<lambda>rt. parse_by_type rt rule []))"

section \<open>The local rule set\<close>

record LocalRuleSet =
  rs_revision :: u64
  rs_rules :: "RuleString list option"

datatype RuleSetError
  = RulesUninitialized
  | RevisionExhausted
  | RuleNotFound
  | RuleAmbiguous "nat list"
  | RuleAlreadyExists "nat list"
  | InvalidRule RuleParseError

datatype RulePlacement = Prepend | Append | Before RuleString | After RuleString

record RuleListEntry =
  rle_index :: nat
  rle_rule :: RuleString
  rle_parsed :: ParsedRule

record RuleListPage =
  rlp_initialized :: bool
  rlp_total :: nat
  rlp_offset :: nat
  rlp_entries :: "RuleListEntry list"

record RuleSetLimits =
  max_document_bytes :: nat
  max_rule_bytes :: nat
  max_rule_count :: nat

datatype RuleDocumentError
  = DocRulesUninitialized
  | DocumentTooLarge nat nat
  | TooManyRules nat nat
  | InvalidYaml string
  | InvalidRuleString nat RuleStringError
  | DocInvalidRule nat RuleParseError
  | SerializationFailed string

definition rule_set_limits_product :: RuleSetLimits where
  "rule_set_limits_product =
    \<lparr>max_document_bytes = 32 * 1024 * 1024, max_rule_bytes = 16 * 1024, max_rule_count = 20000\<rparr>"

definition rules_uninitialized :: LocalRuleSet where
  "rules_uninitialized = \<lparr>rs_revision = 0, rs_rules = None\<rparr>"

definition rules_initialized_at :: "RuleString list \<Rightarrow> u64 \<Rightarrow> LocalRuleSet" where
  "rules_initialized_at rules revision = \<lparr>rs_revision = revision, rs_rules = Some rules\<rparr>"

definition rules_initialized :: "RuleString list \<Rightarrow> LocalRuleSet" where
  "rules_initialized rules = rules_initialized_at rules 1"

definition next_revision :: "u64 \<Rightarrow> RuleSetError + u64" where
  "next_revision revision = ok_or (checked_add revision 1) RevisionExhausted"

definition matching_rule_indexes :: "RuleString list \<Rightarrow> RuleString \<Rightarrow> nat list" where
  "matching_rule_indexes rules target = filter (\<lambda>i. rules ! i = target) [0..<length rules]"

definition exact_rule_index :: "RuleString list \<Rightarrow> RuleString \<Rightarrow> RuleSetError + nat" where
  "exact_rule_index rules target =
    (case matching_rule_indexes rules target of
       [] \<Rightarrow> Err RuleNotFound
     | [index] \<Rightarrow> Ok index
     | matching_indexes \<Rightarrow> Err (RuleAmbiguous matching_indexes))"

definition rules_list_page :: "LocalRuleSet \<Rightarrow> nat \<Rightarrow> nat \<Rightarrow> RuleParseError + RuleListPage" where
  "rules_list_page rset offset limit =
    (case rs_rules rset of
       None \<Rightarrow> Ok \<lparr>rlp_initialized = False, rlp_total = 0, rlp_offset = offset, rlp_entries = []\<rparr>
     | Some rules \<Rightarrow>
         let end = min (min usize_max (offset + limit)) (length rules);
             page = (if offset \<le> end then take (end - offset) (drop offset rules) else [])
         in and_then
              (collect_result (\<lambda>(relative_index, rule).
                 and_then (parse_rule rule) (\<lambda>parsed.
                   Ok \<lparr>rle_index = offset + relative_index, rle_rule = rule, rle_parsed = parsed\<rparr>))
                (enumerate 0 page))
              (\<lambda>entries. Ok \<lparr>rlp_initialized = True, rlp_total = length rules, rlp_offset = offset,
                             rlp_entries = entries\<rparr>))"

definition rules_list :: "LocalRuleSet \<Rightarrow> RuleParseError + (bool \<times> RuleListEntry list)" where
  "rules_list rset =
    and_then (rules_list_page rset 0 usize_max) (\<lambda>page. Ok (rlp_initialized page, rlp_entries page))"

definition rules_from_yaml ::
  "(string \<Rightarrow> string + string list) \<Rightarrow> string \<Rightarrow> u64 \<Rightarrow> RuleSetLimits \<Rightarrow> RuleDocumentError + LocalRuleSet" where
  "rules_from_yaml from_str document revision limits =
    (if length document > max_document_bytes limits
     then Err (DocumentTooLarge (length document) (max_document_bytes limits))
     else and_then (map_err InvalidYaml (from_str document)) (\<lambda>values.
       if length values > max_rule_count limits
       then Err (TooManyRules (length values) (max_rule_count limits))
       else and_then
         (collect_result (\<lambda>(index, v).
            and_then (map_err (InvalidRuleString index) (RuleString_new v (max_rule_bytes limits))) (\<lambda>rule.
            and_then (map_err (DocInvalidRule index) (parse_rule rule)) (\<lambda>_. Ok rule)))
           (enumerate 0 values))
         (\<lambda>rules. Ok (rules_initialized_at rules revision))))"

definition rules_to_yaml ::
  "(string list \<Rightarrow> string + string) \<Rightarrow> LocalRuleSet \<Rightarrow> RuleDocumentError + string" where
  "rules_to_yaml to_string rset =
    and_then (ok_or (rs_rules rset) DocRulesUninitialized) (\<lambda>rules.
      map_err SerializationFailed (to_string (map rule_text rules)))"

definition placement_index :: "RuleString list \<Rightarrow> RulePlacement \<Rightarrow> RuleSetError + nat" where
  "placement_index rules placement =
    (case placement of
       Prepend \<Rightarrow> Ok 0
     | Append \<Rightarrow> Ok (length rules)
     | Before anchor \<Rightarrow> exact_rule_index rules anchor
     | After anchor \<Rightarrow> and_then (exact_rule_index rules anchor) (\<lambda>i. Ok (i + 1)))"

definition rules_add ::
  "LocalRuleSet \<Rightarrow> RuleString \<Rightarrow> RulePlacement \<Rightarrow> (RuleSetError + nat) \<times> LocalRuleSet" where
  "rules_add rset rule placement =
    (case rs_rules rset of
       None \<Rightarrow> (Err RulesUninitialized, rset)
     | Some rules \<Rightarrow>
         (case parse_rule rule of
            Inl e \<Rightarrow> (Err (InvalidRule e), rset)
          | Inr _ \<Rightarrow>
         (case placement_index rules placement of
            Inl e \<Rightarrow> (Err e, rset)
          | Inr index \<Rightarrow>
              let matching_indexes = matching_rule_indexes rules rule in
              if matching_indexes \<noteq> [] then (Err (RuleAlreadyExists matching_indexes), rset)
              else (case next_revision (rs_revision rset) of
                 Inl e \<Rightarrow> (Err e, rset)
               | Inr next \<Rightarrow>
                   (Ok index, rset\<lparr>rs_rules := Some (vec_insert index rule rules), rs_revision := next\<rparr>)))))"

definition rules_replace ::
  "LocalRuleSet \<Rightarrow> RuleString \<Rightarrow> RuleString \<Rightarrow> (RuleSetError + nat) \<times> LocalRuleSet" where
  "rules_replace rset old_rule new_rule =
    (case rs_rules rset of
       None \<Rightarrow> (Err RulesUninitialized, rset)
     | Some rules \<Rightarrow>
         (case parse_rule new_rule of
            Inl e \<Rightarrow> (Err (InvalidRule e), rset)
          | Inr _ \<Rightarrow>
         (case exact_rule_index rules old_rule of
            Inl e \<Rightarrow> (Err e, rset)
          | Inr index \<Rightarrow>
              let matching_indexes = filter (\<lambda>i. i \<noteq> index) (matching_rule_indexes rules new_rule) in
              if matching_indexes \<noteq> [] then (Err (RuleAlreadyExists matching_indexes), rset)
              else if rules ! index = new_rule then (Ok index, rset)
              else (case next_revision (rs_revision rset) of
                 Inl e \<Rightarrow> (Err e, rset)
               | Inr next \<Rightarrow>
                   (Ok index, rset\<lparr>rs_rules := Some (rules[index := new_rule]), rs_revision := next\<rparr>)))))"

definition rules_remove ::
  "LocalRuleSet \<Rightarrow> RuleString \<Rightarrow> (RuleSetError + RuleString) \<times> LocalRuleSet" where
  "rules_remove rset rule =
    (case rs_rules rset of
       None \<Rightarrow> (Err RulesUninitialized, rset)
     | Some rules \<Rightarrow>
         (case exact_rule_index rules rule of
            Inl e \<Rightarrow> (Err e, rset)
          | Inr index \<Rightarrow>
         (case next_revision (rs_revision rset) of
            Inl e \<Rightarrow> (Err e, rset)
          | Inr next \<Rightarrow>
              (Ok (rules ! index), rset\<lparr>rs_rules := Some (vec_remove index rules), rs_revision := next\<rparr>))))"


section \<open>Specifications\<close>

text \<open>
  The characters of a logical payload that the scanner looks at: escape pairs,
  brackets and the content of character classes are skipped.
\<close>

definition skip_state :: "bool \<Rightarrow> bool \<Rightarrow> string \<Rightarrow> bool \<times> bool" where
  "skip_state escaped cls ch =
    (if escaped then (False, cls)
     else if ch = backslash_ch then (True, cls)
     else if ch = ''['' then (False, True)
     else if ch = '']'' then (False, False)
     else (False, cls))"

definition is_active :: "bool \<Rightarrow> bool \<Rightarrow> string \<Rightarrow> bool" where
  "is_active escaped cls ch =
    (\<not> escaped \<and> \<not> cls \<and> ch \<noteq> backslash_ch \<and> ch \<noteq> ''['' \<and> ch \<noteq> '']'')"

fun active_chars :: "bool \<Rightarrow> bool \<Rightarrow> string list \<Rightarrow> string list" where
  "active_chars escaped cls [] = []"
| "active_chars escaped cls (ch # rest) =
    (if is_active escaped cls ch then [ch] else []) @
    active_chars (fst (skip_state escaped cls ch)) (snd (skip_state escaped cls ch)) rest"

fun ends_active :: "bool \<Rightarrow> bool \<Rightarrow> string list \<Rightarrow> bool" where
  "ends_active escaped cls [] = False"
| "ends_active escaped cls (ch # rest) =
    (if rest = [] then ch = '')'' \<and> is_active escaped cls ch
     else ends_active (fst (skip_state escaped cls ch)) (snd (skip_state escaped cls ch)) rest)"

inductive balanced :: "string list \<Rightarrow> bool" where
  balanced_Nil: "balanced []"
| balanced_plain: "balanced s \<Longrightarrow> ch \<noteq> ''('' \<Longrightarrow> ch \<noteq> '')'' \<Longrightarrow> balanced (ch # s)"
| balanced_group: "balanced s \<Longrightarrow> balanced t \<Longrightarrow> balanced (''('' # s @ '')'' # t)"

fun closes :: "nat \<Rightarrow> string list \<Rightarrow> bool" where
  "closes 0 s = (s = [])"
| "closes (Suc d) s = (\<exists>b t. balanced b \<and> s = b @ '')'' # t \<and> closes d t)"

definition opens :: "string list \<Rightarrow> bool" where
  "opens s = (\<exists>ws rest. s = ws @ ''('' # rest \<and> list_all is_whitespace ws \<and> closes 1 rest)"

text \<open>
  A well-formed logical payload: after optional white space one parenthesised,
  balanced group, whose closing parenthesis is the last character.
\<close>

definition logical_group :: "string list \<Rightarrow> bool" where
  "logical_group cs =
    (ends_active False False cs \<and>
     (\<exists>ws body. active_chars False False cs = ws @ ''('' # body @ [ '')'' ] \<and>
        list_all is_whitespace ws \<and> balanced body))"

definition rules_parse :: "RuleString list \<Rightarrow> bool" where
  "rules_parse rules = list_all (\<lambda>r. is_ok (parse_rule r)) rules"

definition rule_set_wf :: "LocalRuleSet \<Rightarrow> bool" where
  "rule_set_wf s = (case rs_rules s of None \<Rightarrow> True | Some rules \<Rightarrow> rules_parse rules \<and> distinct rules)"

datatype RuleEdit
  = EditAdd RuleString RulePlacement
  | EditReplace RuleString RuleString
  | EditRemove RuleString

fun apply_edit :: "RuleEdit \<Rightarrow> LocalRuleSet \<Rightarrow> LocalRuleSet" where
  "apply_edit (EditAdd r p) s = snd (rules_add s r p)"
| "apply_edit (EditReplace old new) s = snd (rules_replace s old new)"
| "apply_edit (EditRemove r) s = snd (rules_remove s r)"

section \<open>Rule types round trip\<close>

lemma RuleType_parse_as_str [simp]: "RuleType_parse (RuleType_as_str t) = Ok t"
  by (cases t) (simp_all add: RuleType_parse_def)

lemma RuleType_parse_Ok: "RuleType_parse v = Ok t \<Longrightarrow> v = RuleType_as_str t"
  by (simp add: RuleType_parse_def split: if_splits)

lemma RuleType_as_str_plain:
  "comma \<notin> set (RuleType_as_str t)" "trim (RuleType_as_str t) = RuleType_as_str t"
  by (cases t; simp add: trim_def trim_start_def trim_end_def utf8_width_def)+

section \<open>Logical payloads\<close>

inductive_cases balanced_ConsE: "balanced (ch # s)"
inductive_cases balanced_openE: "balanced (''('' # s)"
inductive_simps balanced_NilI [simp]: "balanced []"

lemma not_balanced_close [simp]: "\<not> balanced ('')'' # s)"
  by (auto elim: balanced_ConsE)

lemma balanced_append: "balanced s \<Longrightarrow> balanced t \<Longrightarrow> balanced (s @ t)"
  by (induction rule: balanced.induct) (auto intro: balanced.intros)

lemma closesI: "balanced b \<Longrightarrow> closes d t \<Longrightarrow> closes (Suc d) (b @ '')'' # t)"
  by auto

lemma closes_open: "closes (Suc d) (''('' # s) \<longleftrightarrow> closes (Suc (Suc d)) s"
proof
  assume "closes (Suc d) (''('' # s)"
  then obtain b t where b: "balanced b" "''('' # s = b @ '')'' # t" "closes d t" by auto
  then obtain b' where b': "b = ''('' # b'" by (cases b) auto
  with b(1) obtain u v where "b' = u @ '')'' # v" "balanced u" "balanced v"
    by (auto elim: balanced_openE)
  then have "s = u @ '')'' # (v @ '')'' # t)"
    using b(2) b' by simp
  moreover have "closes (Suc d) (v @ '')'' # t)"
    using \<open>balanced v\<close> b(3) by auto
  ultimately show "closes (Suc (Suc d)) s"
    using \<open>balanced u\<close> by (subst closes.simps) blast
next
  assume "closes (Suc (Suc d)) s"
  then obtain u v t where "balanced u" "balanced v" "closes d t" "s = u @ '')'' # v @ '')'' # t"
    by auto
  moreover from this have "balanced (''('' # u @ '')'' # v)"
    by (intro balanced_group)
  ultimately show "closes (Suc d) (''('' # s)"
    using closesI [of "''('' # u @ '')'' # v" d t] by simp
qed

lemma closes_close: "closes (Suc d) ('')'' # s) \<longleftrightarrow> closes d s"
proof
  assume "closes (Suc d) ('')'' # s)"
  then obtain b t where b: "balanced b" "'')'' # s = b @ '')'' # t" "closes d t" by auto
  then have "b = []" by (cases b) auto
  with b show "closes d s" by simp
next
  assume "closes d s"
  then show "closes (Suc d) ('')'' # s)" using closesI [of "[]" d s] by simp
qed

lemma closes_plain:
  assumes "ch \<noteq> ''(''" "ch \<noteq> '')''"
  shows "closes (Suc d) (ch # s) \<longleftrightarrow> closes (Suc d) s"
proof
  assume "closes (Suc d) (ch # s)"
  then obtain b t where b: "balanced b" "ch # s = b @ '')'' # t" "closes d t" by auto
  with assms obtain b' where "b = ch # b'" by (cases b) auto
  with b assms show "closes (Suc d) s" by (auto elim: balanced_ConsE)
next
  assume "closes (Suc d) s"
  then obtain b t where b: "balanced b" "s = b @ '')'' # t" "closes d t" by auto
  with assms show "closes (Suc d) (ch # s)"
    using closesI [of "ch # b" d t] by (simp add: balanced_plain)
qed

lemma closes_Nil [simp]: "\<not> closes (Suc d) []"
  by auto

lemmas closes_rules = closes_open closes_close closes_plain

declare closes.simps(2) [simp del]

lemma closes_1: "closes (Suc 0) s \<longleftrightarrow> (\<exists>body. balanced body \<and> s = body @ [ '')'' ])"
  by (auto simp: closes.simps(2))

lemma ends_active_active: "ends_active e k cs \<Longrightarrow> active_chars e k cs \<noteq> []"
  by (induction e k cs rule: ends_active.induct) (auto split: if_splits)

lemma scan_inactive:
  "\<not> is_active e k ch \<Longrightarrow>
    logical_scan d e k i (ch # cs) =
      logical_scan d (fst (skip_state e k ch)) (snd (skip_state e k ch)) (i + length ch) cs"
  by (auto simp: is_active_def skip_state_def Let_def)

lemma skip_state_active: "is_active e k ch \<Longrightarrow> skip_state e k ch = (False, False) \<and> \<not> e \<and> \<not> k"
  by (auto simp: is_active_def skip_state_def)

lemma scan_active:
  "is_active e k ch \<Longrightarrow>
    logical_scan (Suc d) e k i (ch # cs) =
      (if ch = ''('' then logical_scan (Suc (Suc d)) False False (i + length ch) cs
       else if ch = '')'' then
         (if d = 0 then Some (i + length ch) else logical_scan d False False (i + length ch) cs)
       else logical_scan (Suc d) False False (i + length ch) cs)"
  by (auto simp: is_active_def Let_def)

lemma ex_prefix_Cons:
  "(\<exists>ps qs. ch # cs = ps @ qs \<and> P ps) \<longleftrightarrow> P [] \<or> (\<exists>ps qs. cs = ps @ qs \<and> P (ch # ps))"
  by (auto simp: Cons_eq_append_conv)

lemma logical_scan_open:
  "logical_scan (Suc d) e k i cs = Some n \<longleftrightarrow>
    (\<exists>ps qs. cs = ps @ qs \<and>
      (n = i + length (concat ps) \<and> ends_active e k ps \<and> closes (Suc d) (active_chars e k ps)))"
proof (induction cs arbitrary: d e k i)
  case Nil
  then show ?case by auto
next
  case (Cons ch cs)
  note IH = Cons.IH
  show ?case
  proof (cases "is_active e k ch")
    case False
    then have "ends_active e k (ch # ps) =
        ends_active (fst (skip_state e k ch)) (snd (skip_state e k ch)) ps" for ps
      by simp
    then show ?thesis
      unfolding ex_prefix_Cons scan_inactive [OF False] IH
      using False by (simp add: add.assoc del: ends_active.simps(2))
  next
    case True
    note st = conjunct1 [OF skip_state_active [OF True]]
    have act: "active_chars e k (ch # ps) = ch # active_chars False False ps" for ps
      using True st by simp
    have ends: "ends_active e k (ch # ps) =
        (if ps = [] then ch = '')'' else ends_active False False ps)" for ps
      using True st by simp
    have ends_open: "ends_active e k (ch # ps) = ends_active False False ps" if "ch \<noteq> '')''" for ps
      using that by (simp add: ends del: ends_active.simps(2))
    consider "ch = ''(''" | "ch = '')''" "d = 0" | d' where "ch = '')''" "d = Suc d'"
      | "ch \<noteq> ''(''" "ch \<noteq> '')''"
      by (cases d) auto
    then show ?thesis
    proof cases
      case 1
      then have ends': "ends_active e k (ch # ps) = ends_active False False ps" for ps
        by (intro ends_open) simp
      show ?thesis
        unfolding ex_prefix_Cons scan_active [OF True] act ends'
        using 1 by (simp add: IH closes_open add.assoc)
    next
      case 2
      have "\<not> (ends_active False False ps \<and> active_chars False False ps = [])" for ps
        using ends_active_active by blast
      with 2 show ?thesis
        unfolding ex_prefix_Cons scan_active [OF True] act ends
        by (auto simp: closes_close)
    next
      case 3
      have "closes (Suc d') (active_chars False False ps) \<Longrightarrow> ps \<noteq> []" for ps
        by auto
      with 3 show ?thesis
        unfolding ex_prefix_Cons scan_active [OF True] act ends
        by (simp add: IH closes_close add.assoc cong: conj_cong) metis
    next
      case 4
      then have ends': "ends_active e k (ch # ps) = ends_active False False ps" for ps
        by (intro ends_open) simp
      show ?thesis
        unfolding ex_prefix_Cons scan_active [OF True] act ends'
        using 4 by (simp add: IH closes_plain add.assoc)
    qed
  qed
qed

lemma opens_rules:
  "\<not> opens []" "opens (''('' # s) \<longleftrightarrow> closes 1 s" "\<not> opens ('')'' # s)"
  "ch \<noteq> ''('' \<Longrightarrow> opens (ch # s) \<longleftrightarrow> is_whitespace ch \<and> opens s"
proof -
  show "opens (''('' # s) \<longleftrightarrow> closes 1 s"
  proof
    assume "opens (''('' # s)"
    then obtain ws rest where ws: "''('' # s = ws @ ''('' # rest" "list_all is_whitespace ws"
      "closes 1 rest"
      unfolding opens_def by blast
    then have "ws = []" by (cases ws) auto
    with ws show "closes 1 s" by simp
  next
    assume "closes 1 s"
    then show "opens (''('' # s)"
      unfolding opens_def by (intro exI [of _ "[]"] exI [of _ s]) simp
  qed
  show "opens (ch # s) \<longleftrightarrow> is_whitespace ch \<and> opens s" if "ch \<noteq> ''(''"
  proof
    assume "opens (ch # s)"
    then obtain ws rest where ws: "ch # s = ws @ ''('' # rest" "list_all is_whitespace ws"
      "closes 1 rest"
      unfolding opens_def by blast
    with that obtain ws' where "ws = ch # ws'" by (cases ws) auto
    with ws show "is_whitespace ch \<and> opens s"
      unfolding opens_def by auto
  next
    assume "is_whitespace ch \<and> opens s"
    then obtain ws rest where "s = ws @ ''('' # rest" "list_all is_whitespace ws" "closes 1 rest"
      "is_whitespace ch"
      unfolding opens_def by blast
    then show "opens (ch # s)"
      unfolding opens_def by (intro exI [of _ "ch # ws"] exI [of _ rest]) simp
  qed
  show "\<not> opens []" "\<not> opens ('')'' # s)"
    by (auto simp: opens_def Cons_eq_append_conv)
qed

lemma scan_active_0:
  "is_active e k ch \<Longrightarrow>
    logical_scan 0 e k i (ch # cs) =
      (if ch = ''('' then logical_scan (Suc 0) False False (i + length ch) cs
       else if \<not> is_whitespace ch then None
       else logical_scan 0 False False (i + length ch) cs)"
  by (auto simp: is_active_def Let_def)

lemma logical_scan_start:
  "logical_scan 0 e k i cs = Some n \<longleftrightarrow>
    (\<exists>ps qs. cs = ps @ qs \<and>
      (n = i + length (concat ps) \<and> ends_active e k ps \<and> opens (active_chars e k ps)))"
proof (induction cs arbitrary: e k i)
  case Nil
  then show ?case by auto
next
  case (Cons ch cs)
  note IH = Cons.IH
  show ?case
  proof (cases "is_active e k ch")
    case False
    then have "ends_active e k (ch # ps) =
        ends_active (fst (skip_state e k ch)) (snd (skip_state e k ch)) ps" for ps
      by simp
    then show ?thesis
      unfolding ex_prefix_Cons scan_inactive [OF False] IH
      using False by (simp add: add.assoc del: ends_active.simps(2))
  next
    case True
    note st = conjunct1 [OF skip_state_active [OF True]]
    have act: "active_chars e k (ch # ps) = ch # active_chars False False ps" for ps
      using True st by simp
    show ?thesis
    proof (cases "ch = '')''")
      case closing: True
      then show ?thesis
        unfolding ex_prefix_Cons scan_active_0 [OF True] act by (simp add: opens_rules)
    next
      case False
      then have ends: "ends_active e k (ch # ps) = ends_active False False ps" for ps
        using True st by simp
      show ?thesis
        unfolding ex_prefix_Cons scan_active_0 [OF True] act ends
        by (cases "ch = ''(''") (auto simp: IH logical_scan_open opens_rules add.assoc)
    qed
  qed
qed

lemma logical_group_opens:
  "logical_group cs \<longleftrightarrow> ends_active False False cs \<and> opens (active_chars False False cs)"
  by (auto simp: logical_group_def opens_def closes_1)

section \<open>Parsing\<close>

lemma required_field_Ok [simp]: "s \<noteq> [] \<Longrightarrow> required_field (Some s) e = Ok s"
  by (simp add: required_field_def)

lemma parse_rule_typed:
  "parse_rule (RuleString (RuleType_as_str t @ comma # rest)) =
    parse_by_type t (RuleString (RuleType_as_str t @ comma # rest)) rest"
proof -
  have "split_once comma (RuleType_as_str t @ comma # rest) = Some (RuleType_as_str t, rest)"
    by (simp add: split_once_Some RuleType_as_str_plain)
  then show ?thesis
    by (simp add: parse_rule_def RuleType_as_str_plain)
qed

lemma rsplit_once_last: "c \<notin> set b \<Longrightarrow> rsplit_once c (a @ c # b) = Some (a, b)"
  by (simp add: rsplit_once_Some)

lemma rule_parameter_plain:
  "is_rule_parameter q \<Longrightarrow> comma \<notin> set q \<and> trim q = q"
  by (auto simp: is_rule_parameter_def trim_def trim_start_def trim_end_def utf8_width_def)

lemma regex_params_peel:
  assumes "comma \<notin> set target" "\<not> is_rule_parameter (trim target)"
    and "\<And>q. q \<in> set params \<Longrightarrow> is_rule_parameter q"
  shows "regex_params (payload @ comma # target @ concat (map ((#) comma) params)) acc =
    (payload @ comma # target, acc @ rev params)"
  using assms(3)
proof (induction params arbitrary: acc rule: rev_induct)
  case Nil
  then show ?case
    using assms(1,2) by (simp add: regex_params.simps rsplit_once_last)
next
  case (snoc q params)
  let ?head = "payload @ comma # target @ concat (map ((#) comma) params)"
  have q: "is_rule_parameter q" "comma \<notin> set q" "trim q = q"
    using snoc.prems rule_parameter_plain by auto
  then have "rsplit_once comma (?head @ comma # q) = Some (?head, q)"
    by (intro rsplit_once_last)
  then have "regex_params (?head @ comma # q) acc = regex_params ?head (acc @ [q])"
    using q by (subst regex_params.simps) simp
  then show ?case
    using snoc by simp
qed

lemma parse_regex_rule_fields:
  assumes "trimmed payload" "payload \<noteq> []" "trimmed target" "target \<noteq> []"
    and "comma \<notin> set target" "\<not> is_rule_parameter target"
    and "\<And>q. q \<in> set params \<Longrightarrow> is_rule_parameter q"
  shows "parse_regex_rule rule t (payload @ comma # target @ concat (map ((#) comma) params)) =
    Ok \<lparr>pr_original = rule, pr_rule_type = t, pr_payload = Some payload,
        pr_policy_target = target, pr_params = params\<rparr>"
proof -
  have "regex_params (payload @ comma # target @ concat (map ((#) comma) params)) [] =
      (payload @ comma # target, rev params)"
    using regex_params_peel [of target params payload "[]"] assms by (simp add: trim_trimmed)
  moreover have "rsplit_once comma (payload @ comma # target) = Some (payload, target)"
    using assms by (intro rsplit_once_last)
  ultimately show ?thesis
    using assms by (simp add: parse_regex_rule_def trim_trimmed)
qed

lemma parse_standard_rule_fields:
  assumes "\<And>f. f \<in> set (payload # target # params) \<Longrightarrow> trimmed f \<and> comma \<notin> set f"
    and "payload \<noteq> []" "target \<noteq> []"
  shows "parse_standard_rule rule t (join_with comma (payload # target # params)) =
    Ok \<lparr>pr_original = rule, pr_rule_type = t, pr_payload = Some payload,
        pr_policy_target = target, pr_params = params\<rparr>"
proof -
  have "split_on comma (join_with comma (payload # target # params)) = payload # target # params"
    using assms by (intro split_join) auto
  moreover have "map trim params = params"
    using assms by (intro map_idI) (simp add: trim_trimmed)
  ultimately show ?thesis
    using assms by (simp add: parse_standard_rule_def trim_trimmed)
qed

section \<open>Rule set operations\<close>

lemma matching_rule_indexes_mem:
  "i \<in> set (matching_rule_indexes rules r) \<longleftrightarrow> i < length rules \<and> rules ! i = r"
  by (auto simp: matching_rule_indexes_def)

lemma matching_rule_indexes_Nil: "matching_rule_indexes rules r = [] \<longleftrightarrow> r \<notin> set rules"
  by (auto simp: matching_rule_indexes_def filter_empty_conv in_set_conv_nth)

lemma exact_rule_index_Ok:
  "exact_rule_index rules r = Ok i \<longleftrightarrow>
    i < length rules \<and> rules ! i = r \<and> (\<forall>j < length rules. rules ! j = r \<longrightarrow> j = i)"
proof
  assume "exact_rule_index rules r = Ok i"
  then have "matching_rule_indexes rules r = [i]"
    by (auto simp: exact_rule_index_def split: list.splits)
  then show "i < length rules \<and> rules ! i = r \<and> (\<forall>j < length rules. rules ! j = r \<longrightarrow> j = i)"
    using matching_rule_indexes_mem [of _ rules r] by auto
next
  assume unique: "i < length rules \<and> rules ! i = r \<and> (\<forall>j < length rules. rules ! j = r \<longrightarrow> j = i)"
  then have "set (matching_rule_indexes rules r) = {i}"
    by (auto simp: matching_rule_indexes_mem)
  moreover have "distinct (matching_rule_indexes rules r)"
    by (simp add: matching_rule_indexes_def)
  ultimately have "matching_rule_indexes rules r = [i]"
    by (cases "matching_rule_indexes rules r" rule: remdups_adj.cases) auto
  then show "exact_rule_index rules r = Ok i"
    by (simp add: exact_rule_index_def)
qed

lemma exact_rule_index_at:
  "exact_rule_index rules r = Ok i \<Longrightarrow> i < length rules \<and> rules ! i = r"
  by (simp add: exact_rule_index_Ok)

lemma next_revision_Ok: "next_revision r = Ok n \<longleftrightarrow> unat n = unat r + 1"
  by (simp add: next_revision_def result_simps checked_add_Some)

lemma placement_index_bound: "placement_index rules p = Ok i \<Longrightarrow> i \<le> length rules"
  by (auto simp: placement_index_def exact_rule_index_Ok result_simps Suc_le_eq
      split: RulePlacement.splits)

lemma rules_add_Ok:
  "rules_add s r p = (Ok i, s') \<Longrightarrow>
    \<exists>rules. rs_rules s = Some rules \<and> is_ok (parse_rule r) \<and> placement_index rules p = Ok i \<and>
      r \<notin> set rules \<and> unat (rs_revision s') = unat (rs_revision s) + 1 \<and>
      rs_rules s' = Some (vec_insert i r rules)"
  by (auto simp: rules_add_def matching_rule_indexes_Nil next_revision_Ok Let_def
      split: option.splits sum.splits if_splits)

lemma rules_add_Err: "rules_add s r p = (Err e, s') \<Longrightarrow> s' = s"
  by (auto simp: rules_add_def Let_def split: option.splits sum.splits if_splits)

lemma no_other_match:
  "filter (\<lambda>j. j \<noteq> i) (matching_rule_indexes rules r) = [] \<longleftrightarrow>
    (\<forall>j < length rules. rules ! j = r \<longrightarrow> j = i)"
  by (auto simp: filter_empty_conv matching_rule_indexes_mem)

lemma rules_replace_Ok:
  assumes "rules_replace s old new = (Ok i, s')"
  shows "\<exists>rules. rs_rules s = Some rules \<and> is_ok (parse_rule new) \<and> exact_rule_index rules old = Ok i \<and>
      (\<forall>j < length rules. rules ! j = new \<longrightarrow> j = i) \<and>
      (if old = new then s' = s
       else unat (rs_revision s') = unat (rs_revision s) + 1 \<and> rs_rules s' = Some (rules[i := new]))"
proof -
  obtain rules parsed where rules: "rs_rules s = Some rules" "parse_rule new = Ok parsed"
    and index: "exact_rule_index rules old = Ok i"
    and only: "filter (\<lambda>j. j \<noteq> i) (matching_rule_indexes rules new) = []"
    and rest: "rules ! i = new \<and> s' = s \<or>
      rules ! i \<noteq> new \<and> (\<exists>n. next_revision (rs_revision s) = Ok n \<and>
        s' = s\<lparr>rs_rules := Some (rules[i := new]), rs_revision := n\<rparr>)"
    using assms unfolding rules_replace_def Let_def
    by (clarsimp split: option.splits sum.splits if_splits)
  have "rules ! i = old"
    using index by (simp add: exact_rule_index_Ok)
  with rules index rest only [unfolded no_other_match] show ?thesis
    by (intro exI [of _ rules]) (auto simp: next_revision_Ok)
qed

lemma rules_replace_Err: "rules_replace s old new = (Err e, s') \<Longrightarrow> s' = s"
  by (auto simp: rules_replace_def Let_def split: option.splits sum.splits if_splits)

lemma rules_remove_Ok:
  "rules_remove s r = (Ok x, s') \<Longrightarrow>
    \<exists>rules i. rs_rules s = Some rules \<and> exact_rule_index rules r = Ok i \<and> x = r \<and>
      unat (rs_revision s') = unat (rs_revision s) + 1 \<and> rs_rules s' = Some (vec_remove i rules)"
  by (auto simp: rules_remove_def next_revision_Ok exact_rule_index_at split: option.splits sum.splits)

lemma rules_remove_Err: "rules_remove s r = (Err e, s') \<Longrightarrow> s' = s"
  by (auto simp: rules_remove_def split: option.splits sum.splits)

lemmas rules_op_Ok = rules_add_Ok rules_replace_Ok rules_remove_Ok
lemmas rules_op_Err = rules_add_Err rules_replace_Err rules_remove_Err

lemma rules_parse_set: "rules_parse rules \<longleftrightarrow> (\<forall>r \<in> set rules. is_ok (parse_rule r))"
  by (simp add: rules_parse_def list_all_iff)

lemma distinct_update:
  "distinct xs \<Longrightarrow> i < length xs \<Longrightarrow> (\<forall>j < length xs. xs ! j = x \<longrightarrow> j = i) \<Longrightarrow> distinct (xs[i := x])"
  by (rule distinct_list_update) (auto simp: in_set_conv_nth)

lemma rules_parse_insert: "rules_parse rules \<Longrightarrow> is_ok (parse_rule r) \<Longrightarrow> rules_parse (vec_insert i r rules)"
  by (simp add: rules_parse_set)

lemma rules_parse_update: "rules_parse rules \<Longrightarrow> is_ok (parse_rule r) \<Longrightarrow> rules_parse (rules[i := r])"
  by (auto simp: rules_parse_set dest: set_update_subset_insert [THEN subsetD])

lemma rules_parse_remove: "rules_parse rules \<Longrightarrow> rules_parse (vec_remove i rules)"
  by (auto simp: rules_parse_set dest: set_vec_remove_subset [THEN subsetD])

lemmas rules_keep_wf =
  rules_parse_insert rules_parse_update rules_parse_remove distinct_vec_insert distinct_update
  distinct_vec_remove

text \<open>One edit either leaves the set as it is or bumps the revision by one and keeps it well formed.\<close>

lemma apply_edit_step:
  "apply_edit e s = s \<or>
    (unat (rs_revision (apply_edit e s)) = unat (rs_revision s) + 1 \<and>
     rs_rules s \<noteq> None \<and> rs_rules (apply_edit e s) \<noteq> None \<and>
     (rule_set_wf s \<longrightarrow> rule_set_wf (apply_edit e s)))"
proof (cases e)
  case (EditAdd r p)
  obtain res s' where res: "rules_add s r p = (res, s')" by fastforce
  show ?thesis
  proof (cases res)
    case (Inr i)
    with res show ?thesis
      by (auto simp: EditAdd rule_set_wf_def rules_keep_wf dest!: rules_add_Ok)
  qed (use res rules_add_Err EditAdd in auto)
next
  case (EditReplace old new)
  obtain res s' where res: "rules_replace s old new = (res, s')" by fastforce
  show ?thesis
  proof (cases res)
    case (Inr i)
    with rules_replace_Ok [of s old new i s'] res show ?thesis
      by (auto simp: EditReplace rule_set_wf_def rules_keep_wf exact_rule_index_at split: if_splits)
  qed (use res rules_replace_Err EditReplace in auto)
next
  case (EditRemove r)
  obtain res s' where res: "rules_remove s r = (res, s')" by fastforce
  show ?thesis
  proof (cases res)
    case (Inr i)
    with res show ?thesis
      by (auto simp: EditRemove rule_set_wf_def rules_keep_wf dest!: rules_remove_Ok)
  qed (use res rules_remove_Err EditRemove in auto)
qed

interpretation rule_edits: versioned_machine rules_uninitialized apply_edit rule_set_wf
  "\<lambda>s. unat (rs_revision s)"
proof unfold_locales
  show "rule_set_wf rules_uninitialized"
    by (simp add: rule_set_wf_def rules_uninitialized_def)
  fix s op
  show "rule_set_wf s \<Longrightarrow> rule_set_wf (apply_edit op s)"
    "rule_set_wf s \<Longrightarrow> unat (rs_revision s) \<le> unat (rs_revision (apply_edit op s))"
    "rule_set_wf s \<Longrightarrow> unat (rs_revision (apply_edit op s)) = unat (rs_revision s) \<Longrightarrow> apply_edit op s = s"
    using apply_edit_step [of op s] by auto
qed

lemma nth_vec_insert_other:
  "i \<le> length xs \<Longrightarrow> j < Suc (length xs) \<Longrightarrow> j \<noteq> i \<Longrightarrow> vec_insert i x xs ! j \<in> set xs"
  by (auto simp: vec_insert_def nth_append nth_Cons' not_less)

lemma exact_rule_index_inserted:
  assumes "r \<notin> set rules" "i \<le> length rules"
  shows "exact_rule_index (vec_insert i r rules) r = Ok i"
  unfolding exact_rule_index_Ok
proof (intro conjI allI impI)
  show "i < length (vec_insert i r rules)" "vec_insert i r rules ! i = r"
    using assms by simp_all
  fix j assume j: "j < length (vec_insert i r rules)" "vec_insert i r rules ! j = r"
  show "j = i"
  proof (rule ccontr)
    assume "j \<noteq> i"
    with nth_vec_insert_other [of i rules j r] j assms show False by simp
  qed
qed

section \<open>Listing and documents\<close>

lemma page_window:
  "(let end = min (min usize_max (offset + limit)) (length rules) in
     if offset \<le> end then take (end - offset) (drop offset rules) else []) = take limit (drop offset rules)"
  if "length rules \<le> usize_max"
  using that by (auto simp: Let_def min_def)

lemma collect_enumerate:
  assumes "list_all2 (\<lambda>x y. f x = Ok y) (enumerate n xs) ys"
  shows "length ys = length xs" "\<And>j. j < length xs \<Longrightarrow> f (n + j, xs ! j) = Ok (ys ! j)"
  using assms by (auto simp: list_all2_conv_all_nth nth_enumerate_eq)

lemma rules_list_page_Ok:
  assumes "rs_rules s = Some rules" "rules_parse rules" "length rules \<le> usize_max"
  shows "\<exists>page. rules_list_page s offset limit = Ok page \<and> rlp_initialized page \<and>
    rlp_total page = length rules \<and> rlp_offset page = offset \<and>
    map rle_rule (rlp_entries page) = take limit (drop offset rules) \<and>
    (\<forall>j < length (rlp_entries page). rle_index (rlp_entries page ! j) = offset + j \<and>
       parse_rule (rle_rule (rlp_entries page ! j)) = Ok (rle_parsed (rlp_entries page ! j)))"
proof -
  define w where "w = take limit (drop offset rules)"
  define f where "f = (\<lambda>(relative_index, rule). and_then (parse_rule rule) (\<lambda>parsed.
     Ok \<lparr>rle_index = offset + relative_index, rle_rule = rule, rle_parsed = parsed\<rparr>))"
  have w: "set w \<subseteq> set rules"
    by (auto simp: w_def dest: in_set_takeD in_set_dropD)
  have "\<exists>y. f x = Ok y" if "x \<in> set (enumerate 0 w)" for x
  proof -
    have "snd x \<in> set w"
      using that by (auto simp: in_set_enumerate_eq) (metis nth_mem)
    then obtain y where "parse_rule (snd x) = Ok y"
      using w assms(2) by (auto simp: rules_parse_set is_ok_iff)
    then show ?thesis
      by (simp add: f_def case_prod_unfold)
  qed
  then obtain ys where ys: "collect_result f (enumerate 0 w) = Ok ys"
    using collect_result_total [of "enumerate 0 w" f] by blast
  then have all: "length ys = length w" "\<And>j. j < length w \<Longrightarrow> f (j, w ! j) = Ok (ys ! j)"
    using collect_enumerate [of f 0 w ys] by (simp_all add: collect_result_Ok_iff)
  have entry: "rle_rule (ys ! j) = w ! j \<and> rle_index (ys ! j) = offset + j \<and>
      parse_rule (w ! j) = Ok (rle_parsed (ys ! j))" if "j < length ys" for j
    using all(2) [of j] that all(1) by (auto simp: f_def result_simps eq_commute [of _ "ys ! j"])
  have "map rle_rule ys = w"
    using entry all(1) by (intro nth_equalityI) auto
  moreover have "rules_list_page s offset limit =
      Ok \<lparr>rlp_initialized = True, rlp_total = length rules, rlp_offset = offset, rlp_entries = ys\<rparr>"
    using ys assms(1) page_window [OF assms(3), of offset limit]
    by (simp add: rules_list_page_def Let_def w_def f_def)
  ultimately show ?thesis
    using entry by (simp add: w_def)
qed

lemma rules_from_yaml_Ok:
  assumes "rules_from_yaml from_str document revision limits = Ok s"
  shows "\<exists>values rules. from_str document = Ok values \<and> rs_rules s = Some rules \<and>
    rs_revision s = revision \<and> map rule_text rules = values \<and> rules_parse rules \<and>
    length rules \<le> max_rule_count limits \<and>
    (\<forall>r \<in> set rules. length (rule_text r) \<le> max_rule_bytes limits)"
proof -
  define f where "f = (\<lambda>(index, v).
    and_then (map_err (InvalidRuleString index) (RuleString_new v (max_rule_bytes limits))) (\<lambda>rule.
    and_then (map_err (DocInvalidRule index) (parse_rule rule)) (\<lambda>_. Ok rule)))"
  obtain vs rules where vs: "from_str document = Ok vs" "length vs \<le> max_rule_count limits"
    and rules: "collect_result f (enumerate 0 vs) = Ok rules" "s = rules_initialized_at rules revision"
    using assms unfolding rules_from_yaml_def f_def [symmetric]
    by (auto simp: result_simps split: if_splits)
  have all: "length rules = length vs" "\<And>j. j < length vs \<Longrightarrow> f (j, vs ! j) = Ok (rules ! j)"
    using collect_enumerate [of f 0 vs rules] rules(1) by (simp_all add: collect_result_Ok_iff)
  have each: "rule_text (rules ! j) = vs ! j \<and> is_ok (parse_rule (rules ! j)) \<and>
      length (rule_text (rules ! j)) \<le> max_rule_bytes limits" if "j < length rules" for j
    using all(2) [of j] that all(1)
    by (auto simp: f_def result_simps RuleString_new_def is_ok_iff eq_commute [of _ "rules ! j"]
        split: if_splits)
  have "map rule_text rules = vs"
    using each all(1) by (intro nth_equalityI) auto
  moreover have "rules_parse rules" "\<forall>r \<in> set rules. length (rule_text r) \<le> max_rule_bytes limits"
    using each unfolding rules_parse_set by (metis in_set_conv_nth)+
  ultimately show ?thesis
    using vs rules(2) all(1) by (simp add: rules_initialized_at_def)
qed

lemma rules_from_yaml_document:
  "rules_from_yaml from_str document revision limits = Ok s \<Longrightarrow> length document \<le> max_document_bytes limits"
  by (simp add: rules_from_yaml_def split: if_splits)

lemma rules_from_yaml_accepts:
  assumes "from_str document = Ok (map rule_text rules)"
    and "length document \<le> max_document_bytes limits" "length rules \<le> max_rule_count limits"
    and "rules_parse rules" "\<And>r. r \<in> set rules \<Longrightarrow> length (rule_text r) \<le> max_rule_bytes limits"
  shows "rules_from_yaml from_str document revision limits = Ok (rules_initialized_at rules revision)"
proof -
  define f where "f = (\<lambda>(index, v).
    and_then (map_err (InvalidRuleString index) (RuleString_new v (max_rule_bytes limits))) (\<lambda>rule.
    and_then (map_err (DocInvalidRule index) (parse_rule rule)) (\<lambda>_. Ok rule)))"
  have "f (j, rule_text (rules ! j)) = Ok (rules ! j)" if "j < length rules" for j
    using assms(4) assms(5) [of "rules ! j"] that
    by (auto simp: f_def RuleString_new_def rules_parse_set is_ok_iff not_less result_simps)
  then have "list_all2 (\<lambda>x y. f x = Ok y) (enumerate 0 (map rule_text rules)) rules"
    by (simp add: list_all2_conv_all_nth nth_enumerate_eq)
  then have "collect_result f (enumerate 0 (map rule_text rules)) = Ok rules"
    by (simp add: collect_result_Ok_iff)
  then show ?thesis
    using assms(1-3) by (simp add: rules_from_yaml_def f_def)
qed

lemmas parse_eval =
  parse_rule_def split_once_def trim_def trim_start_def trim_end_def utf8_width_def
  RuleType_parse_def parse_rule_without_payload_def required_field_def Let_def

section \<open>Properties\<close>

text \<open>C24. The end of a logical payload.  The scanner returns \<open>n\<close> exactly when the first \<open>n\<close>
  bytes are a run of whole characters in which, escapes and character classes apart,
  optional white space is followed by one balanced parenthesised group that closes at the
  last of them.\<close>

theorem logical_payload_end_correct:
  "logical_payload_end v = Some n \<longleftrightarrow>
    (\<exists>cs ds. utf8_chars v = cs @ ds \<and> n = length (concat cs) \<and> logical_group cs)"
  unfolding logical_payload_end_def logical_scan_start logical_group_opens by simp

text \<open>C25. A regex rule keeps every comma of its payload: printing a regex rule from a payload,
  a policy target without comma and a list of parameters, and parsing it, gives these
  three back.\<close>

theorem parse_regex_rule_round_trip:
  assumes "t = RtDomainRegex \<or> t = RtProcessNameRegex \<or> t = RtProcessPathRegex"
    and "trimmed payload" "payload \<noteq> []" "trimmed target" "target \<noteq> []"
    and "comma \<notin> set target" "\<not> is_rule_parameter target" "list_all is_rule_parameter params"
    and "rule = RuleString (RuleType_as_str t @ comma # payload @ comma # target @
                  concat (map ((#) comma) params))"
  shows "parse_rule rule = Ok \<lparr>pr_original = rule, pr_rule_type = t, pr_payload = Some payload,
          pr_policy_target = target, pr_params = params\<rparr>"
proof -
  have "parse_by_type t r rest = parse_regex_rule r t rest" for r rest
    using assms(1) by auto
  with assms show ?thesis
    by (simp add: parse_rule_typed parse_regex_rule_fields list_all_iff)
qed

theorem parse_regex_rule_round_trip_witness:
  "parse_rule (RuleString ''DOMAIN-REGEX,a{1,3},DIRECT,no-resolve'') =
    Ok \<lparr>pr_original = RuleString ''DOMAIN-REGEX,a{1,3},DIRECT,no-resolve'',
        pr_rule_type = RtDomainRegex, pr_payload = Some ''a{1,3}'',
        pr_policy_target = ''DIRECT'', pr_params = [''no-resolve'']\<rparr>"
  using parse_regex_rule_round_trip [of RtDomainRegex "''a{1,3}''" "''DIRECT''" "[''no-resolve'']"
      "RuleString ''DOMAIN-REGEX,a{1,3},DIRECT,no-resolve''"]
  by (simp add: trimmed_def utf8_width_def is_rule_parameter_def)

text \<open>A rule of a type with plain fields round-trips: joining type, payload, target and
  parameters with commas and parsing gives them back, for every rule type that is neither
  a logical operator, a regex nor \<open>MATCH\<close>.\<close>

theorem parse_standard_rule_round_trip:
  assumes "t \<notin> {RtMatch, RtAnd, RtNot, RtOr, RtSubRule, RtDomainRegex, RtProcessNameRegex, RtProcessPathRegex}"
    and "list_all (\<lambda>f. trimmed f \<and> comma \<notin> set f) (payload # target # params)"
    and "payload \<noteq> []" "target \<noteq> []"
    and "rule = RuleString (join_with comma (RuleType_as_str t # payload # target # params))"
  shows "parse_rule rule = Ok \<lparr>pr_original = rule, pr_rule_type = t, pr_payload = Some payload,
          pr_policy_target = target, pr_params = params\<rparr>"
proof -
  have "parse_by_type t r rest = parse_standard_rule r t rest" for r rest
    using assms(1) by (cases t) auto
  moreover have "\<And>f. f \<in> set (payload # target # params) \<Longrightarrow> trimmed f \<and> comma \<notin> set f"
    using assms(2) by (auto simp: list_all_iff)
  ultimately show ?thesis
    using assms(3-5) parse_rule_typed [of t "join_with comma (payload # target # params)"]
      parse_standard_rule_fields [of payload target params rule t]
    by simp
qed

theorem parse_standard_rule_round_trip_witness:
  "parse_rule (RuleString ''IP-CIDR,10.0.0.0/8,DIRECT,no-resolve'') =
    Ok \<lparr>pr_original = RuleString ''IP-CIDR,10.0.0.0/8,DIRECT,no-resolve'',
        pr_rule_type = RtIpCidr, pr_payload = Some ''10.0.0.0/8'',
        pr_policy_target = ''DIRECT'', pr_params = [''no-resolve'']\<rparr>"
  using parse_standard_rule_round_trip [of RtIpCidr "''10.0.0.0/8''" "''DIRECT''" "[''no-resolve'']"
      "RuleString ''IP-CIDR,10.0.0.0/8,DIRECT,no-resolve''"]
  by (simp add: trimmed_def utf8_width_def)

text \<open>C16. The revision identifies the content: after any sequence of adds, replaces and removes
  the revision has not gone down, and it is the old one only if the rule set is the old
  one; rejected edits leave the set untouched, and a set of parseable, pairwise different
  rules stays one.\<close>

theorem rule_edits_revision_and_wf:
  assumes "rule_set_wf s" and "s' = fold apply_edit edits s"
  shows "rule_set_wf s' \<and> unat (rs_revision s) \<le> unat (rs_revision s') \<and>
    (rs_revision s' = rs_revision s \<longrightarrow> s' = s)"
  using assms rule_edits.run_from [of s edits] rule_edits.run_stamp [of s edits]
    rule_edits.version_identifies [of s edits]
  by simp

theorem rule_edits_revision_and_wf_witness:
  "rule_set_wf (fold apply_edit [EditAdd (RuleString ''MATCH,DIRECT'') Prepend] (rules_initialized []))"
  using rule_edits_revision_and_wf [of "rules_initialized []" _
      "[EditAdd (RuleString ''MATCH,DIRECT'') Prepend]", OF _ refl]
  by (simp add: rules_initialized_def rules_initialized_at_def rule_set_wf_def rules_parse_def)

text \<open>C26. Adding a rule and removing it again restores the list: whatever placement the add
  used, the rule it inserted is found at one place only and its removal gives the rules
  back in their order (the revision counter has to have room for the second edit).\<close>

theorem add_remove_round_trip:
  assumes "rules_add s r p = (Ok i, s')" and "rs_revision s' \<noteq> - 1"
  shows "fst (rules_remove s' r) = Ok r \<and> rs_rules (snd (rules_remove s' r)) = rs_rules s"
proof -
  obtain rules where rules: "rs_rules s = Some rules" "placement_index rules p = Ok i"
    "r \<notin> set rules" "rs_rules s' = Some (vec_insert i r rules)"
    using rules_add_Ok [OF assms(1)] by blast
  have i: "i \<le> length rules"
    using rules(2) by (rule placement_index_bound)
  have "\<exists>n. next_revision (rs_revision s') = Ok n"
    using assms(2) unat_below [of "rs_revision s'"]
    by (auto simp: next_revision_def checked_add_def word_unat_eq_iff unsigned_minus_1_eq_mask
        mask_eq_exp_minus_1)
  then obtain n where "next_revision (rs_revision s') = Ok n" by blast
  with rules i show ?thesis
    by (simp add: rules_remove_def exact_rule_index_inserted)
qed

theorem add_remove_round_trip_witness:
  "let s' = snd (rules_add (rules_initialized [RuleString ''MATCH,A'']) (RuleString ''MATCH,B'')
              (After (RuleString ''MATCH,A'')))
   in rs_rules (snd (rules_remove s' (RuleString ''MATCH,B''))) = Some [RuleString ''MATCH,A'']"
proof -
  have added: "rules_add (rules_initialized [RuleString ''MATCH,A'']) (RuleString ''MATCH,B'')
      (After (RuleString ''MATCH,A'')) =
    (Ok 1, \<lparr>rs_revision = 2, rs_rules = Some [RuleString ''MATCH,A'', RuleString ''MATCH,B'']\<rparr>)"
    by (simp add: parse_eval rules_add_def rules_initialized_def rules_initialized_at_def placement_index_def
        exact_rule_index_def matching_rule_indexes_def next_revision_def checked_add_def vec_insert_def)
  from add_remove_round_trip [OF this] show ?thesis
    unfolding added by (simp add: rules_initialized_def rules_initialized_at_def)
qed

text \<open>A page is a window of the list: on a set whose rules parse, a page request never
  fails and returns the rules at the requested positions, in order, each with its absolute
  index and its own parse.\<close>

theorem list_page_window:
  assumes "rs_rules s = Some rules" "rules_parse rules" "length rules \<le> usize_max"
  shows "\<exists>page. rules_list_page s offset limit = Ok page \<and> rlp_initialized page \<and>
    rlp_total page = length rules \<and> rlp_offset page = offset \<and>
    map rle_rule (rlp_entries page) = take limit (drop offset rules) \<and>
    (\<forall>j < length (rlp_entries page). rle_index (rlp_entries page ! j) = offset + j \<and>
       parse_rule (rle_rule (rlp_entries page ! j)) = Ok (rle_parsed (rlp_entries page ! j)))"
  using assms by (rule rules_list_page_Ok)

theorem list_page_window_witness:
  "\<exists>page. rules_list_page (rules_initialized [RuleString ''MATCH,A'', RuleString ''MATCH,B'']) 1 5 = Ok page \<and>
    map rle_rule (rlp_entries page) = [RuleString ''MATCH,B'']"
proof -
  have "rules_parse [RuleString ''MATCH,A'', RuleString ''MATCH,B'']"
    by (simp add: rules_parse_def parse_eval)
  with list_page_window [of "rules_initialized [RuleString ''MATCH,A'', RuleString ''MATCH,B'']"
      "[RuleString ''MATCH,A'', RuleString ''MATCH,B'']" 1 5] show ?thesis
    by (auto simp: rules_initialized_def rules_initialized_at_def usize_max_def)
qed

text \<open>C27. Documents round-trip and are validated: if the YAML codec reads back what it writes,
  a rule set that respects the limits is restored from its own document.  Every document that is
  accepted is within the document limit and gives exactly the rules the codec reads from it; all
  of them parse, and their number and the size of each are within the limits.\<close>

theorem rules_yaml_round_trip:
  assumes codec: "\<And>xs d. to_string xs = Inr d \<Longrightarrow> from_str d = Inr xs"
    and "rules_to_yaml to_string s = Ok document" "rs_rules s = Some rules" "rules_parse rules"
    and "length document \<le> max_document_bytes limits" "length rules \<le> max_rule_count limits"
    and "list_all (\<lambda>r. length (rule_text r) \<le> max_rule_bytes limits) rules"
  shows "rules_from_yaml from_str document (rs_revision s) limits = Ok s \<and>
    (\<forall>d v t. rules_from_yaml from_str d v limits = Ok t \<longrightarrow>
      length d \<le> max_document_bytes limits \<and>
      (\<exists>rs. from_str d = Ok (map rule_text rs) \<and> rs_rules t = Some rs \<and> rs_revision t = v \<and> rules_parse rs \<and>
        length rs \<le> max_rule_count limits \<and> list_all (\<lambda>r. length (rule_text r) \<le> max_rule_bytes limits) rs))"
proof
  have "from_str document = Ok (map rule_text rules)"
    using assms(2,3) codec by (auto simp: rules_to_yaml_def result_simps)
  then have "rules_from_yaml from_str document (rs_revision s) limits =
      Ok (rules_initialized_at rules (rs_revision s))"
    using assms by (intro rules_from_yaml_accepts) (auto simp: list_all_iff)
  with assms(3) show "rules_from_yaml from_str document (rs_revision s) limits = Ok s"
    by (cases s) (simp add: rules_initialized_at_def)
next
  show "\<forall>d v t. rules_from_yaml from_str d v limits = Ok t \<longrightarrow>
      length d \<le> max_document_bytes limits \<and>
      (\<exists>rs. from_str d = Ok (map rule_text rs) \<and> rs_rules t = Some rs \<and> rs_revision t = v \<and> rules_parse rs \<and>
        length rs \<le> max_rule_count limits \<and> list_all (\<lambda>r. length (rule_text r) \<le> max_rule_bytes limits) rs)"
    using rules_from_yaml_Ok rules_from_yaml_document by (fastforce simp: list_all_iff)
qed

text \<open>A line-based document format with the round trip that the codec is assumed to have.\<close>

theorem rules_yaml_round_trip_witness:
  "rules_from_yaml (\<lambda>d. if d = ''k'' then Inr [''MATCH,A''] else Inl ''bad'') ''k'' 1 rule_set_limits_product =
    Ok (rules_initialized [RuleString ''MATCH,A''])"
proof -
  let ?to = "\<lambda>rs. if rs = [''MATCH,A''] then Inr ''k'' else Inl ''bad''"
  let ?from = "\<lambda>d. if d = ''k'' then Inr [''MATCH,A''] else Inl ''bad''"
  have codec: "?from d = Inr xs" if "?to xs = Inr d" for xs d
    using that by (auto split: if_splits)
  have "rules_parse [RuleString ''MATCH,A'']"
    by (simp add: rules_parse_def parse_eval)
  with rules_yaml_round_trip [of ?to ?from "rules_initialized [RuleString ''MATCH,A'']" "''k''"
      "[RuleString ''MATCH,A'']" rule_set_limits_product, OF codec] show ?thesis
    by (simp add: rules_to_yaml_def rules_initialized_def rules_initialized_at_def
        rule_set_limits_product_def)
qed

end
