(* ===== verification/Profiles.thy ===== *)
theory Profiles
  imports Domain_Types Machines Yaml_Values
begin

text \<open>
  Profile snapshots, profile names and the profile catalogue of \<open>src/src/profile.rs\<close>, with
  the three places of \<open>src/src/supervisor.rs\<close> and \<open>src/src/supervisor/projections.rs\<close> that
  read or change a catalogue entry directly: the staleness test of a refresh, the record
  of a failed refresh and the record of a node selection.

  A method on \<open>&mut self\<close> returns its result and the catalogue afterwards.  Reading YAML,
  SHA-256, percent decoding and the text form of a UUID are parameters.
\<close>

section \<open>Snapshots\<close>

record SnapshotLimits =
  sl_max_bytes :: nat
  sl_max_depth :: nat

datatype SnapshotError
  = BodyTooLarge nat
  | SnapshotInvalidYaml
  | TopLevelMappingRequired
  | DepthExceeded nat
  | RulesSequenceRequired
  | RuleStringRequired nat

record ProfileSnapshot =
  ps_raw :: string
  ps_document :: Mapping
  ps_rule_strings :: "string list"
  ps_content_sha256 :: string

definition rule_of_value :: "nat \<times> Value \<Rightarrow> (string, SnapshotError) result" where
  "rule_of_value = (\<lambda>(index, rule).
    case rule of VString s \<Rightarrow> Ok s | _ \<Rightarrow> Err (RuleStringRequired index))"

definition extract_rules :: "Mapping \<Rightarrow> (string list, SnapshotError) result" where
  "extract_rules document =
    (case m_get ''rules'' document of
       None \<Rightarrow> Ok []
     | Some (VSequence rules) \<Rightarrow> collect_result rule_of_value (enumerate 0 rules)
     | Some _ \<Rightarrow> Err RulesSequenceRequired)"

definition utf8_bom :: string where
  "utf8_bom = [CHR 0xEF, CHR 0xBB, CHR 0xBF]"

definition snapshot_parse ::
  "(string \<Rightarrow> Value option) \<Rightarrow> (string \<Rightarrow> string) \<Rightarrow> string \<Rightarrow> SnapshotLimits \<Rightarrow>
    (ProfileSnapshot, SnapshotError) result" where
  "snapshot_parse yaml_from_slice sha256_hex raw limits =
    (if length raw > sl_max_bytes limits then Err (BodyTooLarge (sl_max_bytes limits))
     else
       let parse_bytes = (case strip_prefix utf8_bom raw of Some rest \<Rightarrow> rest | None \<Rightarrow> raw)
       in and_then (ok_or (yaml_from_slice parse_bytes) SnapshotInvalidYaml) (\<lambda>value.
         if yaml_depth value > sl_max_depth limits then Err (DepthExceeded (sl_max_depth limits))
         else (case value of
             VMapping document \<Rightarrow>
               and_then (extract_rules document) (\<lambda>rule_strings.
                 Ok \<lparr>ps_raw = raw, ps_document = document, ps_rule_strings = rule_strings,
                     ps_content_sha256 = sha256_hex raw\<rparr>)
           | _ \<Rightarrow> Err TopLevelMappingRequired)))"

section \<open>Names\<close>

datatype ProfileNameSource = NameMetadata | NameFilename | NameHostAndShortId

record DerivedProfileName =
  dn_value :: string
  dn_source :: ProfileNameSource

definition normalize_name :: "string \<Rightarrow> string option" where
  "normalize_name v =
    (let v = trim v
     in if v = [] \<or> list_ex is_control (utf8_chars v) then None else Some (take_chars 80 v))"

definition filename_name :: "(string \<Rightarrow> string) \<Rightarrow> Url \<Rightarrow> string option" where
  "filename_name percent_decode u =
    (case url_path_segments u of
       None \<Rightarrow> None
     | Some segments \<Rightarrow>
         if segments = [] then None
         else
           let filename = last segments
           in if is_token_like_path_segment percent_decode filename then None
              else normalize_name
                (case strip_suffix ''.yaml'' filename of
                   Some stem \<Rightarrow> stem
                 | None \<Rightarrow> (case strip_suffix ''.yml'' filename of Some stem \<Rightarrow> stem | None \<Rightarrow> filename)))"

definition derive_profile_name ::
  "(string \<Rightarrow> string) \<Rightarrow> (ProfileId \<Rightarrow> string) \<Rightarrow> string option \<Rightarrow> Url \<Rightarrow> ProfileId \<Rightarrow>
    DerivedProfileName" where
  "derive_profile_name percent_decode id_text metadata_name u profile_id =
    (case Option.bind metadata_name normalize_name of
       Some v \<Rightarrow> \<lparr>dn_value = v, dn_source = NameMetadata\<rparr>
     | None \<Rightarrow>
        (case filename_name percent_decode u of
           Some v \<Rightarrow> \<lparr>dn_value = v, dn_source = NameFilename\<rparr>
         | None \<Rightarrow>
            let host = (case url_host u of Some h \<Rightarrow> h | None \<Rightarrow> ''profile'')
            in \<lparr>dn_value = host @ ''-'' @ take 8 (id_text profile_id),
                dn_source = NameHostAndShortId\<rparr>))"

section \<open>The catalogue\<close>

definition revision_next :: "u64 \<Rightarrow> u64 option" where
  "revision_next r = checked_add r 1"

record RefreshContext =
  rc_profile_revision :: ProfileRevision
  rc_active_revision :: "ActiveProfileRevision option"

datatype RefreshStage = StageDownload | StageParse | StageValidate | StageApply

record RefreshFailure =
  rf_stage :: RefreshStage
  rf_safe_message :: string

record Profile =
  pf_id :: ProfileId
  pf_name :: string
  pf_subscription_url :: Url
  pf_snapshot :: ProfileSnapshot
  pf_revision :: ProfileRevision
  pf_last_success_at_unix_ms :: u64
  pf_last_error :: "RefreshFailure option"
  pf_next_refresh_at_unix_ms :: u64
  pf_selections :: "(string, NodeRecordId) btree_map"

definition profile_new :: "ProfileId \<Rightarrow> string \<Rightarrow> Url \<Rightarrow> ProfileSnapshot \<Rightarrow> u64 \<Rightarrow> u64 \<Rightarrow> Profile" where
  "profile_new i name u snapshot success nxt =
    \<lparr>pf_id = i, pf_name = name, pf_subscription_url = u, pf_snapshot = snapshot, pf_revision = 1,
     pf_last_success_at_unix_ms = success, pf_last_error = None, pf_next_refresh_at_unix_ms = nxt,
     pf_selections = []\<rparr>"

record ProfileCatalog =
  pc_profiles :: "(ProfileId, Profile) btree_map"
  pc_active_profile_id :: "ProfileId option"
  pc_active_revision :: ActiveProfileRevision

datatype ProfileSelectorError
  = SelectorNotFound
  | SelectorAmbiguous "ProfileId list"
  | SelectorActive
  | ActiveRevisionExhausted

datatype ProfileInsertError = DuplicateId ProfileId

datatype ProfileRestoreError
  = InvalidProfileCount | DuplicateProfileId | ActiveProfileMissing | InvalidActiveRevision

datatype RefreshCommitError
  = CommitProfileRemoved
  | CommitStaleRevision ProfileRevision ProfileRevision
  | ActiveRevisionChanged "ActiveProfileRevision option" ActiveProfileRevision
  | CommitRevisionExhausted

definition catalog_new :: ProfileCatalog where
  "catalog_new = \<lparr>pc_profiles = [], pc_active_profile_id = None, pc_active_revision = 0\<rparr>"

abbreviation catalog_get :: "ProfileCatalog \<Rightarrow> ProfileId \<Rightarrow> Profile option" where
  "catalog_get c \<equiv> bt_get (pc_profiles c)"

definition catalog_insert ::
  "Profile \<Rightarrow> ProfileCatalog \<Rightarrow> (unit, ProfileInsertError) result \<times> ProfileCatalog" where
  "catalog_insert p c =
    (if bt_contains (pc_profiles c) (pf_id p) then (Err (DuplicateId (pf_id p)), c)
     else (Ok (), c\<lparr>pc_profiles := bt_insert (pf_id p) p (pc_profiles c)\<rparr>))"

fun insert_all :: "Profile list \<Rightarrow> ProfileCatalog \<Rightarrow> (ProfileCatalog, ProfileRestoreError) result" where
  "insert_all [] c = Ok c"
| "insert_all (p # ps) c =
    (case catalog_insert p c of
       (Inl _, _) \<Rightarrow> Err DuplicateProfileId
     | (Inr _, c') \<Rightarrow> insert_all ps c')"

definition catalog_restore ::
  "Profile list \<Rightarrow> ProfileId \<Rightarrow> ActiveProfileRevision \<Rightarrow> (ProfileCatalog, ProfileRestoreError) result" where
  "catalog_restore profiles active_profile_id active_revision =
    (if profiles = [] \<or> length profiles > PROFILE_COUNT_MAX then Err InvalidProfileCount
     else if active_revision = 0 then Err InvalidActiveRevision
     else and_then (insert_all profiles catalog_new) (\<lambda>catalog.
       if \<not> bt_contains (pc_profiles catalog) active_profile_id then Err ActiveProfileMissing
       else Ok (catalog\<lparr>pc_active_profile_id := Some active_profile_id,
                        pc_active_revision := active_revision\<rparr>)))"

definition catalog_resolve ::
  "(string \<Rightarrow> ProfileId option) \<Rightarrow> string \<Rightarrow> ProfileCatalog \<Rightarrow> (ProfileId, ProfileSelectorError) result" where
  "catalog_resolve id_parse selector c =
    (case id_parse selector of
       Some i \<Rightarrow> if bt_contains (pc_profiles c) i then Ok i else Err SelectorNotFound
     | None \<Rightarrow>
        (let candidate_ids =
           map pf_id (filter (\<lambda>p. pf_name p = selector) (map snd (pc_profiles c)))
         in case candidate_ids of
              [] \<Rightarrow> Err SelectorNotFound
            | [i] \<Rightarrow> Ok i
            | _ \<Rightarrow> Err (SelectorAmbiguous candidate_ids)))"

definition catalog_activate ::
  "(string \<Rightarrow> ProfileId option) \<Rightarrow> string \<Rightarrow> ProfileCatalog \<Rightarrow>
    (ProfileId, ProfileSelectorError) result \<times> ProfileCatalog" where
  "catalog_activate id_parse selector c =
    (case catalog_resolve id_parse selector c of
       Inl e \<Rightarrow> (Err e, c)
     | Inr i \<Rightarrow>
        if pc_active_profile_id c = Some i then (Ok i, c)
        else (case revision_next (pc_active_revision c) of
            None \<Rightarrow> (Err ActiveRevisionExhausted, c)
          | Some r \<Rightarrow> (Ok i, c\<lparr>pc_active_revision := r, pc_active_profile_id := Some i\<rparr>)))"

definition catalog_refresh_context ::
  "ProfileId \<Rightarrow> ProfileCatalog \<Rightarrow> (RefreshContext, RefreshCommitError) result" where
  "catalog_refresh_context i c =
    (case catalog_get c i of
       None \<Rightarrow> Err CommitProfileRemoved
     | Some p \<Rightarrow> Ok \<lparr>rc_profile_revision = pf_revision p,
         rc_active_revision =
           (if pc_active_profile_id c = Some i then Some (pc_active_revision c) else None)\<rparr>)"

definition catalog_remove ::
  "(string \<Rightarrow> ProfileId option) \<Rightarrow> string \<Rightarrow> ProfileCatalog \<Rightarrow>
    (Profile, ProfileSelectorError) result \<times> ProfileCatalog" where
  "catalog_remove id_parse selector c =
    (case catalog_resolve id_parse selector c of
       Inl e \<Rightarrow> (Err e, c)
     | Inr i \<Rightarrow>
        if pc_active_profile_id c = Some i then (Err SelectorActive, c)
        else (case catalog_get c i of
            None \<Rightarrow> (Err SelectorNotFound, c)
          | Some p \<Rightarrow> (Ok p, c\<lparr>pc_profiles := bt_remove i (pc_profiles c)\<rparr>)))"

definition commit_refresh ::
  "ProfileId \<Rightarrow> RefreshContext \<Rightarrow> ProfileSnapshot \<Rightarrow> u64 \<Rightarrow> u64 \<Rightarrow> ProfileCatalog \<Rightarrow>
    (ProfileRevision, RefreshCommitError) result \<times> ProfileCatalog" where
  "commit_refresh i context snapshot success nxt c =
    (case catalog_get c i of
       None \<Rightarrow> (Err CommitProfileRemoved, c)
     | Some p \<Rightarrow>
        if pf_revision p \<noteq> rc_profile_revision context
        then (Err (CommitStaleRevision (rc_profile_revision context) (pf_revision p)), c)
        else if pc_active_profile_id c = Some i \<and> rc_active_revision context \<noteq> Some (pc_active_revision c)
        then (Err (ActiveRevisionChanged (rc_active_revision context) (pc_active_revision c)), c)
        else (case revision_next (pf_revision p) of
            None \<Rightarrow> (Err CommitRevisionExhausted, c)
          | Some revision \<Rightarrow>
              (Ok revision,
               c\<lparr>pc_profiles := bt_insert i
                  (p\<lparr>pf_snapshot := snapshot, pf_revision := revision,
                     pf_last_success_at_unix_ms := success, pf_last_error := None,
                     pf_next_refresh_at_unix_ms := nxt\<rparr>) (pc_profiles c)\<rparr>)))"

section \<open>Direct changes by the supervisor\<close>

definition refresh_is_stale :: "ProfileCatalog \<Rightarrow> ProfileId \<Rightarrow> RefreshContext \<Rightarrow> bool" where
  "refresh_is_stale c i context =
    (case catalog_refresh_context i c of
       Inl _ \<Rightarrow> True
     | Inr current \<Rightarrow>
        rc_profile_revision current \<noteq> rc_profile_revision context \<or>
        (pc_active_profile_id c = Some i \<and> rc_active_revision current \<noteq> rc_active_revision context))"

definition note_refresh_failure ::
  "ProfileId \<Rightarrow> RefreshStage \<Rightarrow> string \<Rightarrow> u64 \<Rightarrow> ProfileCatalog \<Rightarrow> ProfileCatalog option" where
  "note_refresh_failure i stage message nxt c =
    map_option (\<lambda>p. c\<lparr>pc_profiles := bt_insert i
        (p\<lparr>pf_last_error := Some \<lparr>rf_stage = stage, rf_safe_message = message\<rparr>,
           pf_next_refresh_at_unix_ms := nxt\<rparr>) (pc_profiles c)\<rparr>) (catalog_get c i)"

definition note_selection ::
  "ProfileId \<Rightarrow> string \<Rightarrow> NodeRecordId \<Rightarrow> ProfileCatalog \<Rightarrow> ProfileCatalog option" where
  "note_selection i group_name node c =
    map_option (\<lambda>p. c\<lparr>pc_profiles := bt_insert i
        (p\<lparr>pf_selections := bt_insert group_name node (pf_selections p)\<rparr>) (pc_profiles c)\<rparr>)
      (catalog_get c i)"

section \<open>Runs of the catalogue\<close>

datatype CatalogOp =
    CInsert Profile
  | CActivate string
  | CRemove string
  | CCommit ProfileId RefreshContext ProfileSnapshot u64 u64
  | CFailure ProfileId RefreshStage string u64
  | CSelect ProfileId string NodeRecordId

fun catalog_step :: "(string \<Rightarrow> ProfileId option) \<Rightarrow> CatalogOp \<Rightarrow> ProfileCatalog \<Rightarrow> ProfileCatalog" where
  "catalog_step id_parse (CInsert p) c = snd (catalog_insert p c)"
| "catalog_step id_parse (CActivate s) c = snd (catalog_activate id_parse s c)"
| "catalog_step id_parse (CRemove s) c = snd (catalog_remove id_parse s c)"
| "catalog_step id_parse (CCommit i x sn t n) c = snd (commit_refresh i x sn t n c)"
| "catalog_step id_parse (CFailure i st m n) c =
    (case note_refresh_failure i st m n c of None \<Rightarrow> c | Some c' \<Rightarrow> c')"
| "catalog_step id_parse (CSelect i g n) c = (case note_selection i g n c of None \<Rightarrow> c | Some c' \<Rightarrow> c')"

definition catalog_inv :: "ProfileCatalog \<Rightarrow> bool" where
  "catalog_inv c \<longleftrightarrow> bt_wf (pc_profiles c) \<and> list_all (\<lambda>(i, p). pf_id p = i) (pc_profiles c) \<and>
     (case pc_active_profile_id c of
        None \<Rightarrow> pc_active_revision c = 0
      | Some i \<Rightarrow> bt_contains (pc_profiles c) i \<and> pc_active_revision c \<noteq> 0)"

text \<open>How far one catalogue may have moved on from another, seen from one profile.\<close>

definition profile_moved_on :: "ProfileId \<Rightarrow> ProfileCatalog \<Rightarrow> ProfileCatalog \<Rightarrow> bool" where
  "profile_moved_on i c d \<longleftrightarrow>
     (case (catalog_get c i, catalog_get d i) of
        (Some p, Some q) \<Rightarrow> pf_revision p \<le> pf_revision q
      | (None, Some q) \<Rightarrow> False
      | _ \<Rightarrow> True)"

fun inserts_profile :: "ProfileId \<Rightarrow> CatalogOp \<Rightarrow> bool" where
  "inserts_profile i (CInsert p) = (pf_id p = i)"
| "inserts_profile i _ = False"

text \<open>The profile after a committed refresh.\<close>

definition refreshed :: "ProfileSnapshot \<Rightarrow> u64 \<Rightarrow> u64 \<Rightarrow> u64 \<Rightarrow> Profile \<Rightarrow> Profile" where
  "refreshed sn t n r p = p\<lparr>pf_snapshot := sn, pf_revision := r, pf_last_success_at_unix_ms := t,
     pf_last_error := None, pf_next_refresh_at_unix_ms := n\<rparr>"

definition profiles_named :: "string \<Rightarrow> ProfileCatalog \<Rightarrow> ProfileId set" where
  "profiles_named name c = {i. \<exists>p. catalog_get c i = Some p \<and> pf_name p = name}"

section \<open>Lemmas\<close>

lemma revision_next_Some: "revision_next r = Some s \<longleftrightarrow> unat s = unat r + 1"
  by (simp add: revision_next_def rust_arith)

lemma revision_next_less: "revision_next r = Some s \<Longrightarrow> r < s"
  by (simp add: revision_next_Some word_less_nat_alt)

lemma bt_contains_iff: "bt_contains m k \<longleftrightarrow> k \<in> dom (map_of m)"
  by (auto simp: bt_contains_def)

lemma catalog_inv_get: "catalog_inv c \<Longrightarrow> catalog_get c i = Some p \<Longrightarrow> pf_id p = i"
  by (auto simp: catalog_inv_def list_all_iff dest: map_of_SomeD)

lemma catalog_inv_put:
  assumes "catalog_inv c" "pf_id p = i"
  shows "catalog_inv (c\<lparr>pc_profiles := bt_insert i p (pc_profiles c)\<rparr>)"
  using assms
  by (auto simp: catalog_inv_def btree_simps bt_contains_iff list_all_bt_insert split: option.splits)

lemma catalog_resolve_Ok:
  assumes "catalog_inv c" "catalog_resolve id_parse s c = Ok i"
  shows "\<exists>p. catalog_get c i = Some p"
proof (cases "id_parse s")
  case None
  define ids where "ids = map pf_id (filter (\<lambda>p. pf_name p = s) (map snd (pc_profiles c)))"
  from assms(2) None have "ids = [i]"
    by (auto simp: catalog_resolve_def ids_def [symmetric] Let_def split: list.splits)
  then have "i \<in> set ids" by simp
  then obtain j p where "(j, p) \<in> set (pc_profiles c)" "pf_id p = i"
    by (auto simp: ids_def)
  with assms(1) have "(i, p) \<in> set (pc_profiles c)"
    by (auto simp: catalog_inv_def list_all_iff)
  with assms(1) show ?thesis
    by (auto simp: catalog_inv_def bt_get_in_iff)
next
  case (Some j)
  with assms(2) show ?thesis
    by (auto simp: catalog_resolve_def bt_contains_def split: if_splits)
qed

lemma catalog_inv_new: "catalog_inv catalog_new"
  by (simp add: catalog_inv_def catalog_new_def)

lemma catalog_insert_inv: "catalog_inv c \<Longrightarrow> catalog_inv (snd (catalog_insert p c))"
  by (simp add: catalog_insert_def catalog_inv_put)

lemma catalog_activate_inv:
  assumes "catalog_inv c"
  shows "catalog_inv (snd (catalog_activate id_parse s c))"
proof (cases "catalog_resolve id_parse s c")
  case (Inr i)
  from catalog_resolve_Ok [OF assms Inr] obtain p where p: "catalog_get c i = Some p" ..
  show ?thesis
  proof (cases "pc_active_profile_id c = Some i \<or> revision_next (pc_active_revision c) = None")
    case False
    then obtain r where r: "revision_next (pc_active_revision c) = Some r"
      by auto
    then have "r \<noteq> 0"
      using revision_next_less [OF r] by auto
    with False r p assms Inr show ?thesis
      by (simp add: catalog_activate_def catalog_inv_def bt_contains_def)
  qed (use assms Inr in \<open>auto simp: catalog_activate_def\<close>)
qed (simp add: catalog_activate_def assms)

lemma catalog_remove_inv:
  assumes "catalog_inv c"
  shows "catalog_inv (snd (catalog_remove id_parse s c))"
proof (cases "catalog_resolve id_parse s c")
  case (Inr i)
  show ?thesis
  proof (cases "pc_active_profile_id c = Some i")
    case False
    with assms Inr show ?thesis
      by (auto simp: catalog_remove_def catalog_inv_def btree_simps bt_contains_iff list_all_bt_remove
          split: option.splits)
  qed (simp add: catalog_remove_def assms Inr)
qed (simp add: catalog_remove_def assms)

lemma refreshed_simps [simp]:
  "pf_id (refreshed sn t n r p) = pf_id p" "pf_revision (refreshed sn t n r p) = r"
  by (simp_all add: refreshed_def)

lemma commit_refresh_cases:
  obtains (Rejected) e where "commit_refresh i x sn t n c = (Err e, c)"
  | (Committed) p r where "catalog_get c i = Some p" "revision_next (pf_revision p) = Some r"
      "pf_revision p = rc_profile_revision x" "\<not> refresh_is_stale c i x"
      "commit_refresh i x sn t n c =
        (Ok r, c\<lparr>pc_profiles := bt_insert i (refreshed sn t n r p) (pc_profiles c)\<rparr>)"
proof (cases "catalog_get c i")
  case None
  then show ?thesis using Rejected by (simp add: commit_refresh_def)
next
  case (Some p)
  show ?thesis
  proof (cases "refresh_is_stale c i x \<or> revision_next (pf_revision p) = None")
    case True
    then have "\<exists>e. commit_refresh i x sn t n c = (Err e, c)"
      using Some by (auto simp: commit_refresh_def refresh_is_stale_def catalog_refresh_context_def)
    then show ?thesis using Rejected by blast
  next
    case False
    then obtain r where "revision_next (pf_revision p) = Some r" by auto
    with False Some show ?thesis
      by (intro Committed [of p r])
        (auto simp: commit_refresh_def refresh_is_stale_def catalog_refresh_context_def refreshed_def)
  qed
qed

lemma commit_refresh_inv:
  assumes "catalog_inv c"
  shows "catalog_inv (snd (commit_refresh i x sn t n c))"
proof (cases rule: commit_refresh_cases [of i x sn t n c])
  case (Committed p r)
  then show ?thesis
    using catalog_inv_put [OF assms, of "refreshed sn t n r p" i] catalog_inv_get [OF assms, of i p] by simp
qed (simp add: assms)

lemma catalog_step_inv: "catalog_inv c \<Longrightarrow> catalog_inv (catalog_step id_parse op c)"
proof (induction id_parse op c rule: catalog_step.induct)
  case (5 id_parse i st m n c)
  then show ?case
    by (auto simp: note_refresh_failure_def intro!: catalog_inv_put dest: catalog_inv_get split: option.splits)
next
  case (6 id_parse i g n c)
  then show ?case
    by (auto simp: note_selection_def intro!: catalog_inv_put dest: catalog_inv_get split: option.splits)
qed (simp_all add: catalog_insert_inv catalog_activate_inv catalog_remove_inv commit_refresh_inv)

lemma catalog_step_stamp:
  "pc_active_revision c \<le> pc_active_revision (catalog_step id_parse op c)"
proof (induction id_parse op c rule: catalog_step.induct)
  case (2 id_parse s c)
  then show ?case
    by (auto simp: catalog_activate_def split: sum.splits option.splits dest!: revision_next_less)
next
  case (4 id_parse i x sn t n c)
  then show ?case by (cases rule: commit_refresh_cases [of i x sn t n c]) auto
qed (auto simp: catalog_insert_def catalog_remove_def note_refresh_failure_def note_selection_def
    split: sum.splits option.splits)

interpretation catalog: stamped_machine catalog_new "catalog_step id_parse" catalog_inv
  "\<lambda>c. unat (pc_active_revision c)" for id_parse
  by unfold_locales
    (auto simp: catalog_inv_new catalog_step_inv word_le_nat_alt [symmetric] intro: catalog_step_stamp)

lemma profile_moved_on_refl: "profile_moved_on i c c"
  by (simp add: profile_moved_on_def split: option.splits)

lemma profile_moved_on_trans:
  "profile_moved_on i c d \<Longrightarrow> profile_moved_on i d e \<Longrightarrow> profile_moved_on i c e"
  by (auto simp: profile_moved_on_def split: option.splits)

lemma profile_moved_on_put:
  "catalog_get c j = Some p \<Longrightarrow> pf_revision p \<le> pf_revision q \<Longrightarrow>
    profile_moved_on i c (c\<lparr>pc_profiles := bt_insert j q (pc_profiles c)\<rparr>)"
  by (auto simp: profile_moved_on_def btree_simps split: option.splits)

lemma catalog_step_moved_on:
  assumes "\<not> inserts_profile i op"
  shows "profile_moved_on i c (catalog_step id_parse op c)"
  using assms
proof (induction id_parse op c rule: catalog_step.induct)
  case (1 id_parse p c)
  then show ?case
    by (auto simp: catalog_insert_def profile_moved_on_def btree_simps split: option.splits)
next
  case (2 id_parse s c)
  then show ?case
    by (auto simp: catalog_activate_def profile_moved_on_def split: sum.splits option.splits)
next
  case (3 id_parse s c)
  then show ?case
    by (auto simp: catalog_remove_def profile_moved_on_def btree_simps split: sum.splits option.splits)
next
  case (4 id_parse j x sn t n c)
  then show ?case
  proof (cases rule: commit_refresh_cases [of j x sn t n c])
    case (Committed p r)
    then show ?thesis
      using profile_moved_on_put [of c j p "refreshed sn t n r p" i] revision_next_less [of "pf_revision p" r]
      by simp
  qed (simp add: profile_moved_on_refl)
next
  case (5 id_parse j st m n c)
  then show ?case
    by (auto simp: note_refresh_failure_def intro!: profile_moved_on_refl profile_moved_on_put split: option.splits)
next
  case (6 id_parse j g n c)
  then show ?case
    by (auto simp: note_selection_def intro!: profile_moved_on_refl profile_moved_on_put split: option.splits)
qed

lemma catalog_run_moved_on:
  "list_all (\<lambda>op. \<not> inserts_profile i op) ops \<Longrightarrow> profile_moved_on i c (fold (catalog_step id_parse) ops c)"
proof (induction ops arbitrary: c)
  case (Cons op ops)
  then show ?case
    using catalog_step_moved_on [of i op c id_parse] by (auto intro: profile_moved_on_trans)
qed (simp add: profile_moved_on_refl)

section \<open>Restoring and resolving\<close>

lemma bt_insert_last: "(\<And>j w. (j, w) \<in> set m \<Longrightarrow> j < k) \<Longrightarrow> bt_insert k v m = m @ [(k, v)]"
proof -
  assume "\<And>j w. (j, w) \<in> set m \<Longrightarrow> j < k"
  then have "filter (\<lambda>p. fst p < k) m = m" "filter (\<lambda>p. k < fst p) m = []"
    by (force intro!: filter_True filter_False)+
  then show ?thesis by (simp add: bt_insert_def)
qed

lemma insert_all_ascending:
  assumes "bt_wf (m @ rest)" "list_all (\<lambda>(i, p). pf_id p = i) rest" "pc_profiles c = m"
  shows "insert_all (map snd rest) c = Ok (c\<lparr>pc_profiles := m @ rest\<rparr>)"
  using assms
proof (induction rest arbitrary: m c)
  case (Cons ip rest)
  obtain i p where ip: "ip = (i, p)" "pf_id p = i"
    using Cons.prems(2) by (cases ip) auto
  have less: "j < i" if "(j, w) \<in> set m" for j w
    using Cons.prems(1) that ip by (force simp: bt_wf_def sorted_wrt_append)
  then have "map_of m i = None"
    by (force simp: map_of_eq_None_iff)
  then have "catalog_insert p c = (Ok (), c\<lparr>pc_profiles := m @ [(i, p)]\<rparr>)"
    using ip less Cons.prems(3) by (simp add: catalog_insert_def bt_contains_def bt_insert_last)
  moreover have "insert_all (map snd rest) (c\<lparr>pc_profiles := m @ [(i, p)]\<rparr>) =
      Ok (c\<lparr>pc_profiles := (m @ [(i, p)]) @ rest\<rparr>)"
    using Cons.IH [of "m @ [(i, p)]" "c\<lparr>pc_profiles := m @ [(i, p)]\<rparr>"] Cons.prems ip by simp
  ultimately show ?case
    by (simp add: ip)
qed simp

lemma insert_all_inv:
  "insert_all ps c = Ok d \<Longrightarrow> catalog_inv c \<Longrightarrow>
    catalog_inv d \<and> pc_active_profile_id d = pc_active_profile_id c \<and> pc_active_revision d = pc_active_revision c"
proof (induction ps arbitrary: c)
  case (Cons p ps)
  then show ?case
    using catalog_insert_inv [of c p] by (auto simp: catalog_insert_def split: if_splits)
qed simp

lemma catalog_restore_inv:
  "catalog_restore ps a r = Ok c \<Longrightarrow> catalog_inv c"
  using insert_all_inv [of ps catalog_new] catalog_inv_new
  by (auto simp: catalog_restore_def result_simps catalog_inv_def split: if_splits)

lemma profiles_named_alt:
  assumes "catalog_inv c"
  shows "profiles_named name c = set (map pf_id (filter (\<lambda>p. pf_name p = name) (map snd (pc_profiles c))))"
  using assms
  by (force simp: profiles_named_def catalog_inv_def bt_get_in_iff list_all_iff)

lemma named_ids_ascending:
  assumes "catalog_inv c"
  shows "sorted_wrt (<) (map pf_id (filter P (map snd (pc_profiles c))))"
proof -
  have "map pf_id (filter P (map snd (pc_profiles c))) = map fst (filter (P \<circ> snd) (pc_profiles c))"
    using assms by (auto simp: catalog_inv_def list_all_iff filter_map)
  then show ?thesis
    using assms by (simp add: catalog_inv_def bt_wf_filter [unfolded bt_wf_def] bt_wf_def)
qed

lemma snapshot_parse_Ok:
  assumes "snapshot_parse yaml_from_slice sha256_hex raw limits = Ok s"
  shows "ps_raw s = raw" "length raw \<le> sl_max_bytes limits" "ps_content_sha256 s = sha256_hex raw"
    and "yaml_depth (VMapping (ps_document s)) \<le> sl_max_depth limits"
    and "extract_rules (ps_document s) = Ok (ps_rule_strings s)"
  using assms
  by (auto simp: snapshot_parse_def Let_def result_simps simp del: yaml_depth.simps
      split: if_splits Value.splits)

section \<open>Properties\<close>

text \<open>C37. The catalogue stays consistent through every sequence of inserts, activations, removals,
  refresh commits, refresh failures and selections: keys are the identifiers of their profiles,
  the active profile is present (so the active profile cannot be removed), it has a positive
  active revision, and that revision never goes down.\<close>

theorem catalog_run_sound:
  "catalog_inv (fold (catalog_step id_parse) ops catalog_new) \<and>
   unat (pc_active_revision (fold (catalog_step id_parse) ops catalog_new)) \<le>
     unat (pc_active_revision (fold (catalog_step id_parse) (ops @ later) catalog_new))"
  using catalog.run_inv catalog.run_stamp_split [OF catalog_inv_new] by blast

text \<open>C38. A refresh commits at most once: after a commit for a profile, whatever else happens to the
  catalogue (other refreshes, activations, even removal of the profile, but not the insertion of a
  new profile under its identifier), a commit with the same context is rejected and changes
  nothing.  Of two downloads started from one state, the slower one is discarded.\<close>

theorem refresh_commits_once:
  fixes id_parse :: "string \<Rightarrow> ProfileId option"
  assumes "commit_refresh i x sn t n c = (Ok r, d)"
    and "list_all (\<lambda>op. \<not> inserts_profile i op) ops"
  defines "e \<equiv> fold (catalog_step id_parse) ops d"
  shows "commit_refresh i x sn' t' n' e = (Err CommitProfileRemoved, e) \<or>
    (\<exists>v > rc_profile_revision x. commit_refresh i x sn' t' n' e = (Err (CommitStaleRevision (rc_profile_revision x) v), e))"
proof (cases rule: commit_refresh_cases [of i x sn t n c])
  case (Committed p r')
  then have "catalog_get d i = Some (refreshed sn t n r p)" "rc_profile_revision x < r"
    using assms(1) revision_next_less by (auto simp: btree_simps)
  moreover have "profile_moved_on i d e"
    unfolding e_def by (rule catalog_run_moved_on [OF assms(2)])
  ultimately show ?thesis
    by (cases "catalog_get e i") (auto simp: commit_refresh_def profile_moved_on_def)
qed (use assms(1) in simp)

theorem refresh_commits_once_witness:
  "\<exists>c d :: ProfileCatalog. \<exists>x r sn. commit_refresh (ProfileId 7) x sn 5 9 c = (Ok r, d) \<and>
    (commit_refresh (ProfileId 7) x sn 6 9 d = (Err CommitProfileRemoved, d) \<or>
     (\<exists>v > rc_profile_revision x.
        commit_refresh (ProfileId 7) x sn 6 9 d = (Err (CommitStaleRevision (rc_profile_revision x) v), d)))"
proof -
  define u :: Url where "u = undefined"
  define sn where "sn = \<lparr>ps_raw = [], ps_document = [], ps_rule_strings = [], ps_content_sha256 = []\<rparr>"
  define c where "c = snd (catalog_insert (profile_new (ProfileId 7) ''home'' u sn 1 2) catalog_new)"
  define x where "x = \<lparr>rc_profile_revision = 1, rc_active_revision = None\<rparr>"
  define d where "d = snd (commit_refresh (ProfileId 7) x sn 5 9 c)"
  have first: "commit_refresh (ProfileId 7) x sn 5 9 c = (Ok 2, d)"
    unfolding d_def
    by (simp add: c_def catalog_insert_def catalog_new_def bt_contains_def bt_insert_def commit_refresh_def
        x_def profile_new_def revision_next_def checked_add_def)
  have "commit_refresh (ProfileId 7) x sn 6 9 d = (Err CommitProfileRemoved, d) \<or>
     (\<exists>v > rc_profile_revision x.
        commit_refresh (ProfileId 7) x sn 6 9 d = (Err (CommitStaleRevision (rc_profile_revision x) v), d))"
    using refresh_commits_once [OF first, where ops = "[]" and id_parse = "\<lambda>_. None"] by simp
  with first show ?thesis by blast
qed

text \<open>C39. The staleness test of the supervisor decides commits: a commit succeeds exactly when the
  test says the refresh is current and the revision counter is not exhausted; then only the
  snapshot, times, error and revision of that profile change, the revision by one; otherwise
  nothing changes.\<close>

theorem commit_refresh_exact:
  "(commit_refresh i x sn t n c = (Ok r, d) \<longleftrightarrow>
      \<not> refresh_is_stale c i x \<and>
      (\<exists>p. catalog_get c i = Some p \<and> unat r = unat (pf_revision p) + 1 \<and>
         d = c\<lparr>pc_profiles := bt_insert i (refreshed sn t n r p) (pc_profiles c)\<rparr>)) \<and>
   (is_ok (fst (commit_refresh i x sn t n c)) \<or> snd (commit_refresh i x sn t n c) = c)"
proof (cases rule: commit_refresh_cases [of i x sn t n c])
  case (Rejected e)
  have False if "\<not> refresh_is_stale c i x" "catalog_get c i = Some p" "revision_next (pf_revision p) = Some r" for p
    using that Rejected
    by (auto simp: commit_refresh_def refresh_is_stale_def catalog_refresh_context_def split: if_splits)
  with Rejected show ?thesis
    by (auto simp: revision_next_Some)
next
  case (Committed p r')
  have "unat r = unat (pf_revision p) + 1 \<longleftrightarrow> r = r'"
    using Committed(2) by (auto simp: revision_next_Some word_unat_eq_iff)
  with Committed show ?thesis
    by auto
qed

text \<open>Restoring is the inverse of listing: the profiles of a consistent catalogue, restored with its
  active profile and active revision, give the catalogue back, and whatever is restored is
  consistent.\<close>

theorem catalog_restore_round_trip:
  assumes "catalog_inv c" "pc_active_profile_id c = Some a" "length (pc_profiles c) \<le> PROFILE_COUNT_MAX"
  shows "catalog_restore (map snd (pc_profiles c)) a (pc_active_revision c) = Ok c \<and>
    (\<forall>ps b r d. catalog_restore ps b r = Ok d \<longrightarrow> catalog_inv d \<and> pc_active_profile_id d = Some b)"
proof
  have "insert_all (map snd (pc_profiles c)) catalog_new = Ok (catalog_new\<lparr>pc_profiles := pc_profiles c\<rparr>)"
    using insert_all_ascending [of "[]" "pc_profiles c" catalog_new] assms(1)
    by (simp add: catalog_inv_def catalog_new_def)
  then show "catalog_restore (map snd (pc_profiles c)) a (pc_active_revision c) = Ok c"
    using assms by (auto simp: catalog_restore_def catalog_inv_def bt_contains_def catalog_new_def)
  show "\<forall>ps b r d. catalog_restore ps b r = Ok d \<longrightarrow> catalog_inv d \<and> pc_active_profile_id d = Some b"
    by (auto simp: catalog_restore_inv)
      (auto simp: catalog_restore_def result_simps split: if_splits)
qed

text \<open>C40. Selectors mean one profile: a selector resolves exactly to the profile whose identifier it
  spells, or, when it spells none, to the only profile of that name; when several profiles share
  the name the error lists all of them and nothing else, in ascending order.\<close>

theorem catalog_resolve_correct:
  assumes "catalog_inv c"
  shows "(catalog_resolve id_parse s c = Ok i \<longleftrightarrow>
      (if id_parse s = None then profiles_named s c = {i} else id_parse s = Some i \<and> catalog_get c i \<noteq> None)) \<and>
    (catalog_resolve id_parse s c = Err (SelectorAmbiguous ids) \<longleftrightarrow>
      id_parse s = None \<and> set ids = profiles_named s c \<and> sorted_wrt (<) ids \<and> 2 \<le> length ids)"
proof (cases "id_parse s")
  case (Some j)
  then show ?thesis
    by (auto simp: catalog_resolve_def bt_contains_def)
next
  case None
  define named where "named = map pf_id (filter (\<lambda>p. pf_name p = s) (map snd (pc_profiles c)))"
  have named: "profiles_named s c = set named" "sorted_wrt (<) named"
    using assms profiles_named_alt named_ids_ascending by (simp_all add: named_def)
  have resolve: "catalog_resolve id_parse s c =
      (case named of [] \<Rightarrow> Err SelectorNotFound | [i] \<Rightarrow> Ok i | _ \<Rightarrow> Err (SelectorAmbiguous named))"
    by (simp add: catalog_resolve_def None named_def [symmetric] Let_def)
  have unique: "ids = named" if "set ids = set named" "sorted_wrt (<) ids"
    using that named(2) by (metis strict_sorted_equal)
  show ?thesis
  proof (cases named rule: remdups_adj.cases)
    case (3 a b rest)
    then have "a \<noteq> b" using named(2) by auto
    with 3 show ?thesis
      using None named unique resolve by auto
  qed (use None named unique resolve in \<open>auto dest!: arg_cong [where f = length]\<close>)
qed

theorem catalog_resolve_correct_witness:
  "\<exists>c. catalog_resolve (\<lambda>_. None) ''home'' c = Ok (ProfileId 7) \<and> profiles_named ''home'' c = {ProfileId 7}"
proof -
  define u :: Url where "u = undefined"
  define sn where "sn = \<lparr>ps_raw = [], ps_document = [], ps_rule_strings = [], ps_content_sha256 = []\<rparr>"
  define c where "c = \<lparr>pc_profiles = [(ProfileId 7, profile_new (ProfileId 7) ''home'' u sn 1 2)],
    pc_active_profile_id = Some (ProfileId 7), pc_active_revision = 3\<rparr>"
  have "catalog_inv c"
    by (simp add: catalog_inv_def c_def bt_wf_def bt_contains_def profile_new_def)
  moreover have "profiles_named ''home'' c = {ProfileId 7}"
    by (auto simp: profiles_named_def c_def profile_new_def split: if_splits)
  ultimately show ?thesis
    using catalog_resolve_correct [of c "\<lambda>_. None" "''home''" "ProfileId 7"] by auto
qed

end
