(* ===== verification/Config_Compiler.thy ===== *)
theory Config_Compiler
  imports Config_Policy Rules Profiles
begin

text \<open>
  The configuration compiler of \<open>src/src/config.rs\<close>: checks of names and references, the
  authoritative fields, the classification of provider sections, the canonical form, and
  the three entry points \<open>compile\<close>, \<open>validate_persisted\<close> and
  \<open>validate_privileged_candidate\<close>.

  What the compiler asks of its surroundings is the record \<open>ConfigEnv\<close>: the file system
  (canonical paths and file kinds), the YAML codec, SHA-256 and the URL parser.  Paths are
  UTF-8 strings with the Unix component structure of \<open>std::path\<close>.
\<close>

section \<open>Surroundings\<close>

record ConfigEnv =
  env_canonicalize :: "string \<Rightarrow> string option"
  env_is_dir :: "string \<Rightarrow> bool"
  env_is_file :: "string \<Rightarrow> bool"
  env_yaml_to_string :: "Value \<Rightarrow> string option"
  env_yaml_from_slice :: "string \<Rightarrow> Value option"
  env_yaml_key_text :: "Value \<Rightarrow> string"
  env_sha256_hex :: "string \<Rightarrow> string"
  env_url_parse :: "string \<Rightarrow> Url option"

section \<open>Paths\<close>

datatype Component = RootDir | CurDir | ParentDir | Normal string

abbreviation slash :: char where "slash \<equiv> CHR ''/''"

definition is_absolute :: "string \<Rightarrow> bool" where
  "is_absolute p = prefix [slash] p"

fun piece_component :: "string \<Rightarrow> Component list" where
  "piece_component p = (if p = [] \<or> p = ''.'' then [] else if p = ''..'' then [ParentDir] else [Normal p])"

definition path_components :: "string \<Rightarrow> Component list" where
  "path_components p =
    (if is_absolute p then [RootDir]
     else if hd (split_on slash p) = ''.'' then [CurDir] else []) @
    concat (map piece_component (split_on slash p))"

fun component_text :: "Component \<Rightarrow> string" where
  "component_text RootDir = []"
| "component_text CurDir = ''.''"
| "component_text ParentDir = ''..''"
| "component_text (Normal p) = p"

definition path_join :: "string \<Rightarrow> string \<Rightarrow> string" where
  "path_join base p =
    (if is_absolute p then p
     else if base = [] \<or> suffix [slash] base then base @ p else base @ slash # p)"

text \<open>The rest of a path after a leading directory, by components; \<open>p\<close> is canonical.\<close>

definition path_strip_prefix :: "string \<Rightarrow> string \<Rightarrow> string option" where
  "path_strip_prefix base p =
    (if prefix (path_components base) (path_components p)
     then Some (join_with slash
       (map component_text (drop (length (path_components base)) (path_components p))))
     else None)"

definition path_string :: "string \<Rightarrow> string" where
  "path_string p = map (\<lambda>c. if c = CHR 0x5C then slash else c) p"

section \<open>Authoritative values\<close>

record AuthoritativeConfig =
  ac_controller_unix :: string
  ac_secret :: string

datatype ProviderSection = ProviderProxy | ProviderRule

fun section_directory :: "ProviderSection \<Rightarrow> string" where
  "section_directory ProviderProxy = ''proxy''"
| "section_directory ProviderRule = ''rule''"

datatype ProviderKind = Remote string | Local string

record ProviderRecord =
  pv_section :: ProviderSection
  pv_name :: string
  pv_relative_path :: string
  pv_kind :: ProviderKind

record EffectiveConfiguration =
  ec_yaml :: string
  ec_core_version :: string
  ec_compiler_policy_sha256 :: string
  ec_providers :: "ProviderRecord list"

record ConfigCompiler =
  cc_policy :: ConfigPolicy
  cc_policy_sha256 :: string

definition BUNDLED_CORE_VERSION :: string where
  "BUNDLED_CORE_VERSION = ''v1.19.28''"

definition compiler_bundled :: "ConfigPolicy option \<Rightarrow> string \<Rightarrow> (ConfigCompiler, ConfigError) result" where
  "compiler_bundled parsed_policy policy_sha256 =
    and_then (ok_or parsed_policy PolicyInvalid) (\<lambda>policy.
      if cp_policy_version policy \<noteq> 1 \<or> cp_core_version policy \<noteq> BUNDLED_CORE_VERSION
      then Err PolicyVersionMismatch
      else Ok \<lparr>cc_policy = policy, cc_policy_sha256 = policy_sha256\<rparr>)"

definition authoritative_tun_baseline :: Value where
  "authoritative_tun_baseline = VMapping
    [(VString ''enable'', VBool True),
     (VString ''stack'', VString ''gvisor''),
     (VString ''auto-route'', VBool True),
     (VString ''strict-route'', VBool False),
     (VString ''auto-detect-interface'', VBool True),
     (VString ''dns-hijack'', VSequence [VString ''any:53''])]"

definition authoritative_dns_fields :: Mapping where
  "authoritative_dns_fields =
    [(VString ''enable'', VBool True),
     (VString ''ipv6'', VBool True),
     (VString ''fallback'', VSequence []),
     (VString ''enhanced-mode'', VString ''fake-ip''),
     (VString ''fake-ip-range'', VString ''198.18.0.1/16''),
     (VString ''fake-ip-range6'', VString ''fdfe:dcba:9876::1/64''),
     (VString ''fake-ip-filter-mode'', VString ''blacklist''),
     (VString ''fake-ip-filter'', VSequence (map VString
       [''*.lan'', ''*.local'', ''*.arpa'', ''time.*.com'', ''ntp.*.com'', ''+.market.xiaomi.com'',
        ''localhost.ptlogin2.qq.com'', ''*.msftncsi.com'', ''www.msftconnecttest.com'']))]"

definition authoritative_sniffer_baseline :: Value where
  "authoritative_sniffer_baseline =
    (let sniff =
       [(VString ''HTTP'', VMapping
          [(VString ''ports'', VSequence [VNumber (PosInt 80), VString ''8080-8880'']),
           (VString ''override-destination'', VBool True)]),
        (VString ''TLS'', VMapping
          [(VString ''ports'', VSequence [VNumber (PosInt 443), VNumber (PosInt 8443)])]),
        (VString ''QUIC'', VMapping
          [(VString ''ports'', VSequence [VNumber (PosInt 443), VNumber (PosInt 8443)])])]
     in VMapping
       [(VString ''enable'', VBool True),
        (VString ''force-dns-mapping'', VBool True),
        (VString ''parse-pure-ip'', VBool True),
        (VString ''override-destination'', VBool True),
        (VString ''sniff'', VMapping sniff)])"

definition validate_authoritative :: "AuthoritativeConfig \<Rightarrow> checked" where
  "validate_authoritative authoritative =
    (if \<not> is_absolute (ac_controller_unix authoritative) \<or> ac_controller_unix authoritative = []
     then Err (InvalidAuthoritativeValue ''external-controller-unix'')
     else if ac_secret authoritative = [] then Err (InvalidAuthoritativeValue ''secret'')
     else Ok ())"

definition canonical_staging_root :: "ConfigEnv \<Rightarrow> string \<Rightarrow> (string, ConfigError) result" where
  "canonical_staging_root env staging_root =
    and_then (ok_or (env_canonicalize env staging_root) (StagingRootUnavailable staging_root)) (\<lambda>root.
      if \<not> env_is_dir env root then Err (StagingRootUnavailable staging_root) else Ok root)"

section \<open>Names and references\<close>

definition record_name :: "string \<Rightarrow> nat \<times> Value \<Rightarrow> (nat \<times> string, ConfigError) result" where
  "record_name section_name = (\<lambda>(index, entry).
    case Option.bind (Option.bind (as_mapping entry) (m_get ''name'')) as_str of
      None \<Rightarrow> Err (Panic ''the configuration policy requires string record names'')
    | Some name \<Rightarrow>
        if name = [] then Err (EmptyName (index_path section_name index @ ''.name''))
        else Ok (index, name))"

definition collect_record_names :: "Mapping \<Rightarrow> string \<Rightarrow> ((nat \<times> string) list, ConfigError) result" where
  "collect_record_names document section_name =
    (case m_get section_name document of
       Some (VSequence records) \<Rightarrow> collect_result (record_name section_name) (enumerate 0 records)
     | _ \<Rightarrow> Ok [])"

definition map_name :: "string \<Rightarrow> Value \<Rightarrow> (string, ConfigError) result" where
  "map_name section_name key =
    (case as_str key of
       None \<Rightarrow> Err (Panic ''the configuration policy requires string map keys'')
     | Some name \<Rightarrow> if name = [] then Err (EmptyName section_name) else Ok name)"

definition collect_map_names :: "Mapping \<Rightarrow> string \<Rightarrow> (string btree_set, ConfigError) result" where
  "collect_map_names document section_name =
    (case m_get section_name document of
       Some (VMapping records) \<Rightarrow>
         and_then (collect_result (map_name section_name) (map fst records))
           (\<lambda>names. Ok (fold bs_insert names []))
     | _ \<Rightarrow> Ok [])"

definition reserved_proxy_names :: "string btree_set" where
  "reserved_proxy_names = [''COMPATIBLE'', ''DIRECT'', ''PASS'', ''PASS-RULE'', ''REJECT'', ''REJECT-DROP'']"

definition builtin_policy_targets :: "string btree_set" where
  "builtin_policy_targets = bs_insert ''GLOBAL'' reserved_proxy_names"

fun unique_proxies :: "string btree_set \<Rightarrow> (nat \<times> string) list \<Rightarrow> (string btree_set, ConfigError) result" where
  "unique_proxies names [] = Ok names"
| "unique_proxies names ((index, name) # proxies) =
    (if name = ''GLOBAL'' \<or> name \<in> set names
     then Err (DuplicateName (index_path ''proxies'' index @ ''.name'') name)
     else unique_proxies (bs_insert name names) proxies)"

fun unique_groups :: "string btree_set \<Rightarrow> (nat \<times> string) list \<Rightarrow> checked" where
  "unique_groups names [] = Ok ()"
| "unique_groups names ((index, name) # groups) =
    (if name \<in> set names
     then Err (DuplicateName (index_path ''proxy-groups'' index @ ''.name'') name)
     else unique_groups (bs_insert name names) groups)"

definition validate_unique_names :: "(nat \<times> string) list \<Rightarrow> (nat \<times> string) list \<Rightarrow> checked" where
  "validate_unique_names proxies groups =
    and_then (unique_proxies reserved_proxy_names proxies) (\<lambda>names. unique_groups names groups)"

fun check_all :: "('a \<Rightarrow> checked) \<Rightarrow> 'a list \<Rightarrow> checked" where
  "check_all f [] = Ok ()"
| "check_all f (x # xs) = and_then (f x) (\<lambda>_. check_all f xs)"

definition group_reference ::
  "nat \<Rightarrow> string \<Rightarrow> string btree_set \<Rightarrow> string \<Rightarrow> nat \<times> Value \<Rightarrow> checked" where
  "group_reference index field available reference_kind = (\<lambda>(reference_index, reference).
    case as_str reference of
      None \<Rightarrow> Err (Panic ''the configuration policy requires string references'')
    | Some name \<Rightarrow>
        if name \<notin> set available
        then Err (UnavailableReference
               (index_path (index_path ''proxy-groups'' index @ ''.'' @ field) reference_index)
               reference_kind name)
        else Ok ())"

definition group_field ::
  "nat \<Rightarrow> Mapping \<Rightarrow> string \<times> string btree_set \<times> string \<Rightarrow> checked" where
  "group_field index grp = (\<lambda>(field, available, reference_kind).
    case m_get field grp of
      Some (VSequence references) \<Rightarrow>
        check_all (group_reference index field available reference_kind) (enumerate 0 references)
    | _ \<Rightarrow> Ok ())"

definition group_references ::
  "string btree_set \<Rightarrow> string btree_set \<Rightarrow> nat \<times> Value \<Rightarrow> checked" where
  "group_references policy_targets proxy_provider_names = (\<lambda>(index, entry).
    case as_mapping entry of
      None \<Rightarrow> Err (Panic ''the configuration policy requires proxy group mappings'')
    | Some grp \<Rightarrow>
        check_all (group_field index grp)
          [(''proxies'', policy_targets, ''proxy or Proxy Group''),
           (''use'', proxy_provider_names, ''proxy provider'')])"

definition validate_group_references ::
  "Mapping \<Rightarrow> string btree_set \<Rightarrow> string btree_set \<Rightarrow> checked" where
  "validate_group_references document policy_targets proxy_provider_names =
    (case m_get ''proxy-groups'' document of
       Some (VSequence groups) \<Rightarrow>
         check_all (group_references policy_targets proxy_provider_names) (enumerate 0 groups)
     | _ \<Rightarrow> Ok ())"

definition validate_reference :: "string \<Rightarrow> string \<Rightarrow> string \<Rightarrow> string btree_set \<Rightarrow> checked" where
  "validate_reference path reference_kind name available =
    (if name \<in> set available then Ok () else Err (UnavailableReference path reference_kind name))"

fun rule_string_error_text :: "RuleStringError \<Rightarrow> string" where
  "rule_string_error_text (RuleStringTooLarge actual maximum) =
    ''rule string is '' @ decimal actual @ '' bytes and exceeds the '' @ decimal maximum @ ''-byte limit''"

fun rule_parse_error_text :: "RuleParseError \<Rightarrow> string" where
  "rule_parse_error_text MissingRuleType = ''rule type is required''"
| "rule_parse_error_text (UnsupportedRuleType t) = ''unsupported rule type: '' @ t"
| "rule_parse_error_text (MissingPayload t) = RuleType_as_str t @ '' rule payload is required''"
| "rule_parse_error_text (MissingPolicyTarget t) = RuleType_as_str t @ '' rule policy target is required''"
| "rule_parse_error_text (InvalidLogicalPayload t) =
    RuleType_as_str t @ '' rule payload must be a balanced logical expression''"

definition validate_rule_string ::
  "string \<Rightarrow> string btree_set \<Rightarrow> string btree_set \<Rightarrow> string btree_set \<Rightarrow> nat \<times> string \<Rightarrow> checked" where
  "validate_rule_string path policy_targets rule_provider_names sub_rule_names = (\<lambda>(index, rule).
    let rule_path = index_path path index in
    and_then (map_err (\<lambda>e. InvalidRoutingRule rule_path (rule_string_error_text e))
        (RuleString_new rule RULE_STRING_MAX_BYTES)) (\<lambda>rule.
    and_then (map_err (\<lambda>e. InvalidRoutingRule rule_path (rule_parse_error_text e)) (parse_rule rule)) (\<lambda>parsed.
    if list_ex (\<lambda>parameter. parameter = []) (pr_params parsed)
    then Err (InvalidRoutingRule rule_path ''empty rule parameters are unsupported'')
    else
      and_then
        (if pr_rule_type parsed = RtSubRule
         then validate_reference rule_path ''sub-rule'' (pr_policy_target parsed) sub_rule_names
         else validate_reference rule_path ''Policy Target'' (pr_policy_target parsed) policy_targets) (\<lambda>_.
      if pr_rule_type parsed = RtRuleSet
      then (case pr_payload parsed of
          None \<Rightarrow> Err (Panic ''RULE-SET rules have a payload'')
        | Some provider \<Rightarrow> validate_reference rule_path ''rule provider'' provider rule_provider_names)
      else Ok ()))))"

definition validate_rule_strings ::
  "string list \<Rightarrow> string \<Rightarrow> string btree_set \<Rightarrow> string btree_set \<Rightarrow> string btree_set \<Rightarrow> checked" where
  "validate_rule_strings rules path policy_targets rule_provider_names sub_rule_names =
    check_all (validate_rule_string path policy_targets rule_provider_names sub_rule_names)
      (enumerate 0 rules)"

text \<open>
  The rules of a sub-rule are read while they are checked: a value that is no string
  panics when its turn comes.
\<close>

definition sub_rule_string ::
  "string \<Rightarrow> string btree_set \<Rightarrow> string btree_set \<Rightarrow> string btree_set \<Rightarrow> nat \<times> Value \<Rightarrow> checked" where
  "sub_rule_string path policy_targets rule_provider_names sub_rule_names = (\<lambda>(index, rule).
    case as_str rule of
      None \<Rightarrow> Err (Panic ''the configuration policy requires rule strings'')
    | Some rule \<Rightarrow> validate_rule_string path policy_targets rule_provider_names sub_rule_names (index, rule))"

definition sub_rule_strings ::
  "string btree_set \<Rightarrow> string btree_set \<Rightarrow> string btree_set \<Rightarrow> Value \<times> Value \<Rightarrow> checked" where
  "sub_rule_strings policy_targets rule_provider_names sub_rule_names = (\<lambda>(name, rules).
    case as_str name of
      None \<Rightarrow> Err (Panic ''the configuration policy requires string sub-rule names'')
    | Some name \<Rightarrow>
        (case as_sequence rules of
           None \<Rightarrow> Err (Panic ''the configuration policy requires sub-rule sequences'')
         | Some rules \<Rightarrow>
             check_all (sub_rule_string (child_path ''sub-rules'' name) policy_targets
               rule_provider_names sub_rule_names) (enumerate 0 rules)))"

definition validate_references :: "Mapping \<Rightarrow> string list \<Rightarrow> checked" where
  "validate_references document rules =
    and_then (collect_record_names document ''proxies'') (\<lambda>proxy_names.
    and_then (collect_record_names document ''proxy-groups'') (\<lambda>group_names.
    and_then (validate_unique_names proxy_names group_names) (\<lambda>_.
    and_then (collect_map_names document ''proxy-providers'') (\<lambda>proxy_provider_names.
    and_then (collect_map_names document ''rule-providers'') (\<lambda>rule_provider_names.
    and_then (collect_map_names document ''sub-rules'') (\<lambda>sub_rule_names.
    let policy_targets = fold bs_insert (map snd proxy_names @ map snd group_names) builtin_policy_targets in
    and_then (validate_group_references document policy_targets proxy_provider_names) (\<lambda>_.
    and_then (validate_rule_strings rules ''rules'' policy_targets rule_provider_names sub_rule_names) (\<lambda>_.
    case m_get ''sub-rules'' document of
      Some (VMapping sub_rules) \<Rightarrow>
        check_all (sub_rule_strings policy_targets rule_provider_names sub_rule_names) sub_rules
    | _ \<Rightarrow> Ok ()))))))))"

section \<open>Providers\<close>

definition resolve_local_provider ::
  "ConfigEnv \<Rightarrow> string \<Rightarrow> string \<Rightarrow> (string \<times> string, ConfigError) result" where
  "resolve_local_provider env staging_root raw_path =
    (if ParentDir \<in> set (path_components raw_path) then Err (ProviderPathTraversal raw_path)
     else
       let candidate = (if is_absolute raw_path then raw_path else path_join staging_root raw_path) in
       and_then (ok_or (env_canonicalize env candidate) (ProviderFileUnavailable candidate)) (\<lambda>source.
       and_then (ok_or (path_strip_prefix staging_root source) (ProviderPathOutsideStagingRoot source))
         (\<lambda>relative_path.
       if relative_path = [] then Err (ProviderPathOutsideStagingRoot source)
       else if \<not> env_is_file env source then Err (ProviderFileUnavailable source)
       else Ok (source, relative_path))))"

definition controlled_remote_path :: "ConfigEnv \<Rightarrow> ProviderSection \<Rightarrow> string \<Rightarrow> string \<Rightarrow> string" where
  "controlled_remote_path env sec name url =
    (let identity = section_directory sec @ [nul] @ name @ [nul] @ url;
         digest = env_sha256_hex env identity
     in path_join (path_join ''providers'' (section_directory sec)) (digest @ ''.yaml''))"

definition classify_provider ::
  "ConfigEnv \<Rightarrow> string \<Rightarrow> ProviderSection \<Rightarrow> string \<Rightarrow> Value \<times> Value \<Rightarrow>
    ((Value \<times> Value) \<times> ProviderRecord list, ConfigError) result" where
  "classify_provider env section_name sec staging_root = (\<lambda>(key, entry).
    case as_str key of
      None \<Rightarrow> Err (Panic ''the configuration policy already requires string provider names'')
    | Some name \<Rightarrow>
       (let provider_path = child_path section_name name in
        case entry of
          VMapping provider \<Rightarrow>
           (case Option.bind (m_get ''type'' provider) as_str of
              None \<Rightarrow> Err (Panic ''the configuration policy already validates provider types'')
            | Some kind \<Rightarrow>
               if kind = ''http'' then
                 and_then (ok_or (Option.bind (m_get ''url'' provider) as_str) (ProviderUrlRequired provider_path)) (\<lambda>url.
                 and_then (ok_or (env_url_parse env url) (ProviderUrlInvalid provider_path)) (\<lambda>parsed_url.
                 if \<not> (url_scheme parsed_url = ''http'' \<or> url_scheme parsed_url = ''https'') \<or>
                    url_host parsed_url = None
                 then Err (ProviderUrlInvalid provider_path)
                 else
                   let relative_path = controlled_remote_path env sec name url in
                   Ok ((key, VMapping (m_insert (VString ''path'') (VString (path_string relative_path)) provider)),
                       [\<lparr>pv_section = sec, pv_name = name, pv_relative_path = relative_path,
                         pv_kind = Remote url\<rparr>])))
               else if kind = ''file'' then
                 and_then (ok_or (Option.bind (m_get ''path'' provider) as_str) (ProviderPathRequired provider_path)) (\<lambda>raw_path.
                 and_then (resolve_local_provider env staging_root raw_path) (\<lambda>(source, relative_path).
                 Ok ((key, VMapping (m_insert (VString ''path'') (VString (path_string relative_path)) provider)),
                     [\<lparr>pv_section = sec, pv_name = name, pv_relative_path = relative_path,
                       pv_kind = Local source\<rparr>])))
               else if kind = ''inline'' then Ok ((key, VMapping (m_remove (VString ''path'') provider)), [])
               else Err (Panic ''the configuration policy already validates provider types''))
        | _ \<Rightarrow> Err (invalid_shape provider_path ''a mapping'')))"

text \<open>The section after classification and the records in the order of its entries.\<close>

definition classify_provider_section ::
  "ConfigEnv \<Rightarrow> Mapping \<Rightarrow> string \<Rightarrow> ProviderSection \<Rightarrow> string \<Rightarrow>
    (Mapping \<times> ProviderRecord list, ConfigError) result" where
  "classify_provider_section env document section_name sec staging_root =
    (case m_get section_name document of
       Some (VMapping providers) \<Rightarrow>
         and_then (collect_result (classify_provider env section_name sec staging_root) providers) (\<lambda>done.
           Ok (m_update (\<lambda>_. VMapping (map fst done)) (VString section_name) document,
               concat (map snd done)))
     | _ \<Rightarrow> Ok (document, []))"

fun section_rank :: "ProviderSection \<Rightarrow> nat" where
  "section_rank ProviderProxy = 0"
| "section_rank ProviderRule = 1"

definition sort_providers :: "ProviderRecord list \<Rightarrow> ProviderRecord list" where
  "sort_providers = sort_key (\<lambda>r. (section_rank (pv_section r), pv_name r))"

section \<open>Canonical form\<close>

definition yaml_key :: "ConfigEnv \<Rightarrow> Value \<Rightarrow> string" where
  "yaml_key env v = (case as_str v of Some s \<Rightarrow> s | None \<Rightarrow> env_yaml_key_text env v)"

lemma size_list_insort_key: "size_list f (insort_key g x xs) = Suc (f x + size_list f xs)"
  by (induction xs) auto

lemma size_list_sort_key [simp]: "size_list f (sort_key g xs) = size_list f xs"
  by (induction xs) (simp_all add: size_list_insort_key)

function canonicalize :: "ConfigEnv \<Rightarrow> Value \<Rightarrow> Value"
  and canonical_entries :: "ConfigEnv \<Rightarrow> Mapping \<Rightarrow> Mapping \<Rightarrow> Mapping"
  and canonical_items :: "ConfigEnv \<Rightarrow> Value list \<Rightarrow> Value list" where
  "canonicalize env v =
    (case v of
       VSequence vs \<Rightarrow> VSequence (canonical_items env vs)
     | VMapping m \<Rightarrow> VMapping (canonical_entries env (sort_key (yaml_key env \<circ> fst) m) [])
     | _ \<Rightarrow> v)"
| "canonical_entries env [] sorted_entries = sorted_entries"
| "canonical_entries env ((k, v) # entries) sorted_entries =
    canonical_entries env entries (m_insert k (canonicalize env v) sorted_entries)"
| "canonical_items env [] = []"
| "canonical_items env (v # vs) = canonicalize env v # canonical_items env vs"
  by pat_completeness auto
termination
  by (relation "measure
      (\<lambda>x. case x of
         Inl (env, v) \<Rightarrow> size v
       | Inr (Inl (env, m, acc)) \<Rightarrow> size_list (size_prod size size) m
       | Inr (Inr (env, vs)) \<Rightarrow> size_list size vs)") auto

declare canonicalize.simps [simp del]

section \<open>Compilation\<close>

definition put_all :: "Mapping \<Rightarrow> Mapping \<Rightarrow> Mapping" where
  "put_all entries m = fold (\<lambda>(k, v). m_insert k v) entries m"

text \<open>The scalar fields that replace those of the profile, in the order of the code.\<close>

definition authoritative_fields :: "string list \<Rightarrow> AuthoritativeConfig \<Rightarrow> Mapping" where
  "authoritative_fields rules authoritative =
    [(VString ''rules'', VSequence (map VString rules)),
     (VString ''mode'', VString ''rule''),
     (VString ''allow-lan'', VBool False),
     (VString ''ipv6'', VBool True),
     (VString ''geo-auto-update'', VBool False),
     (VString ''external-controller-unix'', VString (ac_controller_unix authoritative)),
     (VString ''secret'', VString (ac_secret authoritative)),
     (VString ''tun'', authoritative_tun_baseline)]"

definition install_dns :: "Mapping \<Rightarrow> (Mapping, ConfigError) result" where
  "install_dns document =
    (case m_get ''dns'' document of
       None \<Rightarrow> Ok (m_insert (VString ''dns'') (VMapping (put_all authoritative_dns_fields [])) document)
     | Some (VMapping dns) \<Rightarrow>
         Ok (m_insert (VString ''dns'') (VMapping (put_all authoritative_dns_fields dns)) document)
     | Some _ \<Rightarrow> Err (InvalidShape ''dns'' ''a mapping''))"

definition compile_document ::
  "ConfigEnv \<Rightarrow> ConfigCompiler \<Rightarrow> ProfileSnapshot \<Rightarrow> string list \<Rightarrow> AuthoritativeConfig \<Rightarrow> string \<Rightarrow>
    (Mapping \<times> ProviderRecord list, ConfigError) result" where
  "compile_document env compiler snapshot rules authoritative staging_root =
    and_then (validate_authoritative authoritative) (\<lambda>_.
    and_then (policy_validate (cc_policy compiler) (ps_document snapshot)) (\<lambda>_.
    and_then (validate_references (ps_document snapshot) rules) (\<lambda>_.
    and_then (canonical_staging_root env staging_root) (\<lambda>canonical_root.
    let document = strip_managed_mapping (ps_document snapshot) (cp_top_level (cc_policy compiler));
        document = put_all (authoritative_fields rules authoritative) document in
    and_then (install_dns document) (\<lambda>document.
    let document = m_insert (VString ''sniffer'') authoritative_sniffer_baseline document in
    and_then (classify_provider_section env document ''proxy-providers'' ProviderProxy canonical_root)
      (\<lambda>(document, proxy_records).
    and_then (classify_provider_section env document ''rule-providers'' ProviderRule canonical_root)
      (\<lambda>(document, rule_records).
    and_then (policy_validate (cc_policy compiler) document) (\<lambda>_.
    Ok (document, sort_providers (proxy_records @ rule_records))))))))))"

definition compile ::
  "ConfigEnv \<Rightarrow> ConfigCompiler \<Rightarrow> ProfileSnapshot \<Rightarrow> string list \<Rightarrow> AuthoritativeConfig \<Rightarrow> string \<Rightarrow>
    (EffectiveConfiguration, ConfigError) result" where
  "compile env compiler snapshot rules authoritative staging_root =
    and_then (compile_document env compiler snapshot rules authoritative staging_root)
      (\<lambda>(document, providers).
    and_then (ok_or (env_yaml_to_string env (canonicalize env (VMapping document))) ConfigSerializationFailed)
      (\<lambda>yaml.
    Ok \<lparr>ec_yaml = yaml, ec_core_version = cp_core_version (cc_policy compiler),
        ec_compiler_policy_sha256 = cc_policy_sha256 compiler, ec_providers = providers\<rparr>))"

definition compile_validated ::
  "(EffectiveConfiguration \<Rightarrow> string \<Rightarrow> bool) \<Rightarrow>
    ConfigEnv \<Rightarrow> ConfigCompiler \<Rightarrow> ProfileSnapshot \<Rightarrow> string list \<Rightarrow> AuthoritativeConfig \<Rightarrow> string \<Rightarrow>
    (EffectiveConfiguration, ConfigError) result" where
  "compile_validated core_accepts env compiler snapshot rules authoritative staging_root =
    and_then (compile env compiler snapshot rules authoritative staging_root) (\<lambda>configuration.
    and_then (canonical_staging_root env staging_root) (\<lambda>root.
    if core_accepts configuration root then Ok configuration else Err CoreValidationFailed))"

section \<open>Admission checks\<close>

definition restore_v5_sniffer_destination_policy :: "Mapping \<Rightarrow> (Mapping, ConfigError) result" where
  "restore_v5_sniffer_destination_policy document =
    (case Option.bind (m_get ''sniffer'' document) as_mapping of
       None \<Rightarrow> Err PersistedConfigurationInvalid
     | Some sniffer \<Rightarrow> Ok (m_update
         (map_mapping (m_insert (VString ''override-destination'') (VBool False))) (VString ''sniffer'') document))"

definition dns_recovery_fields :: "string list" where
  "dns_recovery_fields =
    [''ipv6'', ''enhanced-mode'', ''fake-ip-range'', ''fake-ip-range6'', ''fake-ip-filter-mode'', ''fake-ip-filter'']"

definition restore_field :: "Mapping option \<Rightarrow> string \<Rightarrow> Mapping \<Rightarrow> Mapping" where
  "restore_field profile field m =
    (case Option.bind profile (m_get field) of
       Some v \<Rightarrow> m_insert (VString field) v m
     | None \<Rightarrow> m_remove (VString field) m)"

definition restore_profile_domain_recovery_fields ::
  "Mapping \<Rightarrow> Mapping \<Rightarrow> (Mapping, ConfigError) result" where
  "restore_profile_domain_recovery_fields document profile =
    (let document = restore_field (Some profile) ''ipv6'' document;
         profile_dns = Option.bind (m_get ''dns'' profile) as_mapping
     in case Option.bind (m_get ''dns'' document) as_mapping of
          None \<Rightarrow> Err PersistedConfigurationInvalid
        | Some dns \<Rightarrow>
            let document = m_update
              (map_mapping (fold (restore_field profile_dns) dns_recovery_fields)) (VString ''dns'') document
            in Ok (restore_field (Some profile) ''sniffer'' document))"

definition document_text :: "ConfigEnv \<Rightarrow> Mapping \<Rightarrow> (string, ConfigError) result" where
  "document_text env m =
    ok_or (env_yaml_to_string env (canonicalize env (VMapping m))) ConfigSerializationFailed"

definition validate_persisted ::
  "ConfigEnv \<Rightarrow> ConfigCompiler \<Rightarrow> ProfileSnapshot \<Rightarrow> string list \<Rightarrow> string \<Rightarrow> string \<Rightarrow> checked" where
  "validate_persisted env compiler snapshot rules persisted staging_root =
    and_then (ok_or (Option.bind (env_yaml_from_slice env persisted) as_mapping) PersistedConfigurationInvalid)
      (\<lambda>document.
    and_then (ok_or (Option.bind (m_get ''external-controller-unix'' document) as_str) PersistedConfigurationInvalid)
      (\<lambda>controller_unix.
    and_then (ok_or (Option.bind (m_get ''secret'' document) as_str) PersistedConfigurationInvalid) (\<lambda>secret.
    and_then (compile env compiler snapshot rules
        \<lparr>ac_controller_unix = controller_unix, ac_secret = secret\<rparr> staging_root) (\<lambda>expected.
    if ec_yaml expected = persisted then Ok ()
    else (case env_yaml_from_slice env (ec_yaml expected) of
      Some (VMapping legacy) \<Rightarrow>
        and_then (restore_v5_sniffer_destination_policy legacy) (\<lambda>legacy_v5.
        and_then (document_text env legacy_v5) (\<lambda>legacy_v5_yaml.
        if legacy_v5_yaml = persisted then Ok ()
        else
          and_then (restore_profile_domain_recovery_fields legacy_v5 (ps_document snapshot)) (\<lambda>legacy_v4.
          and_then (document_text env legacy_v4) (\<lambda>legacy_v4_yaml.
          if legacy_v4_yaml = persisted then Ok ()
          else if m_get ''geo-auto-update'' legacy_v4 \<noteq> Some (VBool False)
          then Err PersistedConfigurationInvalid
          else
            let legacy_v4 = m_remove (VString ''geo-auto-update'') legacy_v4 in
            and_then (case m_get ''geo-auto-update'' (ps_document snapshot) of
                Some (VBool b) \<Rightarrow> Ok (m_insert (VString ''geo-auto-update'') (VBool b) legacy_v4)
              | Some _ \<Rightarrow> Err PersistedConfigurationInvalid
              | None \<Rightarrow> Ok legacy_v4) (\<lambda>legacy_v3.
            and_then (document_text env legacy_v3) (\<lambda>legacy_v3_yaml.
            if legacy_v3_yaml = persisted then Ok () else Err PersistedConfigurationInvalid))))))
    | _ \<Rightarrow> Err PersistedConfigurationInvalid)))))"

definition provider_path_ok :: "string btree_set \<Rightarrow> Value \<Rightarrow> bool" where
  "provider_path_ok provider_files entry =
    (case as_mapping entry of
       None \<Rightarrow> False
     | Some provider \<Rightarrow>
        (case Option.bind (m_get ''type'' provider) as_str of
           None \<Rightarrow> False
         | Some kind \<Rightarrow>
            (let path = Option.bind (m_get ''path'' provider) as_str in
             \<not> (case path of None \<Rightarrow> False
                | Some p \<Rightarrow> p = [] \<or> is_absolute p \<or>
                    \<not> list_all (\<lambda>c. case c of Normal _ \<Rightarrow> True | _ \<Rightarrow> False) (path_components p)) \<and>
             (if kind = ''file'' \<and> (case path of None \<Rightarrow> True | Some p \<Rightarrow> p \<notin> set provider_files) then False
              else if kind = ''http'' \<and> path = None then False
              else if kind = ''inline'' \<and> path \<noteq> None then False
              else True))))"

definition validate_provider_paths :: "Mapping \<Rightarrow> string btree_set \<Rightarrow> checked" where
  "validate_provider_paths document provider_files =
    check_all (\<lambda>section_name.
      case m_get section_name document of
        Some (VMapping providers) \<Rightarrow>
          check_all (\<lambda>entry. if provider_path_ok provider_files entry then Ok ()
            else Err PersistedConfigurationInvalid) (map snd providers)
      | _ \<Rightarrow> Ok ()) [''proxy-providers'', ''rule-providers'']"

definition value_is :: "Value option \<Rightarrow> Value \<Rightarrow> bool" where
  "value_is v w = (case v of None \<Rightarrow> False | Some v \<Rightarrow> value_eq v w)"

definition authoritative_fields_hold :: "AuthoritativeConfig \<Rightarrow> Mapping \<Rightarrow> bool" where
  "authoritative_fields_hold authoritative document \<longleftrightarrow>
    Option.bind (m_get ''mode'' document) as_str = Some ''rule'' \<and>
    Option.bind (m_get ''allow-lan'' document) as_bool = Some False \<and>
    Option.bind (m_get ''ipv6'' document) as_bool = Some True \<and>
    Option.bind (m_get ''geo-auto-update'' document) as_bool = Some False \<and>
    Option.bind (m_get ''external-controller-unix'' document) as_str = Some (ac_controller_unix authoritative) \<and>
    Option.bind (m_get ''secret'' document) as_str = Some (ac_secret authoritative) \<and>
    value_is (m_get ''tun'' document) authoritative_tun_baseline \<and>
    (case m_get ''rules'' document of Some (VSequence _) \<Rightarrow> True | _ \<Rightarrow> False)"

definition authoritative_dns_holds :: "Mapping \<Rightarrow> bool" where
  "authoritative_dns_holds dns =
    list_all (\<lambda>(k, v). value_is (map_of dns k) v) authoritative_dns_fields"

definition validate_privileged_candidate ::
  "ConfigEnv \<Rightarrow> ConfigCompiler \<Rightarrow> string \<Rightarrow> AuthoritativeConfig \<Rightarrow> string btree_set \<Rightarrow> checked" where
  "validate_privileged_candidate env compiler candidate authoritative provider_files =
    and_then (validate_authoritative authoritative) (\<lambda>_.
    and_then (ok_or (Option.bind (env_yaml_from_slice env candidate) as_mapping) PersistedConfigurationInvalid)
      (\<lambda>document.
    and_then (policy_validate (cc_policy compiler) document) (\<lambda>_.
    and_then (validate_managed_fields_absent document (cp_top_level (cc_policy compiler)) []) (\<lambda>_.
    if \<not> authoritative_fields_hold authoritative document then Err PersistedConfigurationInvalid
    else
      and_then (ok_or (Option.bind (m_get ''dns'' document) as_mapping) PersistedConfigurationInvalid) (\<lambda>dns.
      if \<not> authoritative_dns_holds dns \<or>
         \<not> value_is (m_get ''sniffer'' document) authoritative_sniffer_baseline
      then Err PersistedConfigurationInvalid
      else validate_provider_paths document provider_files)))))"

end
