(* ===== verification/Config_Admission.thy ===== *)
theory Config_Admission
  imports Config_Compiler
begin

text \<open>
  What the configuration compiler guarantees with the bundled policy: none of its \<open>expect\<close>
  calls can fire, and what it emits passes the check that the privileged service makes
  before it starts a core with it.

  After a restart the configuration is accepted again; there the only assumption on the
  surroundings is \<open>yaml_reads_back\<close>.

  The documented behaviour of the surroundings that the result about the service relies on is
  \<open>env_documented\<close>: text written by the YAML codec reads back as the same value, digests are
  lower-case hexadecimal, and canonical paths are absolute and without dot segments.

  The compiler writes the path of a local provider with slashes for backslashes, and the file
  list of the service has the path as it is.  On Unix a backslash is an ordinary character of a
  file name, so the two differ for such a name; that result is about configurations whose local
  providers have no backslash in their paths (\<open>plain_local_paths\<close>).
\<close>

definition canonical_path :: "string \<Rightarrow> bool" where
  "canonical_path p \<longleftrightarrow>
    (\<exists>pieces. path_components p = RootDir # map Normal pieces \<and>
       list_all (\<lambda>q. q \<noteq> [] \<and> q \<noteq> ''.'' \<and> q \<noteq> ''..'' \<and> slash \<notin> set q) pieces)"

definition yaml_reads_back :: "ConfigEnv \<Rightarrow> bool" where
  "yaml_reads_back env \<longleftrightarrow> (\<forall>v s. env_yaml_to_string env v = Some s \<longrightarrow> env_yaml_from_slice env s = Some v)"

definition env_documented :: "ConfigEnv \<Rightarrow> bool" where
  "env_documented env \<longleftrightarrow> yaml_reads_back env \<and>
    (\<forall>bytes. is_lower_sha256_hex (env_sha256_hex env bytes)) \<and>
    (\<forall>p q. env_canonicalize env p = Some q \<longrightarrow> canonical_path q)"

text \<open>The file list that the service receives names every local provider of a configuration.\<close>

definition names_local_files :: "string btree_set \<Rightarrow> EffectiveConfiguration \<Rightarrow> bool" where
  "names_local_files provider_files configuration =
    list_all (\<lambda>r. case pv_kind r of Local _ \<Rightarrow> pv_relative_path r \<in> set provider_files | Remote _ \<Rightarrow> True)
      (ec_providers configuration)"

definition plain_local_paths :: "EffectiveConfiguration \<Rightarrow> bool" where
  "plain_local_paths configuration =
    list_all (\<lambda>r. case pv_kind r of Local _ \<Rightarrow> CHR 0x5C \<notin> set (pv_relative_path r) | Remote _ \<Rightarrow> True)
      (ec_providers configuration)"

definition bundled_compiler :: "string \<Rightarrow> ConfigCompiler" where
  "bundled_compiler policy_sha256 = \<lparr>cc_policy = bundled_policy, cc_policy_sha256 = policy_sha256\<rparr>"

text \<open>The document before the provider sections are classified.\<close>

definition managed_document :: "Mapping \<Rightarrow> string list \<Rightarrow> AuthoritativeConfig \<Rightarrow> Mapping" where
  "managed_document document rules authoritative =
    put_all (authoritative_fields rules authoritative) (strip_managed_mapping document bundled_top_level)"

definition canonical_mapping :: "ConfigEnv \<Rightarrow> Mapping \<Rightarrow> Mapping" where
  "canonical_mapping env m = map (\<lambda>(k, v). (k, canonicalize env v)) (sort_key (yaml_key env \<circ> fst) m)"

definition plain_piece :: "string \<Rightarrow> bool" where
  "plain_piece q \<longleftrightarrow> q \<noteq> [] \<and> q \<noteq> ''.'' \<and> q \<noteq> ''..'' \<and> slash \<notin> set q"

definition admissible_path :: "string \<Rightarrow> bool" where
  "admissible_path p \<longleftrightarrow> p \<noteq> [] \<and> \<not> is_absolute p \<and>
    list_all (\<lambda>c. case c of Normal _ \<Rightarrow> True | _ \<Rightarrow> False) (path_components p)"

text \<open>A small profile and surroundings to evaluate the compiler on.\<close>

definition sample_snapshot :: ProfileSnapshot where
  "sample_snapshot = \<lparr>ps_raw = [], ps_document = [(VString ''port'', VNumber (PosInt 7890)),
       (VString ''rule-providers'', VMapping [(VString ''ads'', VMapping [(VString ''type'', VString ''file''),
         (VString ''behavior'', VString ''domain''), (VString ''path'', VString ''ads.yaml'')])])],
     ps_rule_strings = [], ps_content_sha256 = []\<rparr>"

definition sample_authoritative :: AuthoritativeConfig where
  "sample_authoritative = \<lparr>ac_controller_unix = ''/c'', ac_secret = ''k''\<rparr>"

definition plain_env :: ConfigEnv where
  "plain_env = \<lparr>env_canonicalize = (\<lambda>p. if p = ''/s'' \<or> p = ''/s/ads.yaml'' then Some p else None),
     env_is_dir = (\<lambda>p. p = ''/s''), env_is_file = (\<lambda>p. p = ''/s/ads.yaml''), env_yaml_to_string = (\<lambda>_. None), env_yaml_from_slice = (\<lambda>_. None),
     env_yaml_key_text = (\<lambda>_. []), env_sha256_hex = (\<lambda>_. replicate 64 CHR ''0''), env_url_parse = (\<lambda>_. None)\<rparr>"

definition sample_provider :: ProviderRecord where
  "sample_provider = \<lparr>pv_section = ProviderRule, pv_name = ''ads'', pv_relative_path = ''ads.yaml'',
     pv_kind = Local ''/s/ads.yaml''\<rparr>"

definition sample_document :: Mapping where
  "sample_document = (case compile_document plain_env (bundled_compiler []) sample_snapshot []
     sample_authoritative ''/s'' of Inr (d, _) \<Rightarrow> d | _ \<Rightarrow> [])"

definition sample_env :: ConfigEnv where
  "sample_env = plain_env\<lparr>
     env_yaml_to_string := (\<lambda>v. if v = canonicalize plain_env (VMapping sample_document) then Some ''doc'' else None),
     env_yaml_from_slice := (\<lambda>s. if s = ''doc'' then Some (canonicalize plain_env (VMapping sample_document)) else None)\<rparr>"

section \<open>No panics\<close>

lemma check_all_Ok: "check_all f xs = Ok () \<longleftrightarrow> (\<forall>x \<in> set xs. f x = Ok ())"
  by (induction xs) (auto simp: result_simps)

lemma check_all_no_panic:
  "(\<And>x. x \<in> set xs \<Longrightarrow> f x \<noteq> Err (Panic t)) \<Longrightarrow> check_all f xs \<noteq> Err (Panic t)"
  by (induction xs) (auto simp: result_simps)

lemma collect_result_no_panic:
  "(\<And>x. x \<in> set xs \<Longrightarrow> f x \<noteq> Err (Panic t)) \<Longrightarrow> collect_result f xs \<noteq> Err (Panic t)"
  by (auto dest!: collect_result_Err_first)

lemma in_enumerateD: "(i, x) \<in> set (enumerate n xs) \<Longrightarrow> x \<in> set xs"
  by (auto simp: in_set_enumerate_eq)

lemma bundled_lookup [simp]:
  "map_of bundled_top_level ''proxies'' = Some (SSequence proxy_schema)"
  "map_of bundled_top_level ''proxy-groups'' = Some (SSequence proxy_group_schema)"
  "map_of bundled_top_level ''proxy-providers'' = Some (SNamedMap (provider_schema (SSequence proxy_schema)))"
  "map_of bundled_top_level ''rule-providers'' = Some (SNamedMap (provider_schema string_sequence_schema))"
  "map_of bundled_top_level ''sub-rules'' = Some (SNamedMap string_sequence_schema)"
  "map_of bundled_top_level ''dns'' = Some (SMapping dns_fields [] CorePassthrough)"
  "map_of bundled_top_level ''ntp'' = Some (SMapping ntp_fields [] CorePassthrough)"
  by (simp_all add: bundled_top_level_def)

lemma conforms_field:
  assumes "conforms (VMapping m) (SMapping flds required additional)" "m_get f m = Some v" "map_of flds f = Some s"
  shows "conforms v s"
  using assms m_get_in [OF assms(2)] by (force simp: conforms_simps)

lemma required_string:
  assumes "conforms v (SMapping flds required additional)" "f \<in> set required" "map_of flds f = Some SString"
  shows "\<exists>m s. v = VMapping m \<and> Option.bind (m_get f m) as_str = Some s"
proof -
  obtain m where m: "v = VMapping m" "m_contains f m"
    using assms by (auto simp: conforms_simps)
  then obtain w where w: "m_get f m = Some w"
    by (auto simp: m_contains_def)
  with assms m conforms_field [of m flds required additional f w SString] have "is_string w"
    by (simp add: conforms_simps)
  with m w show ?thesis
    by (auto simp: is_string_def)
qed

lemma record_name_no_panic:
  assumes "conforms v (SMapping flds required additional)" "''name'' \<in> set required"
    "map_of flds ''name'' = Some SString"
  shows "record_name section_name (i, v) \<noteq> Err (Panic t)"
  using required_string [OF assms] by (auto simp: record_name_def split: if_splits)

lemma record_names_no_panic:
  assumes "policy_validate bundled_policy document = Ok ()"
    and "map_of bundled_top_level section_name = Some (SSequence (SMapping flds required additional))"
    and "''name'' \<in> set required" "map_of flds ''name'' = Some SString"
  shows "collect_record_names document section_name \<noteq> Err (Panic t)"
proof (cases "m_get section_name document")
  case (Some v)
  with assms(1,2) policy_validate_field [of bundled_policy document section_name v] have
    v: "conforms v (SSequence (SMapping flds required additional))"
    by (simp add: bundled_policy_def)
  then obtain vs where vs: "v = VSequence vs" "\<And>w. w \<in> set vs \<Longrightarrow> conforms w (SMapping flds required additional)"
    by (auto simp: conforms_simps(4))
  have "collect_result (record_name section_name) (enumerate 0 vs) \<noteq> Err (Panic t)"
    using record_name_no_panic [OF vs(2) assms(3,4)]
    by (intro collect_result_no_panic) (auto dest!: in_enumerateD)
  with Some vs show ?thesis
    by (simp add: collect_record_names_def)
qed (simp add: collect_record_names_def)

lemma map_names_no_panic:
  assumes "policy_validate bundled_policy document = Ok ()"
    and "map_of bundled_top_level section_name = Some (SNamedMap schema)"
  shows "collect_map_names document section_name \<noteq> Err (Panic t)"
proof (cases "m_get section_name document")
  case (Some v)
  with assms policy_validate_field [of bundled_policy document section_name v] have
    "conforms v (SNamedMap schema)"
    by (simp add: bundled_policy_def)
  then obtain m where m: "v = VMapping m" "\<And>k w. (k, w) \<in> set m \<Longrightarrow> \<exists>name. as_str k = Some name"
    by (auto simp: conforms_simps(6)) blast
  have "collect_result (map_name section_name) (map fst m) \<noteq> Err (Panic t)"
    using m(2) by (intro collect_result_no_panic) (fastforce simp: map_name_def split: if_splits)
  with Some m show ?thesis
    by (auto simp: collect_map_names_def result_simps)
qed (simp add: collect_map_names_def)

lemma unique_names_no_panic: "validate_unique_names proxies groups \<noteq> Err (Panic t)"
proof -
  have "unique_proxies names proxies \<noteq> Err (Panic t)" for names
    by (induction names proxies rule: unique_proxies.induct) auto
  moreover have "unique_groups names groups \<noteq> Err (Panic t)" for names
    by (induction names groups rule: unique_groups.induct) auto
  ultimately show ?thesis
    by (auto simp: validate_unique_names_def result_simps)
qed

lemma string_sequence_elements:
  "conforms v string_sequence_schema \<Longrightarrow> \<exists>vs. v = VSequence vs \<and> (\<forall>w \<in> set vs. \<exists>s. as_str w = Some s)"
  by (auto simp: string_sequence_schema_def conforms_simps is_string_def)

lemma group_field_no_panic:
  assumes "conforms (VMapping g) proxy_group_schema" "field = ''proxies'' \<or> field = ''use''"
  shows "group_field index g (field, available, kind) \<noteq> Err (Panic t)"
proof (cases "m_get field g")
  case (Some v)
  then have "conforms v string_sequence_schema"
    using assms conforms_field [of g _ _ _ field v string_sequence_schema] by (auto simp: proxy_group_schema_def)
  from string_sequence_elements [OF this] obtain vs where
    vs: "v = VSequence vs" "\<forall>w \<in> set vs. \<exists>s. as_str w = Some s" by blast
  have "check_all (group_reference index field available kind) (enumerate 0 vs) \<noteq> Err (Panic t)"
    using vs(2) by (intro check_all_no_panic) (fastforce simp: group_reference_def dest!: in_enumerateD split: if_splits)
  with Some vs show ?thesis
    by (simp add: group_field_def)
qed (simp add: group_field_def)

lemma group_references_no_panic:
  assumes "policy_validate bundled_policy document = Ok ()"
  shows "validate_group_references document targets providers \<noteq> Err (Panic t)"
proof (cases "m_get ''proxy-groups'' document")
  case (Some v)
  with assms policy_validate_field [of bundled_policy document "''proxy-groups''" v] have
    v: "conforms v (SSequence proxy_group_schema)"
    by (simp add: bundled_policy_def)
  then obtain vs where vs: "v = VSequence vs" "\<And>w. w \<in> set vs \<Longrightarrow> conforms w proxy_group_schema"
    by (auto simp: conforms_simps(4))
  have "group_references targets providers (i, w) \<noteq> Err (Panic t)" if w: "w \<in> set vs" for i w
  proof -
    obtain g where "w = VMapping g"
      using vs(2) [OF w] by (auto simp: proxy_group_schema_def conforms_simps(5))
    with vs(2) [OF w] show ?thesis
      by (auto simp: group_references_def result_simps group_field_no_panic)
  qed
  then have "check_all (group_references targets providers) (enumerate 0 vs) \<noteq> Err (Panic t)"
    by (intro check_all_no_panic) (auto dest!: in_enumerateD)
  with Some vs show ?thesis
    by (simp add: validate_group_references_def)
qed (simp add: validate_group_references_def)

lemma parse_rule_type_payload:
  assumes "parse_rule rule = Ok parsed" "pr_rule_type parsed = RtRuleSet"
  shows "\<exists>payload. pr_payload parsed = Some payload"
proof -
  have "pr_payload p \<noteq> None" if "parse_by_type rt rule rest = Ok p" "pr_rule_type p = RtRuleSet" for rt rest p
    using that
    by (cases rt) (auto simp: parse_standard_rule_def parse_rule_without_payload_def parse_logical_rule_def
        parse_regex_rule_def result_simps Let_def split: prod.splits)
  with assms show ?thesis
    by (auto simp: parse_rule_def result_simps split: option.splits)
qed

lemma validate_rule_string_no_panic:
  "validate_rule_string path targets providers subs (i, rule) \<noteq> Err (Panic t)"
proof
  assume "validate_rule_string path targets providers subs (i, rule) = Err (Panic t)"
  then obtain r parsed where "parse_rule r = Ok parsed" "pr_rule_type parsed = RtRuleSet" "pr_payload parsed = None"
    by (auto simp: validate_rule_string_def Let_def result_simps validate_reference_def
        split: if_splits option.splits)
  with parse_rule_type_payload show False by fastforce
qed

lemma sub_rules_no_panic:
  assumes "policy_validate bundled_policy document = Ok ()" "m_get ''sub-rules'' document = Some (VMapping sub_rules)"
  shows "check_all (sub_rule_strings targets providers subs) sub_rules \<noteq> Err (Panic t)"
proof (rule check_all_no_panic)
  fix x assume x: "x \<in> set sub_rules"
  obtain k v where kv: "x = (k, v)" by (cases x)
  have "conforms (VMapping sub_rules) (SNamedMap string_sequence_schema)"
    using assms policy_validate_field [of bundled_policy document "''sub-rules''"]
    by (simp add: bundled_policy_def)
  then obtain name where name: "as_str k = Some name" "conforms v string_sequence_schema"
    using x kv by (auto simp: conforms_simps(6))
  from string_sequence_elements [OF name(2)] obtain vs where
    vs: "v = VSequence vs" "\<forall>w \<in> set vs. \<exists>s. as_str w = Some s" by blast
  have "check_all (sub_rule_string path targets providers subs) (enumerate 0 vs) \<noteq> Err (Panic t)" for path
    using vs(2) validate_rule_string_no_panic
    by (intro check_all_no_panic) (fastforce simp: sub_rule_string_def dest!: in_enumerateD)
  with name(1) vs(1) kv show "sub_rule_strings targets providers subs x \<noteq> Err (Panic t)"
    by (simp add: sub_rule_strings_def)
qed

lemma references_no_panic:
  assumes ok: "policy_validate bundled_policy document = Ok ()"
  shows "validate_references document rules \<noteq> Err (Panic t)"
proof -
  have records: "collect_record_names document ''proxies'' \<noteq> Err (Panic t)"
    "collect_record_names document ''proxy-groups'' \<noteq> Err (Panic t)"
    using record_names_no_panic [OF ok, of "''proxies''"] record_names_no_panic [OF ok, of "''proxy-groups''"]
    by (simp_all add: proxy_schema_def proxy_group_schema_def)
  have maps: "collect_map_names document ''proxy-providers'' \<noteq> Err (Panic t)"
    "collect_map_names document ''rule-providers'' \<noteq> Err (Panic t)"
    "collect_map_names document ''sub-rules'' \<noteq> Err (Panic t)"
    using map_names_no_panic [OF ok] by simp_all
  have rules: "validate_rule_strings rules path targets providers subs \<noteq> Err (Panic t)" for path targets providers subs
    unfolding validate_rule_strings_def
    by (rule check_all_no_panic) (auto simp: validate_rule_string_no_panic)
  have subs: "(case m_get ''sub-rules'' document of
      Some (VMapping sub_rules) \<Rightarrow> check_all (sub_rule_strings targets providers subs) sub_rules
    | _ \<Rightarrow> Ok ()) \<noteq> Err (Panic t)" for targets providers subs
    using sub_rules_no_panic [OF ok] by (auto split: option.splits Value.splits)
  show ?thesis
    unfolding validate_references_def Let_def
    by (auto simp only: and_then_Err records maps rules subs unique_names_no_panic
        group_references_no_panic [OF ok])
qed

section \<open>The document on its way through the compiler\<close>

lemma set_m_remove_subset: "set (m_remove k m) \<subseteq> set m"
  by (induction m) (auto split: if_splits)

lemma strip_keeps_free_entry:
  "(VString f, v) \<in> set (strip_managed_mapping m flds) \<Longrightarrow> (\<And>s. (f, s) \<in> set flds \<Longrightarrow> managed_free s) \<Longrightarrow>
    (VString f, v) \<in> set m"
proof (induction flds arbitrary: m)
  case (Cons fs flds)
  obtain g s where fs: "fs = (g, s)" by (cases fs)
  define m' where "m' = (if is_managed s then m_remove (VString g) m
    else m_update (\<lambda>v. strip_managed_node v s) (VString g) m)"
  have "(VString f, v) \<in> set m'"
    using Cons.IH [of m'] Cons.prems by (simp add: fs m'_def)
  then show ?case
  proof (cases "is_managed s")
    case True
    with \<open>(VString f, v) \<in> set m'\<close> show ?thesis
      using set_m_remove_subset by (force simp: m'_def)
  next
    case False
    with \<open>(VString f, v) \<in> set m'\<close> Cons.prems(2) [of s] show ?thesis
      by (auto simp: m'_def fs strip_managed_free dest!: set_m_update)
  qed
qed simp

lemma bundled_distinct: "distinct (map fst bundled_top_level)"
  by (simp add: bundled_top_level_def)

lemma provider_schemas_free [simp]:
  "managed_free (provider_schema (SSequence proxy_schema))"
  "managed_free (provider_schema string_sequence_schema)"
  by (simp_all add: provider_schema_def proxy_schema_def string_sequence_schema_def)

lemma m_get_put_all:
  "m_get f (put_all entries m) =
    (case map_of (rev entries) (VString f) of Some v \<Rightarrow> Some v | None \<Rightarrow> m_get f m)"
proof (induction entries arbitrary: m)
  case (Cons kv entries)
  obtain k v where "kv = (k, v)" by (cases kv)
  with Cons show ?case
    by (auto simp: put_all_def m_get_def map_add_def split: option.splits)
qed (simp add: put_all_def)

lemma m_get_managed_document:
  "m_get f (managed_document document rules authoritative) =
    (if f = ''tun'' then Some authoritative_tun_baseline
     else if f = ''secret'' then Some (VString (ac_secret authoritative))
     else if f = ''external-controller-unix'' then Some (VString (ac_controller_unix authoritative))
     else if f = ''geo-auto-update'' then Some (VBool False)
     else if f = ''ipv6'' then Some (VBool True)
     else if f = ''allow-lan'' then Some (VBool False)
     else if f = ''mode'' then Some (VString ''rule'')
     else if f = ''rules'' then Some (VSequence (map VString rules))
     else m_get f (strip_managed_mapping document bundled_top_level))"
  by (simp add: managed_document_def m_get_put_all authoritative_fields_def)

lemma install_dns_get:
  assumes "install_dns document = Ok document'"
  shows "m_get f document' =
    (if f = ''dns'' then Some (VMapping (put_all authoritative_dns_fields
        (case m_get ''dns'' document of Some (VMapping dns) \<Rightarrow> dns | _ \<Rightarrow> [])))
     else m_get f document)"
  using assms by (auto simp: install_dns_def split: option.splits Value.splits)

lemma classify_section_get:
  assumes "classify_provider_section env document section_name sec root = Ok (document', records)"
  shows "f \<noteq> section_name \<Longrightarrow> m_get f document' = m_get f document"
  using assms by (auto simp: classify_provider_section_def result_simps split: option.splits Value.splits)

lemma provider_section_conforms:
  assumes "policy_validate bundled_policy document = Ok ()"
    and "m_get section_name (strip_managed_mapping document bundled_top_level) = Some v"
    and "map_of bundled_top_level section_name = Some s" "managed_free s"
  shows "conforms v s"
proof -
  have "(VString section_name, v) \<in> set document"
  proof (rule strip_keeps_free_entry [OF m_get_in [OF assms(2)]])
    fix s' assume "(section_name, s') \<in> set bundled_top_level"
    then have "s' = s"
      using assms(3) bundled_distinct by (auto simp: map_of_eq_Some_iff)
    with assms(4) show "managed_free s'" by simp
  qed
  with assms(1,3) show ?thesis
    by (fastforce simp: policy_validate_def validate_decides bundled_policy_def)
qed

lemma provider_type:
  assumes "conforms v (provider_schema payload)"
  obtains m d kind where "v = VMapping m" "m_get ''type'' m = Some d" "as_str d = Some kind"
    "kind = ''file'' \<or> kind = ''http'' \<or> kind = ''inline''"
  using assms by (auto simp: provider_schema_def conforms_simps(7) split: if_splits)

lemma classify_no_panic:
  assumes "\<And>v. m_get section_name document = Some v \<Longrightarrow> conforms v (SNamedMap (provider_schema payload))"
  shows "classify_provider_section env document section_name sec root \<noteq> Err (Panic t)"
proof (cases "m_get section_name document")
  case (Some v)
  then obtain m where v: "v = VMapping m" "\<And>k w. (k, w) \<in> set m \<Longrightarrow>
      (\<exists>name. as_str k = Some name) \<and> conforms w (provider_schema payload)"
    using assms by (fastforce simp: conforms_simps(6))
  have local: "resolve_local_provider env root raw \<noteq> Err (Panic t)" for raw
    by (auto simp: resolve_local_provider_def Let_def result_simps split: if_splits)
  have "classify_provider env section_name sec root x \<noteq> Err (Panic t)" if "x \<in> set m" for x
  proof -
    obtain k w where x: "x = (k, w)" by (cases x)
    with v(2) that obtain name where name: "as_str k = Some name" "conforms w (provider_schema payload)" by blast
    from name(2) show ?thesis
      by (rule provider_type)
        (auto simp: x name(1) classify_provider_def Let_def result_simps local split: if_splits)
  qed
  then have "collect_result (classify_provider env section_name sec root) m \<noteq> Err (Panic t)"
    by (rule collect_result_no_panic)
  with Some v(1) show ?thesis
    by (auto simp: classify_provider_section_def result_simps)
qed (simp add: classify_provider_section_def)

lemma compile_document_bundled:
  "compile_document env (bundled_compiler h) snapshot rules authoritative root =
    and_then (validate_authoritative authoritative) (\<lambda>_.
    and_then (policy_validate bundled_policy (ps_document snapshot)) (\<lambda>_.
    and_then (validate_references (ps_document snapshot) rules) (\<lambda>_.
    and_then (canonical_staging_root env root) (\<lambda>canonical_root.
    and_then (install_dns (managed_document (ps_document snapshot) rules authoritative)) (\<lambda>document.
    and_then (classify_provider_section env (m_insert (VString ''sniffer'') authoritative_sniffer_baseline document)
        ''proxy-providers'' ProviderProxy canonical_root) (\<lambda>proxies.
    and_then (classify_provider_section env (fst proxies) ''rule-providers'' ProviderRule canonical_root) (\<lambda>rules.
    and_then (policy_validate bundled_policy (fst rules)) (\<lambda>_.
    Ok (fst rules, sort_providers (snd proxies @ snd rules))))))))))"
  by (simp add: compile_document_def bundled_compiler_def managed_document_def bundled_policy_def Let_def
      case_prod_unfold)

lemma and_then_no_panic:
  "r \<noteq> Err (Panic t) \<Longrightarrow> (\<And>v. r = Ok v \<Longrightarrow> f v \<noteq> Err (Panic t)) \<Longrightarrow> and_then r f \<noteq> Err (Panic t)"
  by (auto simp: result_simps)

lemma managed_sections_conform:
  assumes "policy_validate bundled_policy document = Ok ()"
    and "install_dns (managed_document document rules authoritative) = Ok d"
    and "m_get f (m_insert (VString ''sniffer'') authoritative_sniffer_baseline d) = Some v"
    and "f = ''proxy-providers'' \<and> s = SNamedMap (provider_schema (SSequence proxy_schema)) \<or>
       f = ''rule-providers'' \<and> s = SNamedMap (provider_schema string_sequence_schema)"
  shows "conforms v s"
  using assms(3,4) provider_section_conforms [OF assms(1), of f v s]
  by (auto simp: install_dns_get [OF assms(2)] m_get_managed_document)

lemma compile_document_no_panic:
  "compile_document env (bundled_compiler h) snapshot rules authoritative root \<noteq> Err (Panic t)"
proof -
  have authoritative: "validate_authoritative authoritative \<noteq> Err (Panic t)"
    by (simp add: validate_authoritative_def)
  have policy: "policy_validate bundled_policy d \<noteq> Err (Panic t)" for d
    by (simp add: policy_validate_def validate_no_panic)
  have root: "canonical_staging_root env root \<noteq> Err (Panic t)"
    by (auto simp: canonical_staging_root_def result_simps split: if_splits)
  have dns: "install_dns d \<noteq> Err (Panic t)" for d
    by (auto simp: install_dns_def split: option.splits Value.splits)
  have proxies: "classify_provider_section env (m_insert (VString ''sniffer'') authoritative_sniffer_baseline d)
        ''proxy-providers'' ProviderProxy r \<noteq> Err (Panic t)"
    if "policy_validate bundled_policy (ps_document snapshot) = Ok ()"
      "install_dns (managed_document (ps_document snapshot) rules authoritative) = Ok d" for d r
    by (rule classify_no_panic) (use managed_sections_conform [OF that] in blast)
  have rule_section: "classify_provider_section env (fst proxies) ''rule-providers'' ProviderRule r \<noteq> Err (Panic t)"
    if ok: "policy_validate bundled_policy (ps_document snapshot) = Ok ()"
      "install_dns (managed_document (ps_document snapshot) rules authoritative) = Ok d"
      and proxies: "classify_provider_section env (m_insert (VString ''sniffer'') authoritative_sniffer_baseline d)
        ''proxy-providers'' ProviderProxy r = Ok proxies" for d r proxies
  proof -
    have "m_get ''rule-providers'' (fst proxies) =
        m_get ''rule-providers'' (m_insert (VString ''sniffer'') authoritative_sniffer_baseline d)"
      using proxies classify_section_get
        [of env _ "''proxy-providers''" ProviderProxy r "fst proxies" "snd proxies" "''rule-providers''"]
      by simp
    with managed_sections_conform [OF ok, of "''rule-providers''"] show ?thesis
      by (intro classify_no_panic [where payload = string_sequence_schema]) simp
  qed
  show ?thesis
    unfolding compile_document_bundled
    by (intro and_then_no_panic)
      (simp_all add: authoritative policy root dns proxies rule_section references_no_panic)
qed

section \<open>Admission\<close>

lemma compile_document_Ok:
  assumes "compile_document env (bundled_compiler h) snapshot rules authoritative root = Ok (document, providers)"
  obtains canonical_root d d1 records1 records2 where
    "validate_authoritative authoritative = Ok ()"
    "policy_validate bundled_policy (ps_document snapshot) = Ok ()"
    "canonical_staging_root env root = Ok canonical_root"
    "install_dns (managed_document (ps_document snapshot) rules authoritative) = Ok d"
    "classify_provider_section env (m_insert (VString ''sniffer'') authoritative_sniffer_baseline d)
      ''proxy-providers'' ProviderProxy canonical_root = Ok (d1, records1)"
    "classify_provider_section env d1 ''rule-providers'' ProviderRule canonical_root = Ok (document, records2)"
    "policy_validate bundled_policy document = Ok ()"
    "providers = sort_providers (records1 @ records2)"
  using assms by (auto simp: compile_document_bundled and_then_Ok)

subsection \<open>Canonical form\<close>

lemma canonical_entries_append:
  "distinct (map fst (acc @ entries)) \<Longrightarrow>
    canonical_entries env entries acc = acc @ map (\<lambda>(k, v). (k, canonicalize env v)) entries"
proof (induction entries arbitrary: acc)
  case (Cons kv entries)
  obtain k v where "kv = (k, v)" by (cases kv)
  with Cons show ?case
    by (auto simp: m_insert_fresh)
qed simp

lemma canonicalize_mapping:
  assumes "m_wf m"
  shows "canonicalize env (VMapping m) =
    VMapping (map (\<lambda>(k, v). (k, canonicalize env v)) (sort_key (yaml_key env \<circ> fst) m))"
proof -
  have "distinct (map fst (sort_key g m))" for g :: "Value \<times> Value \<Rightarrow> string"
    using assms by (simp add: m_wf_def distinct_map inj_on_def)
  then show ?thesis
    by (simp add: canonicalize.simps canonical_entries_append)
qed

lemma canonicalize_simps [simp]:
  "canonicalize env VNull = VNull" "canonicalize env (VBool b) = VBool b"
  "canonicalize env (VNumber n) = VNumber n" "canonicalize env (VString s) = VString s"
  "canonicalize env (VTagged t v) = VTagged t v"
  "canonicalize env (VSequence vs) = VSequence (map (canonicalize env) vs)"
proof -
  have "canonical_items env vs = map (canonicalize env) vs"
    by (induction vs) auto
  then show "canonicalize env (VSequence vs) = VSequence (map (canonicalize env) vs)"
    by (simp add: canonicalize.simps)
qed (simp_all add: canonicalize.simps)

lemma set_canonical_mapping: "set (canonical_mapping env m) = (\<lambda>(k, v). (k, canonicalize env v)) ` set m"
  by (simp add: canonical_mapping_def)

lemma m_get_canonical_mapping:
  assumes "m_wf m"
  shows "map_of (canonical_mapping env m) k = map_option (canonicalize env) (map_of m k)"
proof -
  have "distinct (map fst (canonical_mapping env m))"
    using assms by (simp add: canonical_mapping_def m_wf_def comp_def case_prod_unfold distinct_map inj_on_def)
  then have "map_of (canonical_mapping env m) k = Some w \<longleftrightarrow> (\<exists>v. map_of m k = Some v \<and> w = canonicalize env v)" for w
    using assms by (auto simp: map_of_eq_Some_iff map_of_iff set_canonical_mapping)
  then show ?thesis
    by (cases "map_of m k"; cases "map_of (canonical_mapping env m) k") auto
qed

lemma as_str_canonicalize: "as_str (canonicalize env v) = as_str v"
  by (cases v) (simp_all add: as_str_def canonicalize.simps)

lemma canonicalize_VMapping:
  "m_wf m \<Longrightarrow> canonicalize env (VMapping m) = VMapping (canonical_mapping env m)"
  by (simp add: canonicalize_mapping canonical_mapping_def)

lemma m_contains_canonical: "m_wf m \<Longrightarrow> m_contains f (canonical_mapping env m) \<longleftrightarrow> m_contains f m"
  by (simp add: m_contains_def m_get_def m_get_canonical_mapping)

lemma conforms_canonicalize:
  "conforms v s \<Longrightarrow> value_wf v \<Longrightarrow> conforms (canonicalize env v) s"
proof (induction rule: conforms.induct)
  case (conforms_string v)
  then show ?case by (simp add: conforms_simps is_string_def as_str_canonicalize)
next
  case (conforms_sequence vs item)
  then show ?case by (auto simp: conforms_simps)
next
  case (conforms_mapping required m flds additional)
  then show ?case
    by (fastforce simp: canonicalize_VMapping conforms_simps(5) m_contains_canonical set_canonical_mapping)
next
  case (conforms_named m schema)
  then show ?case
    by (fastforce simp: canonicalize_VMapping conforms_simps(6) set_canonical_mapping)
next
  case (conforms_discriminated discriminator m d variant variants variant_flds required variant_required
      common additional)
  have wf: "m_wf m" using conforms_discriminated.prems by simp
  have entries: "\<exists>key. as_str k = Some key \<and>
      (\<forall>s. variant_field common variant_flds key = Some s \<longrightarrow> conforms v s) \<and>
      (variant_field common variant_flds key = None \<longrightarrow>
         \<not> list_ex (\<lambda>(_, flds). map_of flds key \<noteq> None) variants \<and> are_core_passthrough additional)"
    if "(k, v) \<in> set (canonical_mapping env m)" for k v
    using that conforms_discriminated.IH conforms_discriminated.prems
    by (fastforce simp: set_canonical_mapping)
  show ?case
    unfolding canonicalize_VMapping [OF wf]
    by (rule conforms.conforms_discriminated [where d = "canonicalize env d"])
      (use conforms_discriminated.hyps entries in
        \<open>auto simp: m_contains_canonical [OF wf] m_get_def m_get_canonical_mapping [OF wf] as_str_canonicalize\<close>)
qed (simp_all add: conforms_simps)

lemma value_eq_canonicalize: "value_wf v \<Longrightarrow> value_eq (canonicalize env v) v"
proof (induction v)
  case (VSequence vs)
  then show ?case by (simp add: list_all2_conv_all_nth)
next
  case (VMapping m)
  have "\<exists>(k', v') \<in> set m. value_eq k k' \<and> value_eq w v'" if kw: "(k, w) \<in> set (canonical_mapping env m)" for k w
  proof -
    obtain v where v: "(k, v) \<in> set m" "w = canonicalize env v"
      using kw by (auto simp: set_canonical_mapping)
    then have "value_eq w v"
      using VMapping.IH(2) [of "(k, v)" v] VMapping.prems by (auto simp: prod_set_simps)
    with v show ?thesis by (intro bexI [of _ "(k, v)"]) auto
  qed
  with VMapping.prems show ?case
    by (auto simp: canonicalize_VMapping) (simp add: canonical_mapping_def)
qed simp_all

subsection \<open>Well-formedness\<close>

lemma m_get_wf: "value_wf (VMapping m) \<Longrightarrow> m_get k m = Some v \<Longrightarrow> value_wf v"
  by (auto dest: m_get_in)

lemma value_wf_put_all:
  "value_wf (VMapping m) \<Longrightarrow> (\<And>k v. (k, v) \<in> set entries \<Longrightarrow> value_wf k \<and> value_wf v) \<Longrightarrow>
    value_wf (VMapping (put_all entries m))"
proof (induction entries arbitrary: m)
  case (Cons kv entries)
  obtain k v where kv: "kv = (k, v)" by (cases kv)
  have "value_wf (VMapping (m_insert k v m))"
    using Cons.prems kv by (intro value_wf_insert) auto
  moreover have "value_wf k' \<and> value_wf v'" if "(k', v') \<in> set entries" for k' v'
    using Cons.prems(2) [of k' v'] that by simp
  ultimately have "value_wf (VMapping (put_all entries (m_insert k v m)))"
    by (rule Cons.IH)
  then show ?case by (simp add: put_all_def kv del: value_wf_simps)
qed (simp add: put_all_def)

lemma baseline_wf [simp]:
  "value_wf authoritative_tun_baseline" "value_wf authoritative_sniffer_baseline"
  "(k, v) \<in> set authoritative_dns_fields \<Longrightarrow> value_wf k \<and> value_wf v"
  by (auto simp: authoritative_tun_baseline_def authoritative_sniffer_baseline_def
      authoritative_dns_fields_def m_wf_def)

lemma managed_document_wf:
  "value_wf (VMapping document) \<Longrightarrow> value_wf (VMapping (managed_document document rules authoritative))"
  unfolding managed_document_def
  by (rule value_wf_put_all) (auto simp: authoritative_fields_def value_wf_strip simp del: value_wf_simps(6))

lemma install_dns_wf:
  assumes "install_dns document = Ok d" "value_wf (VMapping document)"
  shows "value_wf (VMapping d)"
proof -
  have dns: "value_wf (VMapping dns)" if "m_get ''dns'' document = Some (VMapping dns)" for dns
    using m_get_wf [OF assms(2) that] .
  have empty: "value_wf (VMapping [])" by (simp add: m_wf_def)
  show ?thesis
    using assms dns empty
    by (auto simp: install_dns_def intro!: value_wf_insert value_wf_put_all simp del: value_wf_simps(6)
        split: option.splits Value.splits)
qed

lemma classify_provider_Ok:
  assumes "classify_provider env section_name sec root x = Ok (y, records)"
  obtains (Http) k p url name where "x = (k, VMapping p)" "Option.bind (m_get ''type'' p) as_str = Some ''http''"
      "y = (k, VMapping (m_insert (VString ''path'')
        (VString (path_string (controlled_remote_path env sec name url))) p))"
  | (File) k p raw source rel entry where "x = (k, VMapping p)" "Option.bind (m_get ''type'' p) as_str = Some ''file''"
      "resolve_local_provider env root raw = Ok (source, rel)"
      "y = (k, VMapping (m_insert (VString ''path'') (VString (path_string rel)) p))"
      "records = [entry]" "pv_relative_path entry = rel" "pv_kind entry = Local source"
  | (Inline) k p where "x = (k, VMapping p)" "Option.bind (m_get ''type'' p) as_str = Some ''inline''"
      "y = (k, VMapping (m_remove (VString ''path'') p))"
proof -
  obtain k w where x: "x = (k, w)" by (cases x)
  obtain name where name: "as_str k = Some name"
    using assms by (auto simp: x classify_provider_def split: option.splits)
  obtain p where p: "w = VMapping p"
    using assms name by (auto simp: x classify_provider_def Let_def split: Value.splits)
  obtain kind where kind: "Option.bind (m_get ''type'' p) as_str = Some kind"
    using assms name by (auto simp: x p classify_provider_def Let_def split: option.splits)
  show ?thesis
    using assms Http File Inline
    by (auto simp: x p name kind classify_provider_def Let_def result_simps split: if_splits prod.splits)
qed

lemma classify_section_Ok:
  assumes "classify_provider_section env document section_name sec root = Ok (document', records)"
    and "m_get section_name document' = Some v"
    and "\<And>v. m_get section_name document = Some v \<Longrightarrow> conforms v (SNamedMap s)"
  obtains providers classified where
    "m_get section_name document = Some (VMapping providers)"
    "v = VMapping (map fst classified)" "records = concat (map snd classified)"
    "list_all2 (\<lambda>x y. classify_provider env section_name sec root x = Ok y) providers classified"
proof (cases "m_get section_name document")
  case None
  with assms(1,2) have False by (simp add: classify_provider_section_def)
  then show ?thesis ..
next
  case (Some w)
  then obtain providers where w: "w = VMapping providers"
    using assms(3) by (auto simp: conforms_simps)
  with Some assms(1) obtain classified where c:
    "collect_result (classify_provider env section_name sec root) providers = Ok classified"
    "document' = m_update (\<lambda>_. VMapping (map fst classified)) (VString section_name) document"
    "records = concat (map snd classified)"
    by (auto simp: classify_provider_section_def result_simps)
  with Some assms(2) have "v = VMapping (map fst classified)" by simp
  with c Some w that show ?thesis by (simp add: collect_result_Ok_iff)
qed

lemma classify_provider_wf:
  assumes "classify_provider env section_name sec root (k, v) = Ok y" "value_wf k" "value_wf v"
  shows "fst (fst y) = k \<and> value_wf (snd (fst y))"
proof -
  obtain z records where y: "y = (z, records)" by (cases y)
  from assms(1) y have "classify_provider env section_name sec root (k, v) = Ok (z, records)" by simp
  then show ?thesis
    by (rule classify_provider_Ok) (use assms(2,3) y in \<open>auto simp del: value_wf_simps(6)
        intro!: value_wf_insert value_wf_remove\<close>)
qed

lemma classify_section_wf:
  assumes "classify_provider_section env document section_name sec root = Ok (document', records)"
    and "value_wf (VMapping document)"
  shows "value_wf (VMapping document')"
proof (cases "\<exists>providers. m_get section_name document = Some (VMapping providers)")
  case False
  then have "document' = document"
    using assms(1) by (auto simp: classify_provider_section_def split: option.splits Value.splits)
  with assms(2) show ?thesis by simp
next
  case True
  then obtain providers classified where c: "m_get section_name document = Some (VMapping providers)"
    "list_all2 (\<lambda>x y. classify_provider env section_name sec root x = Ok y) providers classified"
    "document' = m_update (\<lambda>_. VMapping (map fst classified)) (VString section_name) document"
    using assms(1) by (auto simp: classify_provider_section_def result_simps collect_result_Ok_iff)
  have wf: "value_wf (VMapping providers)"
    using m_get_wf [OF assms(2) c(1)] .
  have rel: "list_all2 (\<lambda>x y. fst (fst y) = fst x \<and> value_wf (fst x) \<and> value_wf (snd (fst y))) providers classified"
    using c(2)
  proof (rule list.rel_mono_strong)
    fix x y assume x: "x \<in> set providers" "classify_provider env section_name sec root x = Ok y"
    have "value_wf (fst x)" "value_wf (snd x)"
      using wf x(1) by auto
    with classify_provider_wf [of env section_name sec root "fst x" "snd x" y] x(2)
    show "fst (fst y) = fst x \<and> value_wf (fst x) \<and> value_wf (snd (fst y))" by simp
  qed
  then have "map fst (map fst classified) = map fst providers"
    by (auto simp: list_all2_conv_all_nth intro!: nth_equalityI)
  moreover have "value_wf (fst (fst y)) \<and> value_wf (snd (fst y))" if "y \<in> set classified" for y
    using rel that by (auto simp: list_all2_conv_all_nth in_set_conv_nth)
  ultimately have "value_wf (VMapping (map fst classified))"
    using wf by (fastforce simp: m_wf_def)
  with c(3) assms(2) show ?thesis
    by (simp add: value_wf_update del: value_wf_simps)
qed

subsection \<open>Provider paths\<close>

lemma plain_pieces_path:
  assumes "pieces \<noteq> []" "\<And>q. q \<in> set pieces \<Longrightarrow> plain_piece q"
  shows "admissible_path (join_with slash pieces)"
proof -
  have split: "split_on slash (join_with slash pieces) = pieces"
    using assms by (intro split_join) (auto simp: plain_piece_def)
  obtain q qs where q: "pieces = q # qs" using assms(1) by (cases pieces) auto
  have plain: "plain_piece q" using assms(2) q by simp
  obtain rest where head: "join_with slash pieces = q @ rest"
    by (cases qs) (auto simp: q)
  obtain c q' where "q = c # q'" "c \<noteq> slash"
    using plain by (cases q) (auto simp: plain_piece_def)
  with head have "\<not> is_absolute (join_with slash pieces)" "join_with slash pieces \<noteq> []"
    by (simp_all add: is_absolute_def)
  moreover have "concat (map piece_component pieces) = map Normal pieces"
    using assms(2) by (induction pieces) (auto simp: plain_piece_def)
  ultimately have "path_components (join_with slash pieces) = map Normal pieces"
    unfolding path_components_def split using plain by (simp add: q plain_piece_def)
  with \<open>\<not> is_absolute (join_with slash pieces)\<close> \<open>join_with slash pieces \<noteq> []\<close>
  show "admissible_path (join_with slash pieces)"
    by (simp add: admissible_path_def list_all_iff)
qed

lemma path_string_plain: "CHR 0x5C \<notin> set p \<Longrightarrow> path_string p = p"
  by (auto simp: path_string_def intro!: map_idI)

lemma controlled_path_admissible:
  assumes "is_lower_sha256_hex (env_sha256_hex env (section_directory sec @ [nul] @ name @ [nul] @ url))"
  shows "admissible_path (path_string (controlled_remote_path env sec name url))"
proof -
  define digest where "digest = env_sha256_hex env (section_directory sec @ [nul] @ name @ [nul] @ url)"
  have digest: "slash \<notin> set digest" "CHR 0x5C \<notin> set digest" "64 = length digest"
    using assms unfolding digest_def [symmetric] by (auto simp: is_lower_sha256_hex_def list_all_iff)
  then have plain: "plain_piece (digest @ ''.yaml'')"
    by (auto simp: plain_piece_def dest!: arg_cong [where f = length])
  have "\<not> is_absolute (digest @ ''.yaml'')"
    using digest by (cases digest) (auto simp: is_absolute_def)
  then have "controlled_remote_path env sec name url =
      join_with slash [''providers'', section_directory sec, digest @ ''.yaml'']"
    unfolding controlled_remote_path_def Let_def digest_def [symmetric]
    by (cases sec) (auto simp: path_join_def is_absolute_def suffix_def)
  moreover have "plain_piece q" if "q \<in> set [''providers'', section_directory sec, digest @ ''.yaml'']" for q
    using that plain by (cases sec) (auto simp: plain_piece_def)
  moreover have "CHR 0x5C \<notin> set (join_with slash [''providers'', section_directory sec, digest @ ''.yaml''])"
    using digest(2) by (cases sec) auto
  ultimately show ?thesis
    using plain_pieces_path [of "[''providers'', section_directory sec, digest @ ''.yaml'']"] by (simp add: path_string_plain)
qed

lemma canonical_path_alt:
  "canonical_path p \<longleftrightarrow> (\<exists>pieces. path_components p = RootDir # map Normal pieces \<and> (\<forall>q \<in> set pieces. plain_piece q))"
  by (simp add: canonical_path_def plain_piece_def list_all_iff)

lemma local_path_admissible:
  assumes "resolve_local_provider env root raw = Ok (source, rel)"
    and "canonical_path root" "\<And>p q. env_canonicalize env p = Some q \<Longrightarrow> canonical_path q"
  shows "admissible_path rel"
proof -
  have source: "canonical_path source" "path_strip_prefix root source = Some rel" "rel \<noteq> []"
    using assms(1,3) by (auto simp: resolve_local_provider_def Let_def result_simps split: if_splits)
  obtain rs where rs: "path_components root = RootDir # map Normal rs"
    using assms(2) by (auto simp: canonical_path_alt)
  obtain ps where ps: "path_components source = RootDir # map Normal ps" "\<forall>q \<in> set ps. plain_piece q"
    using source(1) by (auto simp: canonical_path_alt)
  have rel: "rel = join_with slash (drop (length rs) ps)"
    using source(2) by (simp add: path_strip_prefix_def rs ps drop_map comp_def split: if_splits)
  with source(3) have "drop (length rs) ps \<noteq> []" by auto
  moreover have "plain_piece q" if "q \<in> set (drop (length rs) ps)" for q
    using that ps(2) by (auto dest: in_set_dropD)
  ultimately show ?thesis
    using plain_pieces_path [of "drop (length rs) ps"] by (simp add: rel)
qed

lemma provider_path_ok_alt:
  assumes "as_mapping entry = Some p" "Option.bind (m_get ''type'' p) as_str = Some kind"
    and "Option.bind (m_get ''path'' p) as_str = path"
    and "\<And>q. path = Some q \<Longrightarrow> admissible_path q"
    and "kind = ''file'' \<and> (\<exists>q \<in> set files. path = Some q) \<or> kind = ''http'' \<and> path \<noteq> None \<or>
      kind = ''inline'' \<and> path = None"
  shows "provider_path_ok files entry"
  using assms by (auto simp: provider_path_ok_def Let_def admissible_path_def split: option.splits)

lemma m_get_canonical: "m_wf m \<Longrightarrow> m_get f (canonical_mapping env m) = map_option (canonicalize env) (m_get f m)"
  by (simp add: m_get_def m_get_canonical_mapping)

lemma bind_as_str_canonical:
  "Option.bind (map_option (canonicalize env) v) as_str = Option.bind v as_str"
  by (cases v) (simp_all add: as_str_canonicalize)

lemma classified_provider_admitted:
  assumes "classify_provider env section_name sec root x = Ok (y, records)"
    and env: "env_documented env" and root: "canonical_path root"
    and wf: "value_wf (snd x)"
    and files: "\<And>r s. r \<in> set records \<Longrightarrow> pv_kind r = Local s \<Longrightarrow>
      pv_relative_path r \<in> set files \<and> CHR 0x5C \<notin> set (pv_relative_path r)"
  shows "provider_path_ok files (canonicalize env (snd y))"
  using assms(1)
proof (cases rule: classify_provider_Ok)
  case (Http k p url name)
  define path where "path = path_string (controlled_remote_path env sec name url)"
  have "m_wf (m_insert (VString ''path'') (VString path) p)"
    using wf Http by (simp add: m_wf_insert)
  moreover have "admissible_path path"
    unfolding path_def using env by (intro controlled_path_admissible) (simp add: env_documented_def)
  ultimately show ?thesis
    using Http(2,3)
    by (intro provider_path_ok_alt [where kind = "''http''" and path = "Some path"
          and p = "canonical_mapping env (m_insert (VString ''path'') (VString path) p)"])
      (simp_all add: path_def [symmetric] canonicalize_VMapping m_get_canonical bind_as_str_canonical)
next
  case (File k p raw source rel entry)
  define path where "path = path_string rel"
  have known: "rel \<in> set files" "path = rel"
    using files [of entry source] File by (simp_all add: path_def path_string_plain)
  have "m_wf (m_insert (VString ''path'') (VString path) p)"
    using wf File by (simp add: m_wf_insert)
  moreover have "admissible_path path"
    using local_path_admissible [OF File(3) root] env by (simp add: env_documented_def known(2))
  moreover have "path \<in> set files"
    using known by simp
  ultimately show ?thesis
    using File(2,4)
    by (intro provider_path_ok_alt [where kind = "''file''" and path = "Some path"
          and p = "canonical_mapping env (m_insert (VString ''path'') (VString path) p)"])
      (simp_all add: path_def [symmetric] canonicalize_VMapping m_get_canonical bind_as_str_canonical)
next
  case (Inline k p)
  then have "m_wf p" "m_wf (m_remove (VString ''path'') p)"
    using wf by (simp_all add: m_wf_remove)
  then show ?thesis
    using Inline(2,3)
    by (intro provider_path_ok_alt [where kind = "''inline''" and path = None
          and p = "canonical_mapping env (m_remove (VString ''path'') p)"])
      (simp_all add: canonicalize_VMapping m_get_canonical bind_as_str_canonical m_get_remove)
qed

lemma list_all2_in_right: "list_all2 P xs ys \<Longrightarrow> y \<in> set ys \<Longrightarrow> \<exists>x \<in> set xs. P x y"
  by (induction rule: list_all2_induct) auto

lemma section_admitted:
  assumes classify: "classify_provider_section env document section_name sec root = Ok (document', records)"
    and conf: "\<And>v. m_get section_name document = Some v \<Longrightarrow> conforms v (SNamedMap s)"
    and wf: "value_wf (VMapping document)" "value_wf (VMapping D)"
    and same: "m_get section_name D = m_get section_name document'"
    and env: "env_documented env" "canonical_path root"
    and files: "\<And>r s. r \<in> set records \<Longrightarrow> pv_kind r = Local s \<Longrightarrow>
      pv_relative_path r \<in> set files \<and> CHR 0x5C \<notin> set (pv_relative_path r)"
    and entry: "m_get section_name (canonical_mapping env D) = Some (VMapping m)" "(k, e) \<in> set m"
  shows "provider_path_ok files e"
proof -
  have wfD: "m_wf D" using wf by simp
  obtain v where v: "m_get section_name document' = Some v" "VMapping m = canonicalize env v"
    using entry(1) same by (auto simp: m_get_canonical [OF wfD])
  obtain providers classified where c: "m_get section_name document = Some (VMapping providers)"
    "v = VMapping (map fst classified)" "records = concat (map snd classified)"
    "list_all2 (\<lambda>x y. classify_provider env section_name sec root x = Ok y) providers classified"
    by (rule classify_section_Ok [OF classify v(1) conf])
  have "m_wf (map fst classified)"
    using m_get_wf [OF wf(2), of section_name v] v same c(2) by simp
  with v(2) c(2) entry(2) obtain e0 rs where e0: "((k, e0), rs) \<in> set classified" "e = canonicalize env e0"
    by (auto simp: canonicalize_VMapping set_canonical_mapping)
  then obtain x where x: "x \<in> set providers" "classify_provider env section_name sec root x = Ok ((k, e0), rs)"
    using list_all2_in_right [OF c(4)] by blast
  have "value_wf (snd x)"
    using m_get_wf [OF wf(1) c(1)] x(1) by auto
  moreover have "r \<in> set records" if "r \<in> set rs" for r
    using that e0(1) c(3) by force
  ultimately show ?thesis
    using classified_provider_admitted [OF x(2) env] files e0(2) by simp
qed

subsection \<open>Managed fields\<close>

lemma dropped_not_written:
  "map_of bundled_top_level f = Some ManagedDrop \<Longrightarrow>
    f \<notin> {''tun'', ''secret'', ''external-controller-unix'', ''geo-auto-update'', ''ipv6'', ''allow-lan'', ''mode'',
      ''rules'', ''dns'', ''sniffer'', ''proxy-providers'', ''rule-providers''}"
  by (auto simp: bundled_top_level_def)

lemma bundled_cases:
  assumes "(f, s) \<in> set bundled_top_level"
  obtains "s = ManagedDrop" | "drop_free s" | "f = ''dns''" "s = SMapping dns_fields [] CorePassthrough"
    | "f = ''ntp''" "s = SMapping ntp_fields [] CorePassthrough"
proof -
  have "list_all (\<lambda>(f, s). s = ManagedDrop \<or> drop_free s \<or> f = ''dns'' \<and> s = SMapping dns_fields [] CorePassthrough \<or>
      f = ''ntp'' \<and> s = SMapping ntp_fields [] CorePassthrough) bundled_top_level"
    by (simp add: bundled_top_level_def provider_schema_def proxy_schema_def proxy_group_schema_def
        string_sequence_schema_def)
  with assms that show ?thesis by (auto simp: list_all_iff)
qed

lemma flat_absent:
  assumes "list_all (\<lambda>(_, s). is_managed s) flds" "\<And>f. (f, ManagedDrop) \<in> set flds \<Longrightarrow> m_get f m = None"
  shows "validate_managed_fields_absent m flds path = Ok ()"
  using assms by (fastforce simp: fields_absent_Ok list_all_iff is_managed_def)

lemma stripped_section:
  assumes "policy_validate bundled_policy document = Ok ()" "value_wf (VMapping document)"
    and "map_of bundled_top_level f = Some (SMapping flds [] CorePassthrough)" "distinct (map fst flds)"
    and "m_get f (strip_managed_mapping document bundled_top_level) = Some v"
  obtains m where "v = VMapping m" "\<And>g. (g, ManagedDrop) \<in> set flds \<Longrightarrow> m_get g m = None"
proof -
  obtain w where w: "m_get f document = Some w" "v = strip_managed_node w (SMapping flds [] CorePassthrough)"
    using assms(2,3,5) by (auto simp: map_of_strip [OF bundled_distinct] is_managed_def)
  with assms(1,3) have "conforms w (SMapping flds [] CorePassthrough)"
    by (intro policy_validate_field [of bundled_policy document f]) (simp_all add: bundled_policy_def)
  then obtain n where n: "w = VMapping n" by (auto simp: conforms_simps)
  have "m_wf n" using m_get_wf [OF assms(2) w(1)] n by simp
  then have "m_get g (strip_managed_mapping n flds) = None" if "(g, ManagedDrop) \<in> set flds" for g
    using that assms(4) by (simp add: map_of_strip is_managed_def)
  with that [of "strip_managed_mapping n flds"] show ?thesis
    by (simp add: w(2) n strip_managed_node.simps)
qed

lemma compiled_fields_absent:
  assumes ok: "policy_validate bundled_policy document = Ok ()" "policy_validate bundled_policy D = Ok ()"
    and wf: "value_wf (VMapping document)" "value_wf (VMapping D)"
    and dns: "install_dns (managed_document document rules authoritative) = Ok d"
    and same: "\<And>f. f \<noteq> ''proxy-providers'' \<Longrightarrow> f \<noteq> ''rule-providers'' \<Longrightarrow>
      m_get f D = m_get f (m_insert (VString ''sniffer'') authoritative_sniffer_baseline d)"
  shows "validate_managed_fields_absent (canonical_mapping env D) bundled_top_level [] = Ok ()"
proof -
  have wfD: "m_wf D" "m_wf document" using wf by simp_all
  have "validate_managed_node_absent v s (child_path [] f) = Ok ()"
    if f: "(f, s) \<in> set bundled_top_level" "m_get f (canonical_mapping env D) = Some v" for f s v
  proof -
    have lookup: "map_of bundled_top_level f = Some s"
      using f(1) bundled_distinct by simp
    obtain w where w: "m_get f D = Some w" "v = canonicalize env w"
      using f(2) by (auto simp: m_get_canonical [OF wfD(1)])
    have "conforms v s"
      using conforms_canonicalize [OF policy_validate_field [OF ok(2) w(1)] m_get_wf [OF wf(2) w(1)]] lookup w(2)
      by (simp add: bundled_policy_def)
    have wf_w: "value_wf w" by (rule m_get_wf [OF wf(2) w(1)])
    from f(1) show ?thesis
    proof (cases rule: bundled_cases)
      case 1
      then have "m_get f D = None"
        using dropped_not_written [of f] lookup same [of f] map_of_strip [OF bundled_distinct wfD(2), of f]
        by (simp add: install_dns_get [OF dns] m_get_managed_document is_managed_def)
      with w show ?thesis by simp
    next
      case 2
      with \<open>conforms v s\<close> show ?thesis by (rule drop_free_absent)
    next
      case 3
      define base where "base = (case m_get ''dns'' (managed_document document rules authoritative) of
        Some (VMapping dns) \<Rightarrow> dns | _ \<Rightarrow> [])"
      have "m_get g base = None" if g: "(g, ManagedDrop) \<in> set dns_fields" for g
      proof (cases "m_get ''dns'' (strip_managed_mapping document bundled_top_level)")
        case (Some a)
        have "distinct (map fst dns_fields)" by (simp add: dns_fields_def)
        from stripped_section [OF ok(1) wf(1) bundled_lookup(6) this Some] obtain m where
          "a = VMapping m" "\<And>g. (g, ManagedDrop) \<in> set dns_fields \<Longrightarrow> m_get g m = None"
          by blast
        with Some g show ?thesis by (simp add: base_def m_get_managed_document)
      next
        case None
        then have "base = []" by (simp add: base_def m_get_managed_document)
        then show ?thesis by (simp add: m_get_def)
      qed
      then have "m_get g (put_all authoritative_dns_fields base) = None" if "(g, ManagedDrop) \<in> set dns_fields" for g
        using that by (auto simp: m_get_put_all authoritative_dns_fields_def dns_fields_def)
      moreover have "w = VMapping (put_all authoritative_dns_fields base)"
        using w(1) same [of "''dns''"] 3 by (simp add: install_dns_get [OF dns] base_def)
      ultimately show ?thesis
        using wf_w w(2) 3
        by (simp add: canonicalize_VMapping)
          (rule flat_absent, simp_all add: m_get_canonical dns_fields_def is_managed_def)
    next
      case 4
      have "m_get ''ntp'' (strip_managed_mapping document bundled_top_level) = Some w"
        using w(1) same [of "''ntp''"] 4 by (simp add: install_dns_get [OF dns] m_get_managed_document)
      then obtain m where "w = VMapping m" "\<And>g. (g, ManagedDrop) \<in> set ntp_fields \<Longrightarrow> m_get g m = None"
        using stripped_section [OF ok(1) wf(1) bundled_lookup(7)] by (auto simp: ntp_fields_def)
      then show ?thesis
        using wf_w w(2) 4
        by (simp add: canonicalize_VMapping)
          (rule flat_absent, simp_all add: m_get_canonical ntp_fields_def is_managed_def)
    qed
  qed
  then show ?thesis by (auto simp: fields_absent_Ok)
qed

subsection \<open>Authoritative fields\<close>

lemma value_is_canonical:
  "m_wf m \<Longrightarrow> m_get f m = Some v \<Longrightarrow> value_wf v \<Longrightarrow> value_is (m_get f (canonical_mapping env m)) v"
  by (simp add: value_is_def m_get_canonical value_eq_canonicalize)

lemma compiled_authoritative_fields:
  assumes wf: "m_wf D"
    and dns: "install_dns (managed_document document rules authoritative) = Ok d"
    and same: "\<And>f. f \<noteq> ''proxy-providers'' \<Longrightarrow> f \<noteq> ''rule-providers'' \<Longrightarrow>
      m_get f D = m_get f (m_insert (VString ''sniffer'') authoritative_sniffer_baseline d)"
  shows "authoritative_fields_hold authoritative (canonical_mapping env D)"
    and "value_is (m_get ''sniffer'' (canonical_mapping env D)) authoritative_sniffer_baseline"
  using value_is_canonical [OF wf, of "''tun''" authoritative_tun_baseline env]
    value_is_canonical [OF wf, of "''sniffer''" authoritative_sniffer_baseline env]
  by (simp_all add: authoritative_fields_hold_def m_get_canonical [OF wf] same install_dns_get [OF dns]
      m_get_managed_document)

lemma put_all_dns: "(k, v) \<in> set authoritative_dns_fields \<Longrightarrow> map_of (put_all authoritative_dns_fields m) k = Some v"
  by (auto simp: authoritative_dns_fields_def put_all_def)

lemma compiled_dns:
  assumes wf: "value_wf (VMapping D)"
    and dns: "install_dns (managed_document document rules authoritative) = Ok d"
    and same: "m_get ''dns'' D = m_get ''dns'' (m_insert (VString ''sniffer'') authoritative_sniffer_baseline d)"
  shows "\<exists>dns. Option.bind (m_get ''dns'' (canonical_mapping env D)) as_mapping = Some dns \<and> authoritative_dns_holds dns"
proof -
  obtain base where base: "m_get ''dns'' D = Some (VMapping (put_all authoritative_dns_fields base))"
    using same by (simp add: install_dns_get [OF dns])
  have wf_base: "m_wf (put_all authoritative_dns_fields base)"
    using m_get_wf [OF wf base] by simp
  have "value_is (map_of (canonical_mapping env (put_all authoritative_dns_fields base)) k) v"
    if "(k, v) \<in> set authoritative_dns_fields" for k v
    using put_all_dns [OF that] baseline_wf(3) [OF that]
    by (simp add: value_is_def m_get_canonical_mapping [OF wf_base] value_eq_canonicalize)
  moreover have "m_wf D" using wf by simp
  ultimately show ?thesis
    by (auto simp: m_get_canonical base canonicalize_VMapping [OF wf_base] authoritative_dns_holds_def list_all_iff)
qed

lemma compiled_provider_paths:
  assumes ok: "policy_validate bundled_policy document = Ok ()"
    and dns: "install_dns (managed_document document rules authoritative) = Ok d"
  defines "d0 \<equiv> m_insert (VString ''sniffer'') authoritative_sniffer_baseline d"
  assumes first: "classify_provider_section env d0 ''proxy-providers'' ProviderProxy root = Ok (d1, records1)"
    and second: "classify_provider_section env d1 ''rule-providers'' ProviderRule root = Ok (D, records2)"
    and wf: "value_wf (VMapping d0)" "value_wf (VMapping d1)" "value_wf (VMapping D)"
    and env: "env_documented env" "canonical_path root"
    and local: "\<And>r s. r \<in> set (records1 @ records2) \<Longrightarrow> pv_kind r = Local s \<Longrightarrow>
      pv_relative_path r \<in> set files \<and> CHR 0x5C \<notin> set (pv_relative_path r)"
  shows "validate_provider_paths (canonical_mapping env D) files = Ok ()"
proof -
  have conf1: "conforms v (SNamedMap (provider_schema (SSequence proxy_schema)))" if "m_get ''proxy-providers'' d0 = Some v" for v
    using managed_sections_conform [OF ok dns, of "''proxy-providers''" v] that by (simp add: d0_def)
  have conf2: "conforms v (SNamedMap (provider_schema string_sequence_schema))" if "m_get ''rule-providers'' d1 = Some v" for v
    using managed_sections_conform [OF ok dns, of "''rule-providers''" v] that
      classify_section_get [OF first, of "''rule-providers''"] by (simp add: d0_def)
  have proxies: "provider_path_ok files e"
    if "m_get ''proxy-providers'' (canonical_mapping env D) = Some (VMapping m)" "(k, e) \<in> set m" for m k e
    using local classify_section_get [OF second, of "''proxy-providers''"]
    by (intro section_admitted [OF first conf1 wf(1,3) _ env _ that]) auto
  have rule_sets: "provider_path_ok files e"
    if "m_get ''rule-providers'' (canonical_mapping env D) = Some (VMapping m)" "(k, e) \<in> set m" for m k e
    using local by (intro section_admitted [OF second conf2 wf(2,3) _ env _ that]) auto
  from proxies rule_sets show ?thesis
    by (force simp: validate_provider_paths_def check_all_Ok result_simps split: option.splits Value.splits)
qed

lemma compiled_document:
  assumes codec: "yaml_reads_back env" and wf: "value_wf (VMapping (ps_document snapshot))"
    and compiled: "compile env (bundled_compiler h) snapshot rules authoritative root = Ok configuration"
  obtains D dns where
    "env_yaml_from_slice env (ec_yaml configuration) = Some (VMapping (canonical_mapping env D))"
    "validate_authoritative authoritative = Ok ()"
    "policy_validate bundled_policy (canonical_mapping env D) = Ok ()"
    "validate_managed_fields_absent (canonical_mapping env D) bundled_top_level [] = Ok ()"
    "authoritative_fields_hold authoritative (canonical_mapping env D)"
    "value_is (m_get ''sniffer'' (canonical_mapping env D)) authoritative_sniffer_baseline"
    "Option.bind (m_get ''dns'' (canonical_mapping env D)) as_mapping = Some dns" "authoritative_dns_holds dns"
    "\<And>files. env_documented env \<Longrightarrow> names_local_files files configuration \<Longrightarrow> plain_local_paths configuration \<Longrightarrow> validate_provider_paths (canonical_mapping env D) files = Ok ()"
proof -
  obtain D providers where doc:
    "compile_document env (bundled_compiler h) snapshot rules authoritative root = Ok (D, providers)"
    "env_yaml_to_string env (canonicalize env (VMapping D)) = Some (ec_yaml configuration)"
    "ec_providers configuration = providers"
    using compiled by (auto simp: compile_def result_simps)
  show ?thesis
  proof (rule compile_document_Ok [OF doc(1)])
    fix r d d1 records1 records2
    let ?d0 = "m_insert (VString ''sniffer'') authoritative_sniffer_baseline d"
    assume authoritative: "validate_authoritative authoritative = Ok ()"
      and ok: "policy_validate bundled_policy (ps_document snapshot) = Ok ()"
      and staging: "canonical_staging_root env root = Ok r"
      and dns: "install_dns (managed_document (ps_document snapshot) rules authoritative) = Ok d"
      and first: "classify_provider_section env ?d0 ''proxy-providers'' ProviderProxy r = Ok (d1, records1)"
      and second: "classify_provider_section env d1 ''rule-providers'' ProviderRule r = Ok (D, records2)"
      and okD: "policy_validate bundled_policy D = Ok ()"
      and records: "providers = sort_providers (records1 @ records2)"
    have root: "canonical_path r" if "env_documented env"
      using staging that by (auto simp: canonical_staging_root_def result_simps env_documented_def split: if_splits)
    have wf0: "value_wf (VMapping ?d0)"
      using install_dns_wf [OF dns] managed_document_wf [OF wf] by (intro value_wf_insert) simp_all
    note wf1 = classify_section_wf [OF first wf0]
    note wfD = classify_section_wf [OF second wf1]
    then have mwf: "m_wf D" by simp
    have same: "m_get f D = m_get f ?d0" if "f \<noteq> ''proxy-providers''" "f \<noteq> ''rule-providers''" for f
      using that classify_section_get [OF first] classify_section_get [OF second] by simp
    have paths: "validate_provider_paths (canonical_mapping env D) files = Ok ()"
      if "env_documented env" "names_local_files files configuration" "plain_local_paths configuration" for files
      using that(2,3) doc(3) records
      by (intro compiled_provider_paths [OF ok dns first second wf0 wf1 wfD that(1) root [OF that(1)]])
        (fastforce simp: names_local_files_def plain_local_paths_def list_all_iff sort_providers_def split: ProviderKind.splits)
    have slice: "env_yaml_from_slice env (ec_yaml configuration) = Some (VMapping (canonical_mapping env D))"
      using doc(2) codec mwf by (auto simp: yaml_reads_back_def canonicalize_VMapping)
    have policy: "policy_validate bundled_policy (canonical_mapping env D) = Ok ()"
      using conforms_canonicalize [of "VMapping D" _ env] okD wfD
      by (simp add: policy_validate_conforms canonicalize_VMapping)
    note absent = compiled_fields_absent [OF ok okD wf wfD dns same]
    note held = compiled_authoritative_fields [OF mwf dns same]
    obtain d' where "Option.bind (m_get ''dns'' (canonical_mapping env D)) as_mapping = Some d'"
      "authoritative_dns_holds d'"
      using compiled_dns [OF wfD dns, of env] same [of "''dns''"] by auto
    with paths slice policy absent held authoritative show ?thesis
      by (intro that)
  qed
qed

subsection \<open>The sample\<close>

lemma canonicalize_cong:
  "env_yaml_key_text e = env_yaml_key_text e' \<Longrightarrow> canonicalize e v = canonicalize e' v"
  "env_yaml_key_text e = env_yaml_key_text e' \<Longrightarrow> canonical_entries e m acc = canonical_entries e' m acc"
  "env_yaml_key_text e = env_yaml_key_text e' \<Longrightarrow> canonical_items e vs = canonical_items e' vs"
proof (induction e v and e m acc and e vs rule: canonicalize_canonical_entries_canonical_items.induct)
  case (1 env v)
  have "yaml_key env = yaml_key e'"
    using 1(3) by (simp add: fun_eq_iff yaml_key_def split: option.splits)
  with 1 show ?case
    by (cases v) (simp_all add: canonicalize.simps)
qed simp_all

lemma compile_document_codec:
  "compile_document (e\<lparr>env_yaml_to_string := f, env_yaml_from_slice := g\<rparr>) c s r a root = compile_document e c s r a root"
proof -
  let ?e = "e\<lparr>env_yaml_to_string := f, env_yaml_from_slice := g\<rparr>"
  have resolve: "resolve_local_provider ?e = resolve_local_provider e"
    by (simp add: fun_eq_iff resolve_local_provider_def Let_def cong: if_cong)
  have classify: "classify_provider ?e = classify_provider e"
    by (simp add: fun_eq_iff classify_provider_def controlled_remote_path_def resolve Let_def
        cong: if_cong option.case_cong Value.case_cong)
  have "classify_provider_section ?e = classify_provider_section e" "canonical_staging_root ?e = canonical_staging_root e"
    by (simp_all add: fun_eq_iff classify_provider_section_def canonical_staging_root_def classify
        cong: option.case_cong Value.case_cong if_cong)
  then show ?thesis
    by (simp add: compile_document_def)
qed

lemma sample_compiles: "case compile_document plain_env (bundled_compiler []) sample_snapshot []
     sample_authoritative ''/s'' of Inr (d, r) \<Rightarrow> r = [sample_provider] | _ \<Rightarrow> False"
  by code_simp

lemma sample_canonical: "canonical_path ''/s''" "canonical_path ''/s/ads.yaml''"
  unfolding canonical_path_def
  by (rule exI [of _ "[''s'']"], simp add: path_components_def is_absolute_def)
    (rule exI [of _ "[''s'', ''ads.yaml'']"], simp add: path_components_def is_absolute_def)

lemma sample_reads_back: "yaml_reads_back sample_env"
  by (auto simp: yaml_reads_back_def sample_env_def split: if_splits)

lemma sample_env_documented: "env_documented sample_env"
  using sample_canonical sample_reads_back
  by (auto simp: env_documented_def sample_env_def plain_env_def is_lower_sha256_hex_def list_all_iff split: if_splits)

lemma sample_configuration:
  obtains configuration where
    "compile sample_env (bundled_compiler []) sample_snapshot [] sample_authoritative ''/s'' = Ok configuration"
    "ec_providers configuration = [sample_provider]"
proof -
  have "compile_document plain_env (bundled_compiler []) sample_snapshot [] sample_authoritative ''/s'' =
      Ok (sample_document, [sample_provider])"
    using sample_compiles by (auto simp: sample_document_def split: sum.splits)
  then have doc: "compile_document sample_env (bundled_compiler []) sample_snapshot [] sample_authoritative ''/s'' =
      Ok (sample_document, [sample_provider])"
    by (simp add: sample_env_def compile_document_codec)
  have canon: "canonicalize sample_env v = canonicalize plain_env v" for v
    by (rule canonicalize_cong) (simp add: sample_env_def)
  have "\<exists>configuration. compile sample_env (bundled_compiler []) sample_snapshot [] sample_authoritative ''/s'' =
      Ok configuration \<and> ec_providers configuration = [sample_provider]"
    by (simp add: compile_def doc canon) (simp add: sample_env_def)
  with that show ?thesis by blast
qed

section \<open>Properties\<close>

text \<open>C33. The compiler never panics: with the bundled policy, no profile document, rule list or
  surroundings make any of the \<open>expect\<close> and \<open>unreachable!\<close> calls of the compiler fire, because
  policy validation has established what they rely on.\<close>

theorem compile_never_panics:
  "compile env (bundled_compiler policy_sha256) snapshot rules authoritative staging_root \<noteq> Err (Panic message)"
  unfolding compile_def
  by (rule and_then_no_panic [OF compile_document_no_panic]) (auto simp: result_simps)

text \<open>C34. What the compiler emits is admitted: a configuration compiled under the bundled policy passes
  the check that the privileged service makes with the same authoritative values, provided the
  file list of the service has the paths of the local providers, none of these paths contains a
  backslash, and the surroundings behave as documented.\<close>

theorem compiled_configuration_admitted:
  assumes env: "env_documented env" and wf: "value_wf (VMapping (ps_document snapshot))"
    and compiled: "compile env (bundled_compiler h) snapshot rules authoritative root = Ok configuration"
    and files: "names_local_files files configuration" and plain: "plain_local_paths configuration"
  shows "validate_privileged_candidate env (bundled_compiler h) (ec_yaml configuration) authoritative files = Ok ()"
proof -
  have "cc_policy (bundled_compiler h) = bundled_policy" "cp_top_level bundled_policy = bundled_top_level"
    by (simp_all add: bundled_compiler_def bundled_policy_def)
  then show ?thesis
    using env by - (rule compiled_document [OF _ wf compiled],
      simp_all add: env_documented_def validate_privileged_candidate_def files plain)
qed

text \<open>The sample profile has a local rule provider.\<close>

theorem compiled_configuration_admitted_witness:
  "\<exists>configuration.
     compile sample_env (bundled_compiler []) sample_snapshot [] sample_authoritative ''/s'' = Ok configuration \<and>
     validate_privileged_candidate sample_env (bundled_compiler []) (ec_yaml configuration) sample_authoritative
       [''ads.yaml''] = Ok ()"
proof -
  obtain configuration where c:
    "compile sample_env (bundled_compiler []) sample_snapshot [] sample_authoritative ''/s'' = Ok configuration"
    "ec_providers configuration = [sample_provider]"
    by (rule sample_configuration)
  have "value_wf (VMapping (ps_document sample_snapshot))" "names_local_files [''ads.yaml''] configuration"
    "plain_local_paths configuration"
    using c(2) by (simp_all add: sample_snapshot_def m_wf_def names_local_files_def plain_local_paths_def sample_provider_def)
  from compiled_configuration_admitted [OF sample_env_documented this(1) c(1) this(2,3)] c(1) show ?thesis by blast
qed

text \<open>C35. What the compiler emits survives a restart: a configuration compiled under the bundled policy is
  accepted when it is read back and checked against the same snapshot, rules and staging root, provided the YAML
  codec reads back what it writes.\<close>

theorem compiled_configuration_persists:
  assumes codec: "yaml_reads_back env" and wf: "value_wf (VMapping (ps_document snapshot))"
    and compiled: "compile env (bundled_compiler h) snapshot rules authoritative root = Ok configuration"
  shows "validate_persisted env (bundled_compiler h) snapshot rules (ec_yaml configuration) root = Ok ()"
proof -
  obtain D where D: "env_yaml_from_slice env (ec_yaml configuration) = Some (VMapping (canonical_mapping env D))"
    "authoritative_fields_hold authoritative (canonical_mapping env D)"
    by (rule compiled_document [OF codec wf compiled]) blast
  then have "compile env (bundled_compiler h) snapshot rules
      \<lparr>ac_controller_unix = ac_controller_unix authoritative, ac_secret = ac_secret authoritative\<rparr> root = Ok configuration"
    using compiled by (cases authoritative) simp
  with D show ?thesis
    by (simp add: validate_persisted_def authoritative_fields_hold_def)
qed

theorem compiled_configuration_persists_witness:
  "\<exists>configuration.
     compile sample_env (bundled_compiler []) sample_snapshot [] sample_authoritative ''/s'' = Ok configuration \<and>
     validate_persisted sample_env (bundled_compiler []) sample_snapshot [] (ec_yaml configuration) ''/s'' = Ok ()"
proof -
  obtain configuration where c:
    "compile sample_env (bundled_compiler []) sample_snapshot [] sample_authoritative ''/s'' = Ok configuration"
    by (rule sample_configuration)
  have "value_wf (VMapping (ps_document sample_snapshot))"
    by (simp add: sample_snapshot_def m_wf_def)
  from compiled_configuration_persists [OF sample_reads_back this c] c show ?thesis by blast
qed

end
