(* ===== verification/Programs.thy ===== *)
theory Programs
  imports Ratash_Prelude
begin

text \<open>
  Programs that act on a world.  A program takes the world and returns a result and the
  world afterwards; \<open>bnd\<close> is sequencing and \<open>try_bnd\<close> sequencing with the question-mark
  operator.  The store and the transaction coordinator are such programs.

  Reasoning is by triples: \<open>triple P m Q\<close> says that from a world with \<open>P\<close> the program
  reaches a result and a world with \<open>Q\<close>.  Programs are total functions, so a triple also
  says that the program returns.
\<close>

named_theorems triple_rules \<open>rules for triples\<close>

type_synonym ('w, 'a) prog = "'w \<Rightarrow> 'a \<times> 'w"
type_synonym ('w, 'a, 'e) try_prog = "('w, 'e + 'a) prog"

definition ret :: "'a \<Rightarrow> ('w, 'a) prog" where
  "ret a = (\<lambda>w. (a, w))"

definition bnd :: "('w, 'a) prog \<Rightarrow> ('a \<Rightarrow> ('w, 'b) prog) \<Rightarrow> ('w, 'b) prog" where
  "bnd m f = (\<lambda>w. case m w of (a, w') \<Rightarrow> f a w')"

definition try_bnd :: "('w, 'a, 'e) try_prog \<Rightarrow> ('a \<Rightarrow> ('w, 'b, 'e) try_prog) \<Rightarrow> ('w, 'b, 'e) try_prog" where
  "try_bnd m f = bnd m (\<lambda>r. case r of Inl e \<Rightarrow> ret (Inl e) | Inr v \<Rightarrow> f v)"

definition fail_with :: "('e \<Rightarrow> 'f) \<Rightarrow> ('w, 'a, 'e) try_prog \<Rightarrow> ('w, 'a, 'f) try_prog" where
  "fail_with g m = bnd m (\<lambda>r. ret (map_err g r))"

definition triple :: "('w \<Rightarrow> bool) \<Rightarrow> ('w, 'a) prog \<Rightarrow> ('a \<Rightarrow> 'w \<Rightarrow> bool) \<Rightarrow> bool" where
  "triple P m Q \<longleftrightarrow> (\<forall>w. P w \<longrightarrow> Q (fst (m w)) (snd (m w)))"

lemma triple_ret [triple_rules]: "(\<And>w. P w \<Longrightarrow> Q a w) \<Longrightarrow> triple P (ret a) Q"
  by (simp add: triple_def ret_def)

lemma triple_bnd [triple_rules]:
  "triple P m R \<Longrightarrow> (\<And>a. triple (R a) (f a) Q) \<Longrightarrow> triple P (bnd m f) Q"
  by (auto simp: triple_def bnd_def split: prod.splits)

lemma triple_try_bnd [triple_rules]:
  assumes "triple P m R" "\<And>e w. R (Inl e) w \<Longrightarrow> Q (Inl e) w" "\<And>v. triple (R (Inr v)) (f v) Q"
  shows "triple P (try_bnd m f) Q"
  unfolding try_bnd_def
  by (rule triple_bnd [OF assms(1)]) (auto intro!: triple_ret assms split: sum.splits)

lemma triple_fail_with [triple_rules]:
  "triple P m (\<lambda>r w. Q (map_err g r) w) \<Longrightarrow> triple P (fail_with g m) Q"
  unfolding fail_with_def by (rule triple_bnd, assumption) (rule triple_ret)

lemma triple_weaken: "triple P' m Q' \<Longrightarrow> (\<And>w. P w \<Longrightarrow> P' w) \<Longrightarrow> (\<And>r w. Q' r w \<Longrightarrow> Q r w) \<Longrightarrow> triple P m Q"
  by (auto simp: triple_def)

lemma triple_conj: "triple P m Q \<Longrightarrow> triple P m Q' \<Longrightarrow> triple P m (\<lambda>r w. Q r w \<and> Q' r w)"
  by (simp add: triple_def)

lemma triple_if [triple_rules]:
  "(b \<Longrightarrow> triple P m Q) \<Longrightarrow> (\<not> b \<Longrightarrow> triple P n Q) \<Longrightarrow> triple P (if b then m else n) Q"
  by simp

lemma triple_pre: "(\<And>w. P w \<Longrightarrow> triple (\<lambda>v. v = w) m Q) \<Longrightarrow> triple P m Q"
  by (auto simp: triple_def)

lemma triple_assume: "(b \<Longrightarrow> triple P m Q) \<Longrightarrow> triple (\<lambda>w. P w \<and> b) m Q"
  by (auto simp: triple_def)

lemma tripleD: "triple P m Q \<Longrightarrow> P w \<Longrightarrow> m w = (r, w') \<Longrightarrow> Q r w'"
  by (auto simp: triple_def)

end
