(* ===== verification/Persistence.thy ===== *)
theory Persistence
  imports Programs Domain_Types Machines "HOL-Library.AList"
begin

text \<open>
  The persistence store of \<open>src/src/persistence.rs\<close>: immutable objects and transactions named
  by their SHA-256, the prepared journal and the committed manifest.

  The store works on a \<open>Disk\<close>.  Files are replaced by writing a temporary file and renaming
  it, so a file has its old or its new content, never a part of it; temporary files carry
  names that no operation reads and are left out.  Every system call may fail: \<open>d_faults\<close>
  is the sequence of outcomes that lies ahead (\<open>True\<close> for a failure, none when it is used
  up), and all results hold for every such sequence.  A call that synchronises a directory
  comes after the rename, so an operation can fail although it took effect.

  The store is the only writer of its private directory, so entries are regular files.  The
  JSON codec, SHA-256 and the text form of profile identifiers are the record \<open>Codec\<close>.
  Error messages are left out, error kinds are kept.
\<close>

section \<open>Identifiers and records\<close>

datatype ObjectId = ObjectId (object_text: string)
datatype TransactionId = TransactionId (transaction_text: string)

datatype IoKind = IoNotFound | IoInvalidData | IoInvalidInput | IoAlreadyExists | IoOther

definition PERSISTENCE_PRUNE_ENTRY_LIMIT :: nat where "PERSISTENCE_PRUNE_ENTRY_LIMIT = 4096"
definition PERSISTENCE_PRUNE_REMOVAL_LIMIT :: nat where "PERSISTENCE_PRUNE_REMOVAL_LIMIT = 256"
definition PERSISTENCE_PRUNE_REFERENCE_LIMIT :: nat where "PERSISTENCE_PRUNE_REFERENCE_LIMIT = 1024"
definition TRANSACTION_BUNDLE_MAX_BYTES :: nat where "TRANSACTION_BUNDLE_MAX_BYTES = 4096"
definition TRANSACTION_METADATA_MAX_BYTES :: nat where "TRANSACTION_METADATA_MAX_BYTES = 1024"

definition ObjectId_parse :: "string \<Rightarrow> (ObjectId, IoKind) result" where
  "ObjectId_parse v = (if is_lower_sha256_hex v then Ok (ObjectId v) else Err IoInvalidInput)"

definition validate_digest :: "string \<Rightarrow> (unit, IoKind) result" where
  "validate_digest v = (if is_lower_sha256_hex v then Ok () else Err IoInvalidInput)"

definition TransactionId_parse :: "string \<Rightarrow> (TransactionId, IoKind) result" where
  "TransactionId_parse v = and_then (validate_digest v) (\<lambda>_. Ok (TransactionId v))"

record TransactionBundle =
  tb_supervisor_state :: ObjectId
  tb_profile_snapshot :: ObjectId
  tb_local_rule_set :: ObjectId
  tb_effective_configuration :: ObjectId
  tb_profile_revision :: ProfileRevision
  tb_local_rule_set_revision :: LocalRuleSetRevision
  tb_active_profile_id :: ProfileId
  tb_runtime_generation :: RuntimeGeneration

record TransactionBundleDto =
  dto_schema_version :: u16
  dto_supervisor_state :: ObjectId
  dto_profile_snapshot :: ObjectId
  dto_local_rule_set :: ObjectId
  dto_effective_configuration :: ObjectId
  dto_profile_revision :: u64
  dto_local_rule_set_revision :: u64
  dto_active_profile_id :: string
  dto_runtime_generation :: u64

record PreparedTransaction =
  pt_candidate :: TransactionId
  pt_previous :: "TransactionId option"

record CommittedManifest =
  cm_current :: TransactionId
  cm_previous :: "TransactionId option"

record RecoveryState =
  rv_committed :: "CommittedManifest option"
  rv_prepared :: "PreparedTransaction option"

record PersistencePruneResult =
  pp_scanned_entries :: nat
  pp_removed_objects :: nat
  pp_removed_transactions :: nat
  pp_has_more :: bool

datatype JsonValue =
    JNull
  | JBool bool
  | JNumber string
  | JString string
  | JArray "JsonValue list"
  | JObject "(string \<times> JsonValue) list"

record Codec =
  cd_sha256_hex :: "string \<Rightarrow> string"
  cd_id_text :: "ProfileId \<Rightarrow> string"
  cd_id_parse :: "string \<Rightarrow> ProfileId option"
  cd_bundle_to :: "TransactionBundleDto \<Rightarrow> string option"
  cd_bundle_from :: "string \<Rightarrow> TransactionBundleDto option"
  cd_prepared_to :: "PreparedTransaction \<Rightarrow> string option"
  cd_prepared_from :: "string \<Rightarrow> PreparedTransaction option"
  cd_manifest_to :: "CommittedManifest \<Rightarrow> string option"
  cd_manifest_from :: "string \<Rightarrow> CommittedManifest option"
  cd_value_from :: "string \<Rightarrow> JsonValue option"

definition bundle_to_dto :: "Codec \<Rightarrow> TransactionBundle \<Rightarrow> TransactionBundleDto" where
  "bundle_to_dto c b = \<lparr>dto_schema_version = 1,
     dto_supervisor_state = tb_supervisor_state b, dto_profile_snapshot = tb_profile_snapshot b,
     dto_local_rule_set = tb_local_rule_set b, dto_effective_configuration = tb_effective_configuration b,
     dto_profile_revision = tb_profile_revision b, dto_local_rule_set_revision = tb_local_rule_set_revision b,
     dto_active_profile_id = cd_id_text c (tb_active_profile_id b),
     dto_runtime_generation = tb_runtime_generation b\<rparr>"

definition bundle_of_dto :: "Codec \<Rightarrow> TransactionBundleDto \<Rightarrow> (TransactionBundle, IoKind) result" where
  "bundle_of_dto c dto =
    (if dto_schema_version dto \<noteq> 1 then Err IoInvalidData
     else and_then (ok_or (cd_id_parse c (dto_active_profile_id dto)) IoInvalidData) (\<lambda>active.
       Ok \<lparr>tb_supervisor_state = dto_supervisor_state dto, tb_profile_snapshot = dto_profile_snapshot dto,
           tb_local_rule_set = dto_local_rule_set dto,
           tb_effective_configuration = dto_effective_configuration dto,
           tb_profile_revision = dto_profile_revision dto,
           tb_local_rule_set_revision = dto_local_rule_set_revision dto,
           tb_active_profile_id = active, tb_runtime_generation = dto_runtime_generation dto\<rparr>))"

section \<open>The disk\<close>

record Files =
  d_objects :: "(string \<times> string) list"
  d_transactions :: "(string \<times> string) list"
  d_manifest :: "string option"
  d_prepared :: "string option"

record Disk = Files +
  d_faults :: "bool list"

type_synonym 'a io = "(Disk, 'a, IoKind) try_prog"

definition sys :: "unit io" where
  "sys d = (case d_faults d of
      [] \<Rightarrow> (Ok (), d)
    | fault # rest \<Rightarrow> (if fault then Err IoOther else Ok (), d\<lparr>d_faults := rest\<rparr>))"

fun sys_calls :: "nat \<Rightarrow> unit io" where
  "sys_calls 0 = ret (Ok ())"
| "sys_calls (Suc n) = try_bnd sys (\<lambda>_. sys_calls n)"

definition change :: "(Disk \<Rightarrow> Disk) \<Rightarrow> unit io" where
  "change f d = (Ok (), f d)"

definition fs_read :: "(Disk \<Rightarrow> string option) \<Rightarrow> string io" where
  "fs_read file = try_bnd sys (\<lambda>_ d. (case file d of None \<Rightarrow> Err IoNotFound | Some content \<Rightarrow> Ok content, d))"

definition sync_directory :: "unit io" where
  "sync_directory = sys_calls 2"

text \<open>Writing a temporary file; when a step fails the file is removed again.\<close>

definition write_temporary :: "nat \<Rightarrow> unit io" where
  "write_temporary opening =
    try_bnd (sys_calls opening) (\<lambda>_.
      bnd (sys_calls 2) (\<lambda>r. case r of
        Inr _ \<Rightarrow> ret (Ok ())
      | Inl e \<Rightarrow> bnd sys (\<lambda>_. ret (Err e))))"

definition replace_private_file :: "(Disk \<Rightarrow> Disk) \<Rightarrow> unit io" where
  "replace_private_file put =
    try_bnd (write_temporary 2) (\<lambda>_.
    try_bnd sys (\<lambda>_.
    try_bnd (change put) (\<lambda>_.
    sync_directory)))"

definition put_immutable :: "(Disk \<Rightarrow> string option) \<Rightarrow> (Disk \<Rightarrow> Disk) \<Rightarrow> string \<Rightarrow> unit io" where
  "put_immutable file put content =
    bnd (fs_read file) (\<lambda>r.
      let write =
        try_bnd (write_temporary 1) (\<lambda>_.
        bnd sys (\<lambda>renamed. case renamed of
            Inl e \<Rightarrow> bnd sys (\<lambda>_. ret (Err e))
          | Inr _ \<Rightarrow> try_bnd (change put) (\<lambda>_. sync_directory)))
      in case r of
          Inr stored \<Rightarrow> if stored = content then ret (Ok ()) else write
        | Inl e \<Rightarrow> if e = IoNotFound then write else ret (Err e))"

definition read_optional_json :: "(Disk \<Rightarrow> string option) \<Rightarrow> (string \<Rightarrow> 'a option) \<Rightarrow> 'a option io" where
  "read_optional_json file from =
    bnd (fs_read file) (\<lambda>r. case r of
        Inr content \<Rightarrow> ret (ok_or (map_option Some (from content)) IoInvalidData)
      | Inl e \<Rightarrow> ret (if e = IoNotFound then Ok None else Err e))"

definition read_regular_file_limited :: "(Disk \<Rightarrow> string option) \<Rightarrow> nat \<Rightarrow> string io" where
  "read_regular_file_limited file limit =
    try_bnd (fs_read file) (\<lambda>content.
    try_bnd (sys_calls 2) (\<lambda>_.
    if length content > limit then ret (Err IoInvalidData)
    else try_bnd sys (\<lambda>_. ret (Ok content))))"

definition read_optional_regular_json ::
  "(Disk \<Rightarrow> string option) \<Rightarrow> (string \<Rightarrow> 'a option) \<Rightarrow> nat \<Rightarrow> 'a option io" where
  "read_optional_regular_json file from limit =
    bnd (read_regular_file_limited file limit) (\<lambda>r. case r of
        Inr content \<Rightarrow> ret (ok_or (map_option Some (from content)) IoInvalidData)
      | Inl e \<Rightarrow> ret (if e = IoNotFound then Ok None else Err e))"

definition object_file :: "string \<Rightarrow> 'a Files_scheme \<Rightarrow> string option" where
  "object_file name d = map_of (d_objects d) name"

definition transaction_file :: "string \<Rightarrow> 'a Files_scheme \<Rightarrow> string option" where
  "transaction_file name d = map_of (d_transactions d) name"

definition read_hashed_file :: "Codec \<Rightarrow> (Disk \<Rightarrow> string option) \<Rightarrow> string \<Rightarrow> string io" where
  "read_hashed_file c file expected =
    try_bnd (fs_read file) (\<lambda>content.
      ret (if cd_sha256_hex c content \<noteq> expected then Err IoInvalidData else Ok content))"

definition read_regular_hashed_file_limited ::
  "Codec \<Rightarrow> (Disk \<Rightarrow> string option) \<Rightarrow> string \<Rightarrow> nat \<Rightarrow> string io" where
  "read_regular_hashed_file_limited c file expected limit =
    try_bnd (read_regular_file_limited file limit) (\<lambda>content.
      ret (if cd_sha256_hex c content \<noteq> expected then Err IoInvalidData else Ok content))"

section \<open>Objects and transactions\<close>

definition put_object :: "Codec \<Rightarrow> string \<Rightarrow> ObjectId io" where
  "put_object c content =
    (let name = cd_sha256_hex c content in
     try_bnd (put_immutable (object_file name)
         (\<lambda>d. d\<lparr>d_objects := AList.update name content (d_objects d)\<rparr>) content) (\<lambda>_.
     ret (Ok (ObjectId name))))"

definition read_object_limited :: "Codec \<Rightarrow> ObjectId \<Rightarrow> nat \<Rightarrow> string io" where
  "read_object_limited c i limit =
    try_bnd (fs_read (object_file (object_text i))) (\<lambda>content.
    try_bnd sys (\<lambda>_.
    if length content > limit then ret (Err IoInvalidData)
    else
      try_bnd sys (\<lambda>_.
      ret (if cd_sha256_hex c content \<noteq> object_text i then Err IoInvalidData else Ok content))))"

definition read_object :: "Codec \<Rightarrow> ObjectId \<Rightarrow> string io" where
  "read_object c i = read_object_limited c i usize_max"

definition verify_bundle_objects :: "Codec \<Rightarrow> TransactionBundle \<Rightarrow> unit io" where
  "verify_bundle_objects c b =
    try_bnd (read_object c (tb_supervisor_state b)) (\<lambda>_.
    try_bnd (read_object c (tb_profile_snapshot b)) (\<lambda>_.
    try_bnd (read_object c (tb_local_rule_set b)) (\<lambda>_.
    try_bnd (read_object c (tb_effective_configuration b)) (\<lambda>_.
    ret (Ok ())))))"

definition decode_bundle :: "Codec \<Rightarrow> string \<Rightarrow> (TransactionBundle, IoKind) result" where
  "decode_bundle c content =
    and_then (ok_or (cd_bundle_from c content) IoInvalidData) (bundle_of_dto c)"

definition load_transaction :: "Codec \<Rightarrow> TransactionId \<Rightarrow> TransactionBundle io" where
  "load_transaction c i =
    try_bnd (read_hashed_file c (transaction_file (transaction_text i)) (transaction_text i)) (\<lambda>content.
    ret (decode_bundle c content))"

definition read_manifest :: "Codec \<Rightarrow> CommittedManifest option io" where
  "read_manifest c = read_optional_json d_manifest (cd_manifest_from c)"

definition read_journal :: "Codec \<Rightarrow> PreparedTransaction option io" where
  "read_journal c = read_optional_json d_prepared (cd_prepared_from c)"

definition write_journal :: "Codec \<Rightarrow> string \<Rightarrow> PreparedTransaction io" where
  "write_journal c candidate =
    try_bnd (read_manifest c) (\<lambda>manifest.
    let prepared = \<lparr>pt_candidate = TransactionId candidate, pt_previous = map_option cm_current manifest\<rparr> in
    case cd_prepared_to c prepared of
      None \<Rightarrow> ret (Err IoInvalidData)
    | Some text \<Rightarrow>
        try_bnd (replace_private_file (\<lambda>d. d\<lparr>d_prepared := Some text\<rparr>)) (\<lambda>_.
        ret (Ok prepared)))"

definition prepare :: "Codec \<Rightarrow> TransactionBundle \<Rightarrow> PreparedTransaction io" where
  "prepare c b =
    try_bnd (read_journal c) (\<lambda>journal.
    if journal \<noteq> None then ret (Err IoAlreadyExists)
    else
      try_bnd (verify_bundle_objects c b) (\<lambda>_.
      case cd_bundle_to c (bundle_to_dto c b) of
        None \<Rightarrow> ret (Err IoInvalidData)
      | Some serialized \<Rightarrow>
          let name = cd_sha256_hex c serialized in
          try_bnd (put_immutable (transaction_file name)
              (\<lambda>d. d\<lparr>d_transactions := AList.update name serialized (d_transactions d)\<rparr>) serialized) (\<lambda>_.
          write_journal c name)))"

definition recover :: "Codec \<Rightarrow> RecoveryState io" where
  "recover c =
    try_bnd (read_manifest c) (\<lambda>committed.
    try_bnd (read_journal c) (\<lambda>prepared.
    ret (Ok \<lparr>rv_committed = committed, rv_prepared = prepared\<rparr>)))"

definition commit_prepared :: "Codec \<Rightarrow> PreparedTransaction \<Rightarrow> unit io" where
  "commit_prepared c prepared =
    try_bnd (read_journal c) (\<lambda>journal.
    if journal \<noteq> Some prepared then ret (Err IoInvalidData)
    else
      try_bnd (read_manifest c) (\<lambda>manifest.
      if map_option cm_current manifest \<noteq> pt_previous prepared then ret (Err IoInvalidData)
      else
        try_bnd (load_transaction c (pt_candidate prepared)) (\<lambda>b.
        try_bnd (verify_bundle_objects c b) (\<lambda>_.
        case cd_manifest_to c \<lparr>cm_current = pt_candidate prepared, cm_previous = pt_previous prepared\<rparr> of
          None \<Rightarrow> ret (Err IoInvalidData)
        | Some text \<Rightarrow> replace_private_file (\<lambda>d. d\<lparr>d_manifest := Some text\<rparr>)))))"

definition clear_prepared :: "Codec \<Rightarrow> PreparedTransaction \<Rightarrow> unit io" where
  "clear_prepared c prepared =
    try_bnd (read_journal c) (\<lambda>journal.
    if journal \<noteq> Some prepared then ret (Err IoInvalidData)
    else
      try_bnd sys (\<lambda>_.
      try_bnd (change (\<lambda>d. d\<lparr>d_prepared := None\<rparr>)) (\<lambda>_.
      sync_directory)))"

section \<open>Pruning\<close>

datatype PruneEntryKind = PruneObject | PruneTransaction

text \<open>\<open>retain_transaction\<close>, for a manifest or a journal with its predecessor.\<close>

definition retain_transaction :: "TransactionId \<Rightarrow> string btree_set \<Rightarrow> string btree_set" where
  "retain_transaction i retained = bs_insert (transaction_text i) retained"

definition retain_optional :: "TransactionId option \<Rightarrow> string btree_set \<Rightarrow> string btree_set" where
  "retain_optional i retained = (case i of None \<Rightarrow> retained | Some t \<Rightarrow> retain_transaction t retained)"

definition bundle_objects :: "TransactionBundle \<Rightarrow> ObjectId list" where
  "bundle_objects b = [tb_supervisor_state b, tb_profile_snapshot b, tb_local_rule_set b,
     tb_effective_configuration b]"

definition retain_bundle_objects :: "TransactionBundle \<Rightarrow> string btree_set \<Rightarrow> string btree_set" where
  "retain_bundle_objects b retained = fold (\<lambda>i. bs_insert (object_text i)) (bundle_objects b) retained"

definition is_ascii_whitespace :: "char \<Rightarrow> bool" where
  "is_ascii_whitespace ch \<longleftrightarrow> ch \<in> {CHR 0x20, CHR 0x09, CHR 0x0A, CHR 0x0C, CHR 0x0D}"

text \<open>The stack of values still to visit, its top first.\<close>

function visit_values :: "JsonValue list \<Rightarrow> string btree_set \<Rightarrow> (string btree_set, IoKind) result" where
  "visit_values [] retained = Ok retained"
| "visit_values (JArray vs # pending) retained = visit_values (rev vs @ pending) retained"
| "visit_values (JObject vs # pending) retained = visit_values (rev (map snd vs) @ pending) retained"
| "visit_values (JString v # pending) retained =
    (if is_ok (ObjectId_parse v)
     then let retained' = bs_insert v retained in
       if length retained' > PERSISTENCE_PRUNE_REFERENCE_LIMIT then Err IoInvalidData
       else visit_values pending retained'
     else visit_values pending retained)"
| "visit_values (JNull # pending) retained = visit_values pending retained"
| "visit_values (JBool b # pending) retained = visit_values pending retained"
| "visit_values (JNumber n # pending) retained = visit_values pending retained"
  by pat_completeness auto

lemma size_rev_pending: "size_list size (rev vs @ pending) = size_list size vs + size_list size pending"
  by (induction vs) (auto simp: size_list_conv_sum_list)

lemma size_list_rev: "size_list size (rev vs) = size_list size vs"
  using size_rev_pending [of vs "[]"] by simp

lemma size_list_snd: "size_list size (map snd vs) \<le> size_list (size_prod (\<lambda>_. 0) size) vs"
  by (induction vs) auto

termination visit_values
proof (relation "measure (size_list size \<circ> fst)", goal_cases)
  case (3 vs pending retained)
  show ?case using size_list_snd [of vs] by (simp add: size_list_rev)
qed (auto simp: size_list_rev)

definition collect_json_object_references ::
  "Codec \<Rightarrow> string \<Rightarrow> string btree_set \<Rightarrow> (string btree_set, IoKind) result" where
  "collect_json_object_references c content retained =
    (case find (\<lambda>ch. \<not> is_ascii_whitespace ch) content of
       None \<Rightarrow> Ok retained
     | Some first \<Rightarrow>
         if first \<noteq> CHR 0x7B \<and> first \<noteq> CHR 0x5B then Ok retained
         else and_then (ok_or (cd_value_from c content) IoInvalidData) (\<lambda>v. visit_values [v] retained))"

fun retain_objects :: "Codec \<Rightarrow> string list \<Rightarrow> string btree_set \<Rightarrow> string btree_set io" where
  "retain_objects c [] retained = ret (Ok retained)"
| "retain_objects c (name # names) retained =
    try_bnd (ret (TransactionId_parse name)) (\<lambda>i.
    try_bnd (read_regular_hashed_file_limited c (transaction_file (transaction_text i)) (transaction_text i)
        TRANSACTION_BUNDLE_MAX_BYTES) (\<lambda>content.
    try_bnd (ret (decode_bundle c content)) (\<lambda>b.
    try_bnd (read_regular_hashed_file_limited c (object_file (object_text (tb_supervisor_state b)))
        (object_text (tb_supervisor_state b)) SUPERVISOR_STATE_MAX_BYTES) (\<lambda>state.
    try_bnd (ret (collect_json_object_references c state (retain_bundle_objects b retained))) (\<lambda>retained'.
    retain_objects c names retained')))))"

definition retained_transactions ::
  "CommittedManifest option \<Rightarrow> PreparedTransaction option \<Rightarrow> string btree_set" where
  "retained_transactions committed prepared =
    (let of_manifest = (case committed of None \<Rightarrow> []
          | Some m \<Rightarrow> retain_optional (cm_previous m) (retain_transaction (cm_current m) []))
     in case prepared of None \<Rightarrow> of_manifest
          | Some p \<Rightarrow> retain_optional (pt_previous p) (retain_transaction (pt_candidate p) of_manifest))"

definition retained_content :: "Codec \<Rightarrow> (string btree_set \<times> string btree_set) io" where
  "retained_content c =
    try_bnd (read_optional_regular_json d_manifest (cd_manifest_from c) TRANSACTION_METADATA_MAX_BYTES) (\<lambda>committed.
    try_bnd (read_optional_regular_json d_prepared (cd_prepared_from c) TRANSACTION_METADATA_MAX_BYTES) (\<lambda>prepared.
    let transactions = retained_transactions committed prepared
    in try_bnd (retain_objects c transactions []) (\<lambda>objects.
       ret (Ok (transactions, objects)))))"

type_synonym prune_acc = "PersistencePruneResult \<times> (PruneEntryKind \<times> string) list"

fun prune_scan :: "string btree_set \<Rightarrow> PruneEntryKind \<Rightarrow> string list \<Rightarrow> prune_acc \<Rightarrow> prune_acc io" where
  "prune_scan retained kind [] acc = ret (Ok acc)"
| "prune_scan retained kind (name # names) (r, candidates) =
    (if pp_scanned_entries r = PERSISTENCE_PRUNE_ENTRY_LIMIT then ret (Ok (r\<lparr>pp_has_more := True\<rparr>, candidates))
     else
       try_bnd sys (\<lambda>_.
       let r = r\<lparr>pp_scanned_entries := pp_scanned_entries r + 1\<rparr> in
       if \<not> is_ok (validate_digest name) \<or> name \<in> set retained
       then prune_scan retained kind names (r, candidates)
       else
         try_bnd sys (\<lambda>_.
         if length candidates = PERSISTENCE_PRUNE_REMOVAL_LIMIT
         then prune_scan retained kind names (r\<lparr>pp_has_more := True\<rparr>, candidates)
         else prune_scan retained kind names (r, candidates @ [(kind, name)]))))"

definition collect_prune_candidates ::
  "(Disk \<Rightarrow> (string \<times> string) list) \<Rightarrow> string btree_set \<Rightarrow> PruneEntryKind \<Rightarrow> prune_acc \<Rightarrow> prune_acc io" where
  "collect_prune_candidates directory retained kind acc =
    try_bnd sys (\<lambda>_ d. prune_scan retained kind (map fst (directory d)) acc d)"

fun prune_remove ::
  "(PruneEntryKind \<times> string) list \<Rightarrow> PersistencePruneResult \<Rightarrow> PersistencePruneResult io" where
  "prune_remove [] r = ret (Ok r)"
| "prune_remove ((PruneObject, name) # candidates) r =
    bnd (fs_read (object_file name)) (\<lambda>metadata. case metadata of
        Inl e \<Rightarrow> if e = IoNotFound then prune_remove candidates r else ret (Err e)
      | Inr _ \<Rightarrow>
          try_bnd sys (\<lambda>_.
          try_bnd (change (\<lambda>d. d\<lparr>d_objects := AList.delete name (d_objects d)\<rparr>)) (\<lambda>_.
          prune_remove candidates (r\<lparr>pp_removed_objects := pp_removed_objects r + 1\<rparr>))))"
| "prune_remove ((PruneTransaction, name) # candidates) r =
    bnd (fs_read (transaction_file name)) (\<lambda>metadata. case metadata of
        Inl e \<Rightarrow> if e = IoNotFound then prune_remove candidates r else ret (Err e)
      | Inr _ \<Rightarrow>
          try_bnd sys (\<lambda>_.
          try_bnd (change (\<lambda>d. d\<lparr>d_transactions := AList.delete name (d_transactions d)\<rparr>)) (\<lambda>_.
          prune_remove candidates (r\<lparr>pp_removed_transactions := pp_removed_transactions r + 1\<rparr>))))"

definition prune_unreachable :: "Codec \<Rightarrow> PersistencePruneResult io" where
  "prune_unreachable c =
    try_bnd (retained_content c) (\<lambda>(retained_transactions, retained_objects).
    let r = \<lparr>pp_scanned_entries = 0, pp_removed_objects = 0, pp_removed_transactions = 0, pp_has_more = False\<rparr> in
    try_bnd (collect_prune_candidates d_objects retained_objects PruneObject (r, [])) (\<lambda>acc.
    try_bnd (collect_prune_candidates d_transactions retained_transactions PruneTransaction acc) (\<lambda>(r, candidates).
    try_bnd (prune_remove candidates r) (\<lambda>r.
    try_bnd (if pp_removed_objects r > 0 then sync_directory else ret (Ok ())) (\<lambda>_.
    try_bnd (if pp_removed_transactions r > 0 then sync_directory else ret (Ok ())) (\<lambda>_.
    ret (Ok r)))))))"

end
