(* ===== verification/Core_Types.thy ===== *)
theory Core_Types
  imports Domain_Types
begin

text \<open>
  The boundary to the privileged core runtime: the data types of the first part of
  \<open>src/src/core.rs\<close>.  The runtime itself (a root helper process and the Mihomo core) is outside
  the program and appears as ports of the components that call it.
\<close>

record OwnerSessionProof =
  op_session_id :: string
  op_session_token :: string

record RuntimeBundle =
  rb_generation :: RuntimeGeneration
  rb_generation_root :: string
  rb_manifest_sha256 :: string
  rb_compiler_policy_sha256 :: string
  rb_mihomo_binary_sha256 :: string

record CoreControlEndpoint =
  ce_socket_path :: string
  ce_secret :: string

record ManagedCoreHandle =
  mc_pid :: u32
  mc_process_start_identity :: string
  mc_endpoint :: CoreControlEndpoint
  mc_instance_generation :: CoreInstanceGeneration
  mc_runtime_generation :: RuntimeGeneration

datatype ApplyDisposition = Spawned | Reloaded

record ApplyCandidateResult =
  ar_disposition :: ApplyDisposition
  ar_managed_core :: ManagedCoreHandle

datatype CoreRuntimeLifecycle = CoreOwned | CoreRunning | CoreRestartPending | CoreDegraded

datatype CoreRuntimeDiagnosticCategory = CoreRestartLimitReached

record CoreRuntimeRestartStatus =
  rs_pending :: bool
  rs_attempts :: nat
  rs_backoff :: "nat option"
  rs_diagnostic :: "CoreRuntimeDiagnosticCategory option"

definition restart_inactive :: CoreRuntimeRestartStatus where
  "restart_inactive = \<lparr>rs_pending = False, rs_attempts = 0, rs_backoff = None, rs_diagnostic = None\<rparr>"

datatype CoreRuntimeTunReason = TunReasonPermissionDenied | TunReasonUnsupported

record CoreRuntimeTunStatus =
  ts_capable :: bool
  ts_reason :: "CoreRuntimeTunReason option"

definition tun_available :: CoreRuntimeTunStatus where
  "tun_available = \<lparr>ts_capable = True, ts_reason = None\<rparr>"

record CoreRuntimeStatus =
  cs_managed_core :: "ManagedCoreHandle option"
  cs_lifecycle :: CoreRuntimeLifecycle
  cs_restart :: CoreRuntimeRestartStatus
  cs_tun :: CoreRuntimeTunStatus

definition from_managed_core :: "ManagedCoreHandle option \<Rightarrow> CoreRuntimeStatus" where
  "from_managed_core core = \<lparr>cs_managed_core = core,
     cs_lifecycle = (if core \<noteq> None then CoreRunning else CoreOwned),
     cs_restart = restart_inactive, cs_tun = tun_available\<rparr>"

datatype CoreRuntimeErrorKind =
    CoreAuthentication | CoreProtocolMismatch | CoreTunPermissionDenied | CoreTunUnsupported | CoreInvalidBundle
  | CoreProcessIdentityMismatch | CoreApply | CoreReloadTimeout | CoreReadiness | CoreUnavailable

end
