(* ===== verification/Transactions.thy ===== *)
theory Transactions
  imports Persistence Core_Types Config_Compiler
begin

text \<open>
  The configuration transaction coordinator of \<open>src/src/transaction.rs\<close>.

  A transaction journals a candidate, applies it to the privileged runtime, confirms that it
  is healthy and moves the committed pointer, or goes back to the committed generation.  The
  traits that the coordinator is given (store, runtime, validator, health probe, revisions,
  bundle resolver, locks, the shutdown flag) are the fields of \<open>Ports\<close>: every call takes
  the world and returns a result and the world afterwards, so the shutdown flag may be
  raised between any two steps and each call may fail.  \<open>execute_guarded\<close> is split where
  the candidate is journalled and where it has been applied.

  A lock call is its outcome: \<open>False\<close> for a poisoned mutex.
\<close>

record CandidateRevisions =
  cr_profile :: ProfileRevision
  cr_active_profile :: ActiveProfileRevision
  cr_local_rule_set :: LocalRuleSetRevision
  cr_compiler_policy_sha256 :: string
  cr_core_version :: string

record ConfigTransactionCandidate =
  ct_transaction :: TransactionBundle
  ct_runtime :: RuntimeBundle
  ct_configuration :: EffectiveConfiguration
  ct_revisions :: CandidateRevisions

datatype RuntimeApplyFailure = ApplyDefinite | ApplyIndeterminate | ApplyTunPermissionDenied | ApplyTunUnsupported

datatype ApplyPath = Direct | CandidateRestart

datatype RecoveryOutcome =
    NotRequired
  | Converged "RuntimeGeneration option"
  | Pending "RuntimeGeneration option"
  | Failed "RuntimeGeneration option"

record ConfigTransactionSuccess =
  sx_candidate_generation :: RuntimeGeneration
  sx_committed_generation :: RuntimeGeneration
  sx_apply_path :: ApplyPath
  sx_recovery :: RecoveryOutcome

datatype ConfigTransactionErrorKind =
    TxBusy | TxLockPoisoned | TxRecoveryRequired | TxStaleCandidate | TxInvalidCandidate | TxValidation | TxPrepare
  | TxTunPermissionDenied | TxTunUnsupported | TxApply | TxIndeterminateApply | TxHealth | TxCommit | TxCleanup
  | TxRecovery | TxShutdown

record ConfigTransactionError =
  ex_kind :: ConfigTransactionErrorKind
  ex_candidate_generation :: "RuntimeGeneration option"
  ex_committed_generation :: "RuntimeGeneration option"
  ex_recovery :: RecoveryOutcome

definition tx_error ::
  "ConfigTransactionErrorKind \<Rightarrow> RuntimeGeneration option \<Rightarrow> RuntimeGeneration option \<Rightarrow> RecoveryOutcome
   \<Rightarrow> ConfigTransactionError" where
  "tx_error kind candidate committed recovery = \<lparr>ex_kind = kind, ex_candidate_generation = candidate,
     ex_committed_generation = committed, ex_recovery = recovery\<rparr>"

definition tx_simple :: "ConfigTransactionErrorKind \<Rightarrow> ConfigTransactionError" where
  "tx_simple kind = tx_error kind None None NotRequired"

record StartupRecovery =
  su_committed_generation :: "RuntimeGeneration option"
  su_cleared_prepared_journal :: bool

record StartupReapply =
  sy_committed_generation :: "RuntimeGeneration option"
  sy_candidate_generation :: RuntimeGeneration
  sy_cleared_prepared_journal :: bool

datatype FailureRecoveryMode = ConvergeCommitted | StopStartupCandidate

record RuntimeGenerationRetention =
  rr_current :: "RuntimeGeneration option"
  rr_previous :: "RuntimeGeneration option"
  rr_prepared :: "RuntimeGeneration option"

datatype TryLock = TryLocked | TryWouldBlock | TryPoisoned

record 'w Ports =
  p_owner :: OwnerSessionProof
  p_read_object_limited :: "ObjectId \<Rightarrow> nat \<Rightarrow> ('w, string, IoKind) try_prog"
  p_prepare :: "TransactionBundle \<Rightarrow> ('w, PreparedTransaction, IoKind) try_prog"
  p_recover :: "('w, RecoveryState, IoKind) try_prog"
  p_commit_prepared :: "PreparedTransaction \<Rightarrow> ('w, unit, IoKind) try_prog"
  p_clear_prepared :: "PreparedTransaction \<Rightarrow> ('w, unit, IoKind) try_prog"
  p_load_transaction :: "TransactionId \<Rightarrow> ('w, TransactionBundle, IoKind) try_prog"
  p_prune_unreachable :: "('w, PersistencePruneResult, IoKind) try_prog"
  p_apply_candidate :: "OwnerSessionProof \<Rightarrow> RuntimeBundle \<Rightarrow> ('w, ApplyCandidateResult, RuntimeApplyFailure) try_prog"
  p_status :: "OwnerSessionProof \<Rightarrow> ('w, CoreRuntimeStatus, CoreRuntimeErrorKind) try_prog"
  p_stop :: "OwnerSessionProof \<Rightarrow> ('w, unit, CoreRuntimeErrorKind) try_prog"
  p_validate :: "EffectiveConfiguration \<Rightarrow> string \<Rightarrow> ('w, unit, unit) try_prog"
  p_confirm_ready :: "ManagedCoreHandle \<Rightarrow> ('w, unit, unit) try_prog"
  p_current_revisions :: "('w, CandidateRevisions) prog"
  p_resolve :: "TransactionBundle \<Rightarrow> ('w, RuntimeBundle, unit) try_prog"
  p_prune_generations :: "RuntimeGenerationRetention \<Rightarrow> ('w, unit, unit) try_prog"
  p_shutdown_requested :: "('w, bool) prog"
  p_lock_coordinator :: "('w, bool) prog"
  p_try_lock_coordinator :: "('w, TryLock) prog"
  p_lock_lifecycle :: "('w, bool) prog"

type_synonym ('w, 'a) tx = "('w, 'a, ConfigTransactionError) try_prog"

section \<open>Generations and retention\<close>

definition unit_err :: "('w, 'a, 'e) try_prog \<Rightarrow> ('w, 'a, unit) try_prog" where
  "unit_err m = fail_with (\<lambda>_. ()) m"

definition generation_from_transaction :: "'w Ports \<Rightarrow> TransactionId \<Rightarrow> ('w, RuntimeGeneration, unit) try_prog" where
  "generation_from_transaction P t =
    try_bnd (unit_err (p_load_transaction P t)) (\<lambda>b. ret (Ok (tb_runtime_generation b)))"

definition transpose_generation ::
  "'w Ports \<Rightarrow> TransactionId option \<Rightarrow> ('w, RuntimeGeneration option, unit) try_prog" where
  "transpose_generation P t = (case t of
      None \<Rightarrow> ret (Ok None)
    | Some t \<Rightarrow> try_bnd (generation_from_transaction P t) (\<lambda>g. ret (Ok (Some g))))"

definition generation_from_manifest ::
  "'w Ports \<Rightarrow> CommittedManifest option \<Rightarrow> ('w, RuntimeGeneration option, unit) try_prog" where
  "generation_from_manifest P manifest = (case manifest of
      None \<Rightarrow> ret (Ok None)
    | Some m \<Rightarrow>
        try_bnd (unit_err (p_load_transaction P (cm_current m))) (\<lambda>b. ret (Ok (Some (tb_runtime_generation b)))))"

definition runtime_retention ::
  "'w Ports \<Rightarrow> CommittedManifest option \<Rightarrow> RuntimeGeneration option \<Rightarrow> ('w, RuntimeGenerationRetention, unit) try_prog" where
  "runtime_retention P committed prepared =
    try_bnd (transpose_generation P (map_option cm_current committed)) (\<lambda>current.
    try_bnd (transpose_generation P (Option.bind committed cm_previous)) (\<lambda>previous.
    ret (Ok \<lparr>rr_current = current, rr_previous = previous, rr_prepared = prepared\<rparr>)))"

definition prune_runtime_state :: "'w Ports \<Rightarrow> RecoveryState \<Rightarrow> ('w, unit, unit) try_prog" where
  "prune_runtime_state P state =
    try_bnd (transpose_generation P (map_option pt_candidate (rv_prepared state))) (\<lambda>prepared.
    try_bnd (runtime_retention P (rv_committed state) prepared) (\<lambda>retention.
    p_prune_generations P retention))"

definition clear_prepared_and_prune :: "'w Ports \<Rightarrow> PreparedTransaction \<Rightarrow> ('w, unit, unit) try_prog" where
  "clear_prepared_and_prune P prepared =
    try_bnd (unit_err (p_clear_prepared P prepared)) (\<lambda>_.
    bnd (p_prune_unreachable P) (\<lambda>_.
    try_bnd (unit_err (p_recover P)) (\<lambda>state.
    prune_runtime_state P state)))"

section \<open>Convergence and rollback\<close>

definition confirm :: "'w Ports \<Rightarrow> ApplyCandidateResult \<Rightarrow> RuntimeGeneration \<Rightarrow> ('w, unit, unit) try_prog" where
  "confirm P applied expected_generation =
    try_bnd (unit_err (p_status P (p_owner P))) (\<lambda>status.
    case cs_managed_core status of
      None \<Rightarrow> ret (Err ())
    | Some actual \<Rightarrow>
        let expected = ar_managed_core applied in
        if mc_pid actual \<noteq> mc_pid expected \<or>
           mc_process_start_identity actual \<noteq> mc_process_start_identity expected \<or>
           mc_endpoint actual \<noteq> mc_endpoint expected \<or>
           mc_instance_generation actual \<noteq> mc_instance_generation expected \<or>
           mc_runtime_generation actual \<noteq> expected_generation \<or>
           mc_runtime_generation expected \<noteq> expected_generation
        then ret (Err ())
        else p_confirm_ready P actual)"

definition restart_candidate :: "'w Ports \<Rightarrow> RuntimeBundle \<Rightarrow> ('w, ApplyCandidateResult, unit) try_prog" where
  "restart_candidate P bundle =
    try_bnd (unit_err (p_stop P (p_owner P))) (\<lambda>_.
    try_bnd (unit_err (p_apply_candidate P (p_owner P) bundle)) (\<lambda>applied.
    try_bnd (confirm P applied (rb_generation bundle)) (\<lambda>_.
    ret (Ok applied))))"

text \<open>The runtime already runs the generation and is healthy.\<close>

definition already_converged :: "'w Ports \<Rightarrow> RuntimeGeneration \<Rightarrow> ('w, bool) prog" where
  "already_converged P generation =
    bnd (p_status P (p_owner P)) (\<lambda>status. case status of
        Inl _ \<Rightarrow> ret False
      | Inr status \<Rightarrow> (case cs_managed_core status of
            None \<Rightarrow> ret False
          | Some core \<Rightarrow>
              if mc_runtime_generation core = generation
              then bnd (p_confirm_ready P core) (\<lambda>ready. ret (is_ok ready))
              else ret False))"

definition converge_to_transaction :: "'w Ports \<Rightarrow> TransactionId option \<Rightarrow> ('w, unit, unit) try_prog" where
  "converge_to_transaction P transaction = (case transaction of
      None \<Rightarrow> unit_err (p_stop P (p_owner P))
    | Some t \<Rightarrow>
        try_bnd (unit_err (p_load_transaction P t)) (\<lambda>b.
        try_bnd (p_resolve P b) (\<lambda>bundle.
        if rb_generation bundle \<noteq> tb_runtime_generation b then ret (Err ())
        else
          bnd (already_converged P (rb_generation bundle)) (\<lambda>done.
          if done then ret (Ok ())
          else
            try_bnd (unit_err (p_stop P (p_owner P))) (\<lambda>_.
            try_bnd (unit_err (p_apply_candidate P (p_owner P) bundle)) (\<lambda>applied.
            confirm P applied (rb_generation bundle)))))))"

definition converge_to_manifest :: "'w Ports \<Rightarrow> CommittedManifest option \<Rightarrow> ('w, unit, unit) try_prog" where
  "converge_to_manifest P manifest = converge_to_transaction P (map_option cm_current manifest)"

definition rollback :: "'w Ports \<Rightarrow> PreparedTransaction \<Rightarrow> RuntimeGeneration option \<Rightarrow> ('w, RecoveryOutcome) prog" where
  "rollback P prepared target =
    bnd (converge_to_transaction P (pt_previous prepared)) (\<lambda>r.
    if \<not> is_ok r then ret (Failed target)
    else
      bnd (clear_prepared_and_prune P prepared) (\<lambda>r.
      if \<not> is_ok r then ret (Failed target) else ret (Converged target)))"

definition recover_failed_candidate ::
  "'w Ports \<Rightarrow> PreparedTransaction \<Rightarrow> RuntimeGeneration option \<Rightarrow> FailureRecoveryMode \<Rightarrow> ('w, RecoveryOutcome) prog" where
  "recover_failed_candidate P prepared target mode = (case mode of
      ConvergeCommitted \<Rightarrow> rollback P prepared target
    | StopStartupCandidate \<Rightarrow>
        bnd (p_stop P (p_owner P)) (\<lambda>_.
        bnd (clear_prepared_and_prune P prepared) (\<lambda>_.
        ret (Failed target))))"

definition clear_prepared_unapplied ::
  "'w Ports \<Rightarrow> PreparedTransaction \<Rightarrow> RuntimeGeneration option \<Rightarrow> ('w, RecoveryOutcome) prog" where
  "clear_prepared_unapplied P prepared committed_generation =
    bnd (clear_prepared_and_prune P prepared) (\<lambda>r.
    ret (if is_ok r then Converged committed_generation else Failed committed_generation))"

definition clear_unapplied_journal :: "'w Ports \<Rightarrow> RuntimeGeneration option \<Rightarrow> ('w, RecoveryOutcome) prog" where
  "clear_unapplied_journal P committed_generation =
    bnd (p_recover P) (\<lambda>r. case r of
        Inl _ \<Rightarrow> ret (Failed committed_generation)
      | Inr state \<Rightarrow> (case rv_prepared state of
            None \<Rightarrow> ret NotRequired
          | Some prepared \<Rightarrow> clear_prepared_unapplied P prepared committed_generation))"

definition recover_commit_failure ::
  "'w Ports \<Rightarrow> PreparedTransaction \<Rightarrow> RuntimeGeneration \<Rightarrow> RuntimeGeneration option \<Rightarrow> FailureRecoveryMode
   \<Rightarrow> ('w, RecoveryOutcome) tx" where
  "recover_commit_failure P prepared candidate_generation previous_generation mode =
    bnd (p_recover P) (\<lambda>r. case r of
        Inl _ \<Rightarrow> ret (Err (tx_error TxCommit (Some candidate_generation) previous_generation (Failed previous_generation)))
      | Inr state \<Rightarrow>
          if map_option cm_current (rv_committed state) = Some (pt_candidate prepared)
          then
            bnd (clear_prepared_and_prune P prepared) (\<lambda>r.
            ret (Ok (if is_ok r then Converged (Some candidate_generation) else Pending (Some candidate_generation))))
          else
            bnd (recover_failed_candidate P prepared previous_generation mode) (\<lambda>recovery.
            ret (Err (tx_error TxCommit (Some candidate_generation) previous_generation recovery))))"

section \<open>Executing a transaction\<close>

definition shutdown_error :: "RuntimeGeneration \<Rightarrow> RuntimeGeneration option \<Rightarrow> bool \<Rightarrow> ConfigTransactionError" where
  "shutdown_error candidate_generation committed_generation prepared =
    tx_error TxShutdown (Some candidate_generation) committed_generation
      (if prepared then Pending committed_generation else NotRequired)"

text \<open>Return with the error when the shutdown flag is up.\<close>

definition unless_shutdown :: "'w Ports \<Rightarrow> ConfigTransactionError \<Rightarrow> ('w, 'a) tx \<Rightarrow> ('w, 'a) tx" where
  "unless_shutdown P e m = bnd (p_shutdown_requested P) (\<lambda>requested. if requested then ret (Err e) else m)"

definition structurally_valid ::
  "ConfigTransactionCandidate \<Rightarrow> RuntimeGeneration option \<Rightarrow> string option \<Rightarrow> bool" where
  "structurally_valid candidate committed_generation effective_object \<longleftrightarrow>
    (let generation = rb_generation (ct_runtime candidate) in
     (case committed_generation of None \<Rightarrow> generation > 0 | Some current \<Rightarrow> generation > current) \<and>
     tb_runtime_generation (ct_transaction candidate) = generation \<and>
     tb_profile_revision (ct_transaction candidate) = cr_profile (ct_revisions candidate) \<and>
     tb_local_rule_set_revision (ct_transaction candidate) = cr_local_rule_set (ct_revisions candidate) \<and>
     rb_compiler_policy_sha256 (ct_runtime candidate) = cr_compiler_policy_sha256 (ct_revisions candidate) \<and>
     ec_compiler_policy_sha256 (ct_configuration candidate) = cr_compiler_policy_sha256 (ct_revisions candidate) \<and>
     ec_core_version (ct_configuration candidate) = cr_core_version (ct_revisions candidate) \<and>
     is_absolute (rb_generation_root (ct_runtime candidate)) \<and>
     rb_manifest_sha256 (ct_runtime candidate) \<noteq> [] \<and>
     rb_mihomo_binary_sha256 (ct_runtime candidate) \<noteq> [] \<and>
     effective_object = Some (ec_yaml (ct_configuration candidate)))"

definition validate_candidate ::
  "'w Ports \<Rightarrow> ConfigTransactionCandidate \<Rightarrow> RuntimeGeneration option \<Rightarrow> ('w, unit) tx" where
  "validate_candidate P candidate committed_generation =
    bnd (p_current_revisions P) (\<lambda>revisions.
    if revisions \<noteq> ct_revisions candidate
    then ret (Err (tx_error TxStaleCandidate (Some (rb_generation (ct_runtime candidate))) committed_generation NotRequired))
    else
      bnd (p_read_object_limited P (tb_effective_configuration (ct_transaction candidate))
        EFFECTIVE_CONFIGURATION_MAX_BYTES) (\<lambda>r.
      let effective_object = (case r of Inl _ \<Rightarrow> None | Inr x \<Rightarrow> Some x) in
      ret (if structurally_valid candidate committed_generation effective_object then Ok ()
           else Err (tx_error TxInvalidCandidate (Some (rb_generation (ct_runtime candidate))) committed_generation
             NotRequired))))"

text \<open>Commit, clean up, report (lines 850 to 878).\<close>

definition commit_candidate ::
  "'w Ports \<Rightarrow> ConfigTransactionCandidate \<Rightarrow> FailureRecoveryMode \<Rightarrow> RuntimeGeneration option \<Rightarrow> PreparedTransaction
   \<Rightarrow> ApplyPath \<Rightarrow> ('w, ConfigTransactionSuccess) tx" where
  "commit_candidate P candidate mode committed_generation prepared path =
    (let generation = rb_generation (ct_runtime candidate) in
     unless_shutdown P (shutdown_error generation committed_generation True) (
     bnd (p_commit_prepared P prepared) (\<lambda>committed.
     try_bnd
       (if \<not> is_ok committed then recover_commit_failure P prepared generation committed_generation mode
        else bnd (clear_prepared_and_prune P prepared) (\<lambda>cleared.
          ret (Ok (if \<not> is_ok cleared then Pending (Some generation) else NotRequired)))) (\<lambda>recovery.
     ret (Ok \<lparr>sx_candidate_generation = generation, sx_committed_generation = generation,
       sx_apply_path = path, sx_recovery = recovery\<rparr>)))))"

definition fail_applied ::
  "'w Ports \<Rightarrow> ConfigTransactionCandidate \<Rightarrow> FailureRecoveryMode \<Rightarrow> RuntimeGeneration option \<Rightarrow> PreparedTransaction
   \<Rightarrow> ConfigTransactionErrorKind \<Rightarrow> ('w, 'a) tx" where
  "fail_applied P candidate mode committed_generation prepared kind =
    bnd (recover_failed_candidate P prepared committed_generation mode) (\<lambda>recovery.
    ret (Err (tx_error kind (Some (rb_generation (ct_runtime candidate))) committed_generation recovery)))"

text \<open>Apply the journalled candidate and confirm it (lines 747 to 848).\<close>

definition apply_prepared ::
  "'w Ports \<Rightarrow> ConfigTransactionCandidate \<Rightarrow> FailureRecoveryMode \<Rightarrow> RuntimeGeneration option \<Rightarrow> PreparedTransaction
   \<Rightarrow> ('w, ConfigTransactionSuccess) tx" where
  "apply_prepared P candidate mode committed_generation prepared =
    (let generation = rb_generation (ct_runtime candidate);
         interrupted = shutdown_error generation committed_generation True;
         failing = fail_applied P candidate mode committed_generation prepared
     in
     unless_shutdown P interrupted (
     bnd (p_apply_candidate P (p_owner P) (ct_runtime candidate)) (\<lambda>apply_result.
     unless_shutdown P interrupted (
     case apply_result of
       Inr applied \<Rightarrow>
         bnd (confirm P applied generation) (\<lambda>confirmation.
         unless_shutdown P interrupted (
         if \<not> is_ok confirmation then failing TxHealth
         else commit_candidate P candidate mode committed_generation prepared Direct))
     | Inl ApplyDefinite \<Rightarrow> failing TxApply
     | Inl ApplyTunPermissionDenied \<Rightarrow> failing TxTunPermissionDenied
     | Inl ApplyTunUnsupported \<Rightarrow> failing TxTunUnsupported
     | Inl ApplyIndeterminate \<Rightarrow>
         bnd (restart_candidate P (ct_runtime candidate)) (\<lambda>restarted.
         if \<not> is_ok restarted then failing TxIndeterminateApply
         else commit_candidate P candidate mode committed_generation prepared CandidateRestart)))))"

text \<open>Validate the journalled candidate and take the lifecycle lock (lines 698 to 745).\<close>

definition validate_prepared ::
  "'w Ports \<Rightarrow> ConfigTransactionCandidate \<Rightarrow> FailureRecoveryMode \<Rightarrow> RuntimeGeneration option \<Rightarrow> PreparedTransaction
   \<Rightarrow> ('w, ConfigTransactionSuccess) tx" where
  "validate_prepared P candidate mode committed_generation prepared =
    (let generation = rb_generation (ct_runtime candidate);
         interrupted = shutdown_error generation committed_generation True;
         unapplied = (\<lambda>kind. bnd (clear_prepared_unapplied P prepared committed_generation) (\<lambda>recovery.
           ret (Err (tx_error kind (Some generation) committed_generation recovery))))
     in
     unless_shutdown P interrupted (
     bnd (p_validate P (ct_configuration candidate) (rb_generation_root (ct_runtime candidate))) (\<lambda>validation.
     unless_shutdown P interrupted (
     if \<not> is_ok validation then unapplied TxValidation
     else
       bnd (p_current_revisions P) (\<lambda>revisions.
       if revisions \<noteq> ct_revisions candidate then unapplied TxStaleCandidate
       else
         bnd (p_lock_lifecycle P) (\<lambda>locked.
         if \<not> locked
         then ret (Err (tx_error TxLockPoisoned (Some generation) committed_generation (Pending committed_generation)))
         else apply_prepared P candidate mode committed_generation prepared))))))"

text \<open>Checks before the journal and the journal itself (lines 650 to 696).\<close>

definition journal_candidate ::
  "'w Ports \<Rightarrow> ConfigTransactionCandidate \<Rightarrow> FailureRecoveryMode \<Rightarrow> RuntimeGeneration option \<Rightarrow> RecoveryState
   \<Rightarrow> ('w, ConfigTransactionSuccess) tx" where
  "journal_candidate P candidate mode committed_generation initial_state =
    (let generation = rb_generation (ct_runtime candidate) in
     if rv_prepared initial_state \<noteq> None
     then ret (Err (tx_error TxRecoveryRequired (Some generation) committed_generation (Pending committed_generation)))
     else
       try_bnd (validate_candidate P candidate committed_generation) (\<lambda>_.
       try_bnd (fail_with (\<lambda>_. tx_error TxRecovery (Some generation) committed_generation (Failed committed_generation))
         (runtime_retention P (rv_committed initial_state) (Some generation))) (\<lambda>retention.
       try_bnd (fail_with (\<lambda>_. tx_error TxCleanup (Some generation) committed_generation NotRequired)
         (p_prune_generations P retention)) (\<lambda>_.
       bnd (p_prepare P (ct_transaction candidate)) (\<lambda>r. case r of
           Inl _ \<Rightarrow>
             bnd (clear_unapplied_journal P committed_generation) (\<lambda>recovery.
             ret (Err (tx_error TxPrepare (Some generation) committed_generation recovery)))
         | Inr prepared \<Rightarrow> validate_prepared P candidate mode committed_generation prepared)))))"

text \<open>Read the committed state and drop the journal of a transaction that is already committed (lines 590 to 649).\<close>

definition execute_guarded ::
  "'w Ports \<Rightarrow> ConfigTransactionCandidate \<Rightarrow> FailureRecoveryMode \<Rightarrow> ('w, ConfigTransactionSuccess) tx" where
  "execute_guarded P candidate mode =
    (let generation = rb_generation (ct_runtime candidate);
         unreadable = tx_error TxRecovery (Some generation) None (Failed None)
     in
     unless_shutdown P (shutdown_error generation None False) (
     try_bnd (fail_with (\<lambda>_. unreadable) (p_recover P)) (\<lambda>state.
     try_bnd (fail_with (\<lambda>_. unreadable) (generation_from_manifest P (rv_committed state))) (\<lambda>committed_generation.
     unless_shutdown P (shutdown_error generation committed_generation False) (
     case rv_prepared state of
       None \<Rightarrow> journal_candidate P candidate mode committed_generation state
     | Some prepared \<Rightarrow>
         if map_option cm_current (rv_committed state) = Some (pt_candidate prepared)
         then
           try_bnd (fail_with (\<lambda>_. tx_error TxRecoveryRequired (Some generation) committed_generation
               (Pending committed_generation)) (clear_prepared_and_prune P prepared)) (\<lambda>_.
           try_bnd (fail_with (\<lambda>_. tx_error TxRecovery (Some generation) committed_generation
               (Failed committed_generation)) (p_recover P)) (\<lambda>state.
           journal_candidate P candidate mode committed_generation state))
         else journal_candidate P candidate mode committed_generation state)))))"

definition with_coordinator :: "'w Ports \<Rightarrow> ('w, 'a) tx \<Rightarrow> ('w, 'a) tx" where
  "with_coordinator P m = bnd (p_lock_coordinator P) (\<lambda>locked. if locked then m else ret (Err (tx_simple TxLockPoisoned)))"

definition execute :: "'w Ports \<Rightarrow> ConfigTransactionCandidate \<Rightarrow> ('w, ConfigTransactionSuccess) tx" where
  "execute P candidate = with_coordinator P (execute_guarded P candidate ConvergeCommitted)"

definition execute_startup_reapply :: "'w Ports \<Rightarrow> ConfigTransactionCandidate \<Rightarrow> ('w, ConfigTransactionSuccess) tx" where
  "execute_startup_reapply P candidate = with_coordinator P (execute_guarded P candidate StopStartupCandidate)"

definition try_reserve_rule :: "'w Ports \<Rightarrow> ('w, unit) tx" where
  "try_reserve_rule P = bnd (p_try_lock_coordinator P) (\<lambda>r. ret (case r of
      TryLocked \<Rightarrow> Ok ()
    | TryWouldBlock \<Rightarrow> Err (tx_simple TxBusy)
    | TryPoisoned \<Rightarrow> Err (tx_simple TxLockPoisoned)))"

definition try_execute_rule :: "'w Ports \<Rightarrow> ConfigTransactionCandidate \<Rightarrow> ('w, ConfigTransactionSuccess) tx" where
  "try_execute_rule P candidate = try_bnd (try_reserve_rule P) (\<lambda>_. execute_guarded P candidate ConvergeCommitted)"

section \<open>Startup\<close>

definition cleanup_pending :: "RuntimeGeneration option \<Rightarrow> ConfigTransactionError" where
  "cleanup_pending committed_generation = tx_error TxCleanup None committed_generation (Pending committed_generation)"

definition read_committed :: "'w Ports \<Rightarrow> ('w, RecoveryState \<times> RuntimeGeneration option) tx" where
  "read_committed P =
    try_bnd (fail_with (\<lambda>_. tx_simple TxRecovery) (p_recover P)) (\<lambda>state.
    try_bnd (fail_with (\<lambda>_. tx_simple TxRecovery) (generation_from_manifest P (rv_committed state))) (\<lambda>committed_generation.
    try_bnd (fail_with (\<lambda>_. cleanup_pending committed_generation) (prune_runtime_state P state)) (\<lambda>_.
    ret (Ok (state, committed_generation)))))"

definition clear_at_startup :: "'w Ports \<Rightarrow> RuntimeGeneration option \<Rightarrow> PreparedTransaction option \<Rightarrow> ('w, unit) tx" where
  "clear_at_startup P committed_generation prepared = (case prepared of
      None \<Rightarrow> ret (Ok ())
    | Some p \<Rightarrow> fail_with (\<lambda>_. cleanup_pending committed_generation) (clear_prepared_and_prune P p))"

definition recover_startup :: "'w Ports \<Rightarrow> ('w, StartupRecovery) tx" where
  "recover_startup P = with_coordinator P (
    bnd (p_lock_lifecycle P) (\<lambda>locked. if \<not> locked then ret (Err (tx_simple TxLockPoisoned)) else
    try_bnd (read_committed P) (\<lambda>(state, committed_generation).
    try_bnd (fail_with (\<lambda>_. tx_error TxRecovery None committed_generation (Failed committed_generation))
      (converge_to_manifest P (rv_committed state))) (\<lambda>_.
    try_bnd (clear_at_startup P committed_generation (rv_prepared state)) (\<lambda>_.
    ret (Ok \<lparr>su_committed_generation = committed_generation,
      su_cleared_prepared_journal = (rv_prepared state \<noteq> None)\<rparr>))))))"

definition prepared_generation :: "'w Ports \<Rightarrow> PreparedTransaction option \<Rightarrow> ('w, RuntimeGeneration option) prog" where
  "prepared_generation P prepared = (case prepared of
      None \<Rightarrow> ret None
    | Some p \<Rightarrow> bnd (p_load_transaction P (pt_candidate p)) (\<lambda>r.
        ret (case r of Inl _ \<Rightarrow> None | Inr b \<Rightarrow> Some (tb_runtime_generation b))))"

definition highest_generation :: "RuntimeGeneration option \<Rightarrow> RuntimeGeneration option \<Rightarrow> u64" where
  "highest_generation committed prepared =
    (case (committed, prepared) of
       (None, None) \<Rightarrow> 0
     | (Some g, None) \<Rightarrow> g
     | (None, Some g) \<Rightarrow> g
     | (Some g, Some h) \<Rightarrow> max g h)"

definition prepare_startup_reapply :: "'w Ports \<Rightarrow> RuntimeGeneration option \<Rightarrow> ('w, StartupReapply) tx" where
  "prepare_startup_reapply P expected = with_coordinator P (
    try_bnd (read_committed P) (\<lambda>(state, committed_generation).
    if committed_generation \<noteq> expected
    then ret (Err (tx_error TxRecovery None committed_generation (Failed expected)))
    else
      bnd (prepared_generation P (rv_prepared state)) (\<lambda>prepared.
      case checked_add (highest_generation committed_generation prepared) 1 of
        None \<Rightarrow> ret (Err (tx_error TxRecovery None committed_generation (Failed committed_generation)))
      | Some candidate_generation \<Rightarrow>
          if \<not> candidate_generation > 0
          then ret (Err (tx_error TxRecovery None committed_generation (Failed committed_generation)))
          else
            try_bnd (clear_at_startup P committed_generation (rv_prepared state)) (\<lambda>_.
            ret (Ok \<lparr>sy_committed_generation = committed_generation, sy_candidate_generation = candidate_generation,
              sy_cleared_prepared_journal = (rv_prepared state \<noteq> None)\<rparr>)))))"

end
