(* ===== verification/Store_Recovery.thy ===== *)
theory Store_Recovery
  imports Persistence
begin

text \<open>
  What the persistence store promises, for every sequence of system-call failures.

  \<open>store_step\<close> is the abstract store: the atomic changes that its files may go through, each
  with the condition under which it is allowed.  Every operation of \<open>Persistence\<close> is a path of
  such steps whatever fails (the lemmas \<open>path_\<dots>\<close>).  \<open>store_ok\<close> says that the
  manifest and the journal can be read and that every transaction they name is stored with all
  its objects; it is an invariant of the steps, so of all runs of the store.
\<close>

section \<open>The abstract store\<close>

definition manifest_of :: "Codec \<Rightarrow> 'a Files_scheme \<Rightarrow> CommittedManifest option" where
  "manifest_of c d = Option.bind (d_manifest d) (cd_manifest_from c)"

definition journal_of :: "Codec \<Rightarrow> 'a Files_scheme \<Rightarrow> PreparedTransaction option" where
  "journal_of c d = Option.bind (d_prepared d) (cd_prepared_from c)"

definition object_present :: "Codec \<Rightarrow> 'a Files_scheme \<Rightarrow> ObjectId \<Rightarrow> bool" where
  "object_present c d i = (case object_file (object_text i) d of
      None \<Rightarrow> False
    | Some x \<Rightarrow> cd_sha256_hex c x = object_text i \<and> length x \<le> usize_max)"

definition objects_present :: "Codec \<Rightarrow> 'a Files_scheme \<Rightarrow> TransactionBundle \<Rightarrow> bool" where
  "objects_present c d b = list_all (object_present c d) (bundle_objects b)"

definition bundle_at :: "Codec \<Rightarrow> 'a Files_scheme \<Rightarrow> TransactionId \<Rightarrow> TransactionBundle option" where
  "bundle_at c d t = (case transaction_file (transaction_text t) d of
      None \<Rightarrow> None
    | Some s \<Rightarrow>
        if cd_sha256_hex c s \<noteq> transaction_text t then None
        else case decode_bundle c s of Inl _ \<Rightarrow> None | Inr b \<Rightarrow> Some b)"

definition loadable :: "Codec \<Rightarrow> 'a Files_scheme \<Rightarrow> TransactionId \<Rightarrow> bool" where
  "loadable c d t = (case bundle_at c d t of None \<Rightarrow> False | Some b \<Rightarrow> objects_present c d b)"

definition named_transactions :: "CommittedManifest option \<Rightarrow> PreparedTransaction option \<Rightarrow> TransactionId list" where
  "named_transactions committed prepared =
    (case committed of None \<Rightarrow> [] | Some m \<Rightarrow> cm_current m # (case cm_previous m of None \<Rightarrow> [] | Some t \<Rightarrow> [t]))
    @ (case prepared of None \<Rightarrow> [] | Some p \<Rightarrow> pt_candidate p # (case pt_previous p of None \<Rightarrow> [] | Some t \<Rightarrow> [t]))"

definition live_transactions :: "Codec \<Rightarrow> 'a Files_scheme \<Rightarrow> TransactionId list" where
  "live_transactions c d = named_transactions (manifest_of c d) (journal_of c d)"

fun json_strings :: "JsonValue \<Rightarrow> string list" where
  "json_strings (JString s) = [s]"
| "json_strings (JArray vs) = concat (map json_strings vs)"
| "json_strings (JObject vs) = concat (map (json_strings \<circ> snd) vs)"
| "json_strings _ = []"

definition state_references :: "Codec \<Rightarrow> string \<Rightarrow> string list" where
  "state_references c content =
    (case find (\<lambda>ch. \<not> is_ascii_whitespace ch) content of
       None \<Rightarrow> []
     | Some first \<Rightarrow>
         if first \<noteq> CHR 0x7B \<and> first \<noteq> CHR 0x5B then []
         else case cd_value_from c content of
             None \<Rightarrow> []
           | Some v \<Rightarrow> filter is_lower_sha256_hex (json_strings v))"

definition transaction_objects :: "Codec \<Rightarrow> 'a Files_scheme \<Rightarrow> TransactionId \<Rightarrow> string list" where
  "transaction_objects c d t =
    (case bundle_at c d t of
       None \<Rightarrow> []
     | Some b \<Rightarrow> map object_text (bundle_objects b) @
         (case object_file (object_text (tb_supervisor_state b)) d of
            None \<Rightarrow> []
          | Some state \<Rightarrow> state_references c state))"

definition live_objects :: "Codec \<Rightarrow> 'a Files_scheme \<Rightarrow> string list" where
  "live_objects c d = concat (map (transaction_objects c d) (live_transactions c d))"

inductive store_step :: "Codec \<Rightarrow> Files \<Rightarrow> Files \<Rightarrow> bool" for c :: Codec where
  put: "length x \<le> usize_max \<Longrightarrow>
    store_step c F (F\<lparr>d_objects := AList.update (cd_sha256_hex c x) x (d_objects F)\<rparr>)"
| store: "objects_present c F b \<Longrightarrow> cd_bundle_to c (bundle_to_dto c b) = Some s \<Longrightarrow>
    store_step c F (F\<lparr>d_transactions := AList.update (cd_sha256_hex c s) s (d_transactions F)\<rparr>)"
| journal: "d_prepared F = None \<Longrightarrow> d_manifest F = None \<or> manifest_of c F \<noteq> None \<Longrightarrow>
    loadable c F (pt_candidate p) \<Longrightarrow> pt_previous p = map_option cm_current (manifest_of c F) \<Longrightarrow>
    cd_prepared_to c p = Some text \<Longrightarrow>
    store_step c F (F\<lparr>d_prepared := Some text\<rparr>)"
| commit: "journal_of c F = Some p \<Longrightarrow> map_option cm_current (manifest_of c F) = pt_previous p \<Longrightarrow>
    loadable c F (pt_candidate p) \<Longrightarrow>
    cd_manifest_to c \<lparr>cm_current = pt_candidate p, cm_previous = pt_previous p\<rparr> = Some text \<Longrightarrow>
    store_step c F (F\<lparr>d_manifest := Some text\<rparr>)"
| clear: "journal_of c F = Some p \<Longrightarrow> store_step c F (F\<lparr>d_prepared := None\<rparr>)"
| remove_object: "name \<notin> set (live_objects c F) \<Longrightarrow>
    store_step c F (F\<lparr>d_objects := AList.delete name (d_objects F)\<rparr>)"
| remove_transaction: "name \<notin> transaction_text ` set (live_transactions c F) \<Longrightarrow>
    store_step c F (F\<lparr>d_transactions := AList.delete name (d_transactions F)\<rparr>)"

inductive_cases store_stepE: "store_step c F F'"

definition store_ok :: "Codec \<Rightarrow> 'a Files_scheme \<Rightarrow> bool" where
  "store_ok c d \<longleftrightarrow>
    (d_manifest d = None \<or> manifest_of c d \<noteq> None) \<and>
    (d_prepared d = None \<or> journal_of c d \<noteq> None) \<and>
    list_all (loadable c d) (live_transactions c d)"

text \<open>What the store relies on: serialised values are read back.\<close>

definition codec_ok :: "Codec \<Rightarrow> bool" where
  "codec_ok c \<longleftrightarrow>
    (\<forall>i. cd_id_parse c (cd_id_text c i) = Some i) \<and>
    (\<forall>x s. cd_bundle_to c x = Some s \<longrightarrow> cd_bundle_from c s = Some x) \<and>
    (\<forall>x s. cd_prepared_to c x = Some s \<longrightarrow> cd_prepared_from c s = Some x) \<and>
    (\<forall>x s. cd_manifest_to c x = Some s \<longrightarrow> cd_manifest_from c s = Some x)"

datatype StoreOp =
    PutObject string
  | ReadObject ObjectId nat
  | Prepare TransactionBundle
  | Recover
  | CommitPrepared PreparedTransaction
  | ClearPrepared PreparedTransaction
  | LoadTransaction TransactionId
  | PruneUnreachable

fun store_apply :: "Codec \<Rightarrow> StoreOp \<Rightarrow> Disk \<Rightarrow> Disk" where
  "store_apply c (PutObject x) d = snd (put_object c x d)"
| "store_apply c (ReadObject i limit) d = snd (read_object_limited c i limit d)"
| "store_apply c (Prepare b) d = snd (prepare c b d)"
| "store_apply c Recover d = snd (recover c d)"
| "store_apply c (CommitPrepared p) d = snd (commit_prepared c p d)"
| "store_apply c (ClearPrepared p) d = snd (clear_prepared c p d)"
| "store_apply c (LoadTransaction t) d = snd (load_transaction c t d)"
| "store_apply c PruneUnreachable d = snd (prune_unreachable c d)"

fun op_bounded :: "StoreOp \<Rightarrow> bool" where
  "op_bounded (PutObject x) = (length x \<le> usize_max)"
| "op_bounded _ = True"

definition empty_disk :: "bool list \<Rightarrow> Disk" where
  "empty_disk faults = \<lparr>d_objects = [], d_transactions = [], d_manifest = None, d_prepared = None, d_faults = faults\<rparr>"

abbreviation files :: "Disk \<Rightarrow> Files" where
  "files d \<equiv> Files.truncate d"

section \<open>Invariance of the steps\<close>

lemma decode_bundle_to:
  "codec_ok c \<Longrightarrow> cd_bundle_to c (bundle_to_dto c b) = Some s \<Longrightarrow> decode_bundle c s = Ok b"
  by (simp add: codec_ok_def decode_bundle_def bundle_of_dto_def bundle_to_dto_def)

lemma object_present_put:
  assumes "length x \<le> usize_max" "object_present c F i"
  shows "object_present c (F\<lparr>d_objects := AList.update (cd_sha256_hex c x) x (d_objects F)\<rparr>) i"
  using assms by (auto simp: object_present_def object_file_def update_conv' split: option.splits)

lemma objects_present_mono:
  "objects_present c F b \<Longrightarrow> (\<And>i. object_present c F i \<Longrightarrow> i \<in> set (bundle_objects b) \<Longrightarrow> object_present c F' i) \<Longrightarrow>
   objects_present c F' b"
  by (auto simp: objects_present_def list_all_iff)

lemma loadable_iff: "loadable c d t \<longleftrightarrow> (\<exists>b. bundle_at c d t = Some b \<and> objects_present c d b)"
  by (auto simp: loadable_def split: option.splits)

lemma object_present_frame [simp]:
  "object_present c (F\<lparr>d_transactions := x\<rparr>) = object_present c F"
  "object_present c (F\<lparr>d_manifest := y\<rparr>) = object_present c F"
  "object_present c (F\<lparr>d_prepared := z\<rparr>) = object_present c F"
  by (auto simp: object_present_def object_file_def fun_eq_iff)

lemma objects_present_frame [simp]:
  "objects_present c (F\<lparr>d_transactions := x\<rparr>) = objects_present c F"
  "objects_present c (F\<lparr>d_manifest := y\<rparr>) = objects_present c F"
  "objects_present c (F\<lparr>d_prepared := z\<rparr>) = objects_present c F"
  by (auto simp: objects_present_def fun_eq_iff)

lemma bundle_at_frame [simp]:
  "bundle_at c (F\<lparr>d_objects := x\<rparr>) = bundle_at c F"
  "bundle_at c (F\<lparr>d_manifest := y\<rparr>) = bundle_at c F"
  "bundle_at c (F\<lparr>d_prepared := z\<rparr>) = bundle_at c F"
  by (auto simp: bundle_at_def transaction_file_def fun_eq_iff)

lemma loadable_frame [simp]:
  "loadable c (F\<lparr>d_manifest := y\<rparr>) = loadable c F"
  "loadable c (F\<lparr>d_prepared := z\<rparr>) = loadable c F"
  by (auto simp: loadable_iff fun_eq_iff)

lemma pointers_frame [simp]:
  "manifest_of c (F\<lparr>d_objects := x\<rparr>) = manifest_of c F"
  "manifest_of c (F\<lparr>d_transactions := x\<rparr>) = manifest_of c F"
  "manifest_of c (F\<lparr>d_prepared := z\<rparr>) = manifest_of c F"
  "journal_of c (F\<lparr>d_objects := x\<rparr>) = journal_of c F"
  "journal_of c (F\<lparr>d_transactions := x\<rparr>) = journal_of c F"
  "journal_of c (F\<lparr>d_manifest := y\<rparr>) = journal_of c F"
  by (simp_all add: manifest_of_def journal_of_def)

lemma live_transactions_frame [simp]:
  "live_transactions c (F\<lparr>d_objects := x\<rparr>) = live_transactions c F"
  "live_transactions c (F\<lparr>d_transactions := x\<rparr>) = live_transactions c F"
  by (simp_all add: live_transactions_def named_transactions_def)

lemma loadable_put:
  "length x \<le> usize_max \<Longrightarrow> loadable c F t \<Longrightarrow>
   loadable c (F\<lparr>d_objects := AList.update (cd_sha256_hex c x) x (d_objects F)\<rparr>) t"
  by (auto simp: loadable_iff intro: objects_present_mono object_present_put)

lemma bundle_at_store:
  assumes "codec_ok c" "cd_bundle_to c (bundle_to_dto c b) = Some s"
  shows "bundle_at c (F\<lparr>d_transactions := AList.update (cd_sha256_hex c s) s (d_transactions F)\<rparr>) t =
    (if transaction_text t = cd_sha256_hex c s then Some b else bundle_at c F t)"
  using decode_bundle_to [OF assms] by (simp add: bundle_at_def transaction_file_def update_conv')

lemma loadable_remove_object:
  assumes "loadable c F t" "name \<notin> set (transaction_objects c F t)"
  shows "loadable c (F\<lparr>d_objects := AList.delete name (d_objects F)\<rparr>) t"
proof -
  from assms(1) obtain b where b: "bundle_at c F t = Some b" "objects_present c F b" by (auto simp: loadable_iff)
  have "objects_present c (F\<lparr>d_objects := AList.delete name (d_objects F)\<rparr>) b"
    using b(2)
  proof (rule objects_present_mono)
    fix i assume "object_present c F i" and i: "i \<in> set (bundle_objects b)"
    moreover have "name \<noteq> object_text i" using assms(2) b(1) i by (auto simp: transaction_objects_def)
    ultimately show "object_present c (F\<lparr>d_objects := AList.delete name (d_objects F)\<rparr>) i"
      by (simp add: object_present_def object_file_def delete_conv')
  qed
  then show ?thesis using b(1) by (simp add: loadable_iff)
qed

lemma loadable_remove_transaction:
  "loadable c F t \<Longrightarrow> name \<noteq> transaction_text t \<Longrightarrow>
   loadable c (F\<lparr>d_transactions := AList.delete name (d_transactions F)\<rparr>) t"
  by (simp add: loadable_iff bundle_at_def transaction_file_def delete_conv')

lemma list_all_live_iff:
  "list_all P (live_transactions c F) \<longleftrightarrow>
    (\<forall>m. manifest_of c F = Some m \<longrightarrow> P (cm_current m) \<and> (\<forall>t. cm_previous m = Some t \<longrightarrow> P t)) \<and>
    (\<forall>p. journal_of c F = Some p \<longrightarrow> P (pt_candidate p) \<and> (\<forall>t. pt_previous p = Some t \<longrightarrow> P t))"
  by (auto simp: live_transactions_def named_transactions_def split: option.splits)

lemma store_step_ok:
  assumes "store_step c F F'" "codec_ok c" "store_ok c F"
  shows "store_ok c F'"
  using assms(1)
proof cases
  case (put x)
  then show ?thesis using assms(3)
    by (auto simp: store_ok_def list_all_iff intro: loadable_put)
next
  case (store b s)
  have "loadable c F' t" if "loadable c F t" for t
    using that store bundle_at_store [OF assms(2) store(3), of F t] by (auto simp: loadable_iff)
  then show ?thesis using assms(3) store(1) by (auto simp: store_ok_def list_all_iff)
next
  case (journal p js)
  then have "journal_of c F' = Some p" using assms(2) by (simp add: journal_of_def codec_ok_def)
  then show ?thesis using journal assms(3) by (auto simp: store_ok_def list_all_live_iff)
next
  case (commit p js)
  then have "manifest_of c F' = Some \<lparr>cm_current = pt_candidate p, cm_previous = pt_previous p\<rparr>"
    using assms(2) by (simp add: manifest_of_def codec_ok_def)
  then show ?thesis using commit assms(3) by (auto simp: store_ok_def list_all_live_iff)
next
  case (clear p)
  then show ?thesis using assms(3) by (auto simp: store_ok_def list_all_live_iff journal_of_def)
next
  case (remove_object name)
  then show ?thesis using assms(3)
    by (auto simp: store_ok_def list_all_iff live_objects_def intro: loadable_remove_object)
next
  case (remove_transaction name)
  then show ?thesis using assms(3)
    by (auto simp: store_ok_def list_all_iff intro!: loadable_remove_transaction)
qed

lemma store_steps_ok: "(store_step c)\<^sup>*\<^sup>* F F' \<Longrightarrow> codec_ok c \<Longrightarrow> store_ok c F \<Longrightarrow> store_ok c F'"
  by (induction rule: rtranclp_induct) (auto intro: store_step_ok)

section \<open>Operations as paths of steps\<close>

lemma files_simps [simp]:
  "Files.truncate (d\<lparr>d_faults := x\<rparr>) = Files.truncate d"
  "files (d\<lparr>d_objects := a\<rparr>) = (files d)\<lparr>d_objects := a\<rparr>"
  "files (d\<lparr>d_transactions := a\<rparr>) = (files d)\<lparr>d_transactions := a\<rparr>"
  "files (d\<lparr>d_manifest := b\<rparr>) = (files d)\<lparr>d_manifest := b\<rparr>"
  "files (d\<lparr>d_prepared := b\<rparr>) = (files d)\<lparr>d_prepared := b\<rparr>"
  by (simp_all add: Files.defs)

lemma files_fields:
  "d_objects (files d) = d_objects d" "d_transactions (files d) = d_transactions d"
  "d_manifest (files d) = d_manifest d" "d_prepared (files d) = d_prepared d"
  by (simp_all add: Files.defs)

lemma files_readers:
  "object_file name (files d) = object_file name d" "transaction_file name (files d) = transaction_file name d"
  by (simp_all add: object_file_def transaction_file_def files_fields)

abbreviation at_files :: "Files \<Rightarrow> Disk \<Rightarrow> bool" where
  "at_files F d \<equiv> files d = F"

definition reads :: "('a \<Rightarrow> bool) \<Rightarrow> (IoKind \<Rightarrow> bool) \<Rightarrow> 'a io \<Rightarrow> Files \<Rightarrow> bool" where
  "reads P E m F \<longleftrightarrow> triple (at_files F) m
     (\<lambda>r d. files d = F \<and> (case r of Inl e \<Rightarrow> E e | Inr v \<Rightarrow> P v))"

lemma reads_ret: "(case r of Inl e \<Rightarrow> E e | Inr v \<Rightarrow> P v) \<Longrightarrow> reads P E (ret r) F"
  by (auto simp: reads_def intro: triple_ret)

lemma reads_bnd:
  assumes "reads P E m F" "\<And>v. P v \<Longrightarrow> reads Q E' (f (Inr v)) F" "\<And>e. E e \<Longrightarrow> reads Q E' (f (Inl e)) F"
  shows "reads Q E' (bnd m f) F"
  unfolding reads_def
proof (rule triple_bnd [OF assms(1) [unfolded reads_def]])
  fix r
  show "triple (\<lambda>d. files d = F \<and> (case r of Inl e \<Rightarrow> E e | Inr v \<Rightarrow> P v)) (f r)
      (\<lambda>r d. files d = F \<and> (case r of Inl e \<Rightarrow> E' e | Inr v \<Rightarrow> Q v))"
    using assms(2,3) by (cases r) (auto simp: reads_def intro: triple_assume)
qed

lemma reads_try_bnd:
  "reads P E m F \<Longrightarrow> (\<And>v. P v \<Longrightarrow> reads Q E (f v) F) \<Longrightarrow> reads Q E (try_bnd m f) F"
  unfolding try_bnd_def by (rule reads_bnd, assumption) (auto intro: reads_ret)

lemma reads_weaken: "reads P E m F \<Longrightarrow> (\<And>v. P v \<Longrightarrow> Q v) \<Longrightarrow> (\<And>e. E e \<Longrightarrow> E' e) \<Longrightarrow> reads Q E' m F"
  by (fastforce simp: reads_def triple_def split: sum.splits)

lemma reads_if: "(b \<Longrightarrow> reads P E m F) \<Longrightarrow> (\<not> b \<Longrightarrow> reads P E n F) \<Longrightarrow> reads P E (if b then m else n) F"
  by simp

lemma reads_sys: "reads (\<lambda>_. True) (\<lambda>e. e = IoOther) sys F"
  by (auto simp: reads_def triple_def sys_def split: list.splits)

lemma reads_sys_calls: "reads (\<lambda>_. True) (\<lambda>e. e = IoOther) (sys_calls n) F"
  by (induction n) (auto intro: reads_ret reads_try_bnd reads_sys)

lemma reads_fs_read:
  assumes "\<And>d. files d = F \<Longrightarrow> file d = v"
  shows "reads (\<lambda>x. v = Some x) (\<lambda>e. e = IoOther \<or> e = IoNotFound \<and> v = None) (fs_read file) F"
  unfolding fs_read_def
  by (rule reads_try_bnd [OF reads_weaken [OF reads_sys]])
    (auto simp: reads_def triple_def assms split: option.splits)

lemma reads_optional_json:
  assumes "\<And>d. files d = F \<Longrightarrow> file d = v"
  shows "reads (\<lambda>x. x = Option.bind v from \<and> (x = None \<longrightarrow> v = None)) (\<lambda>_. True) (read_optional_json file from) F"
  unfolding read_optional_json_def
  by (rule reads_bnd [OF reads_fs_read [OF assms]])
    (auto simp: assms result_simps intro!: reads_ret split: sum.splits)

lemma reads_regular_limited:
  assumes "\<And>d. files d = F \<Longrightarrow> file d = v"
  shows "reads (\<lambda>x. v = Some x) (\<lambda>e. e = IoNotFound \<longrightarrow> v = None) (read_regular_file_limited file limit) F"
  unfolding read_regular_file_limited_def
  by (rule reads_try_bnd [OF reads_weaken [OF reads_fs_read [OF assms]]], assumption, assumption, blast)
    (auto intro!: reads_try_bnd [OF reads_weaken [OF reads_sys_calls]] reads_try_bnd [OF reads_weaken [OF reads_sys]]
      reads_ret)

lemma reads_optional_regular_json:
  assumes "\<And>d. files d = F \<Longrightarrow> file d = v"
  shows "reads (\<lambda>x. x = Option.bind v from \<and> (x = None \<longrightarrow> v = None)) (\<lambda>_. True)
    (read_optional_regular_json file from limit) F"
  unfolding read_optional_regular_json_def
  by (rule reads_bnd [OF reads_regular_limited [OF assms]])
    (auto simp: assms result_simps intro!: reads_ret split: sum.splits)

lemma reads_hashed:
  assumes "\<And>d. files d = F \<Longrightarrow> file d = v"
  shows "reads (\<lambda>x. v = Some x \<and> cd_sha256_hex c x = expected) (\<lambda>_. True) (read_hashed_file c file expected) F"
  unfolding read_hashed_file_def
  by (rule reads_try_bnd [OF reads_weaken [OF reads_fs_read [OF assms]]]) (auto simp: assms intro!: reads_ret)

lemma reads_regular_hashed:
  assumes "\<And>d. files d = F \<Longrightarrow> file d = v"
  shows "reads (\<lambda>x. v = Some x \<and> cd_sha256_hex c x = expected) (\<lambda>_. True)
    (read_regular_hashed_file_limited c file expected limit) F"
  unfolding read_regular_hashed_file_limited_def
  by (rule reads_try_bnd [OF reads_weaken [OF reads_regular_limited [OF assms]]])
    (auto simp: assms intro!: reads_ret)

lemma file_at:
  "files d = F \<Longrightarrow> object_file name d = object_file name F"
  "files d = F \<Longrightarrow> transaction_file name d = transaction_file name F"
  "files d = F \<Longrightarrow> d_manifest d = d_manifest F"
  "files d = F \<Longrightarrow> d_prepared d = d_prepared F"
  by (auto simp: files_readers files_fields)

lemma reads_object_limited:
  "reads (\<lambda>x. object_file (object_text i) F = Some x \<and> cd_sha256_hex c x = object_text i \<and> length x \<le> limit)
     (\<lambda>_. True) (read_object_limited c i limit) F"
  unfolding read_object_limited_def
  by (rule reads_try_bnd [OF reads_weaken [OF reads_fs_read [OF file_at(1)]]], assumption, assumption, blast)
    (auto intro!: reads_try_bnd [OF reads_weaken [OF reads_sys]] reads_ret)

lemma reads_object: "reads (\<lambda>_. object_present c F i) (\<lambda>_. True) (read_object c i) F"
  unfolding read_object_def
  by (rule reads_weaken [OF reads_object_limited]) (auto simp: object_present_def)

lemma reads_verify: "reads (\<lambda>_. objects_present c F b) (\<lambda>_. True) (verify_bundle_objects c b) F"
  unfolding verify_bundle_objects_def objects_present_def bundle_objects_def
  by (rule reads_try_bnd [OF reads_object] | rule reads_ret | simp)+

lemma reads_load: "reads (\<lambda>b. bundle_at c F t = Some b) (\<lambda>_. True) (load_transaction c t) F"
  unfolding load_transaction_def
  by (rule reads_try_bnd [OF reads_hashed [OF file_at(2)]], assumption)
    (auto simp: bundle_at_def intro!: reads_ret split: sum.splits)

lemma reads_manifest:
  "reads (\<lambda>x. x = manifest_of c F \<and> (x = None \<longrightarrow> d_manifest F = None)) (\<lambda>_. True) (read_manifest c) F"
  unfolding read_manifest_def manifest_of_def by (rule reads_optional_json) (rule file_at)

lemma reads_journal:
  "reads (\<lambda>x. x = journal_of c F \<and> (x = None \<longrightarrow> d_prepared F = None)) (\<lambda>_. True) (read_journal c) F"
  unfolding read_journal_def journal_of_def by (rule reads_optional_json) (rule file_at)

lemma reads_recover:
  "reads (\<lambda>s. rv_committed s = manifest_of c F \<and> rv_prepared s = journal_of c F \<and>
      (rv_committed s = None \<longrightarrow> d_manifest F = None) \<and> (rv_prepared s = None \<longrightarrow> d_prepared F = None))
     (\<lambda>_. True) (recover c) F"
  unfolding recover_def
  by (rule reads_try_bnd [OF reads_manifest], rule reads_try_bnd [OF reads_journal]) (auto intro: reads_ret)

definition path :: "Codec \<Rightarrow> ('a \<Rightarrow> Files \<Rightarrow> bool) \<Rightarrow> (Disk, 'a) prog \<Rightarrow> Files \<Rightarrow> bool" where
  "path c Q m F \<longleftrightarrow> triple (at_files F) m (\<lambda>r d. (store_step c)\<^sup>*\<^sup>* F (files d) \<and> Q r (files d))"

lemma path_ret: "Q r F \<Longrightarrow> path c Q (ret r) F"
  by (auto simp: path_def intro: triple_ret)

lemma path_weaken: "path c R m F \<Longrightarrow> (\<And>r F'. R r F' \<Longrightarrow> Q r F') \<Longrightarrow> path c Q m F"
  by (auto simp: path_def triple_def)

lemma path_bnd:
  assumes "path c R m F" "\<And>r F'. R r F' \<Longrightarrow> path c Q (f r) F'"
  shows "path c Q (bnd m f) F"
  unfolding path_def
proof (rule triple_bnd [OF assms(1) [unfolded path_def]], rule triple_pre)
  fix r d
  assume "(store_step c)\<^sup>*\<^sup>* F (files d) \<and> R r (files d)"
  then show "triple (\<lambda>v. v = d) (f r) (\<lambda>r d. (store_step c)\<^sup>*\<^sup>* F (files d) \<and> Q r (files d))"
    using assms(2) by (fastforce simp: path_def triple_def intro: rtranclp_trans)
qed

lemma path_try_bnd:
  assumes "path c R m F" "\<And>e F'. R (Inl e) F' \<Longrightarrow> Q (Inl e) F'" "\<And>v F'. R (Inr v) F' \<Longrightarrow> path c Q (f v) F'"
  shows "path c Q (try_bnd m f) F"
  unfolding try_bnd_def using assms by (intro path_bnd [OF assms(1)]) (auto intro: path_ret split: sum.splits)

lemma path_reads: "reads P E m F \<Longrightarrow> path c (\<lambda>r F'. F' = F \<and> (case r of Inl e \<Rightarrow> E e | Inr v \<Rightarrow> P v)) m F"
  by (auto simp: path_def reads_def triple_def)

lemma path_read_then:
  assumes "reads P E m F" "\<And>e. E e \<Longrightarrow> Q (Inl e) F" "\<And>v. P v \<Longrightarrow> path c Q (f v) F"
  shows "path c Q (try_bnd m f) F"
  by (rule path_try_bnd [OF path_reads [OF assms(1)]]) (auto simp: assms)

lemma path_change_then:
  assumes "\<And>d. files d = F \<Longrightarrow> files (put d) = F'" "store_step c F F'" "path c Q (f ()) F'"
  shows "path c Q (try_bnd (change put) f) F"
  by (rule path_try_bnd [of _ "\<lambda>r G. r = Ok () \<and> G = F'"])
    (use assms in \<open>auto simp: path_def [of _ "\<lambda>r G. r = Ok () \<and> G = F'"] triple_def change_def\<close>)

lemma path_end: "reads (\<lambda>_. True) E m F \<Longrightarrow> (\<And>r. Q r F) \<Longrightarrow> path c Q m F"
  by (rule path_weaken [OF path_reads]) auto

lemma reads_write_temporary: "reads (\<lambda>_. True) (\<lambda>_. True) (write_temporary n) F"
  unfolding write_temporary_def
  by (rule reads_try_bnd [OF reads_weaken [OF reads_sys_calls]], simp, simp,
      rule reads_bnd [OF reads_sys_calls])
    (auto intro!: reads_ret reads_bnd [OF reads_sys])

lemma reads_sync: "reads (\<lambda>_. True) (\<lambda>_. True) sync_directory F"
  unfolding sync_directory_def by (rule reads_weaken [OF reads_sys_calls]) auto

lemma path_sync: "(\<And>e. Q (Inl e) F) \<Longrightarrow> Q (Inr ()) F \<Longrightarrow> path c Q sync_directory F"
  by (rule path_end [OF reads_sync]) (metis obj_sumE old.unit.exhaust)

lemma path_replace:
  assumes "\<And>d. files d = F \<Longrightarrow> files (put d) = F'" "store_step c F F'"
    "\<And>e. Q (Inl e) F" "\<And>e. Q (Inl e) F'" "Q (Inr ()) F'"
  shows "path c Q (replace_private_file put) F"
  unfolding replace_private_file_def
  by (rule path_read_then [OF reads_write_temporary], rule assms(3), rule path_read_then [OF reads_sys], rule assms(3),
      rule path_change_then [OF assms(1,2)], assumption, rule path_sync, rule assms(4), rule assms(5))

lemma path_put_immutable:
  assumes "\<And>d. files d = F \<Longrightarrow> files (put d) = F'" "store_step c F F'"
    "\<And>d. files d = F \<Longrightarrow> file d = v" "v = Some content \<Longrightarrow> F' = F"
    "\<And>e. Q (Inl e) F" "\<And>e. Q (Inl e) F'" "Q (Inr ()) F'"
  shows "path c Q (put_immutable file put content) F"
proof -
  have writing: "path c Q (try_bnd (write_temporary 1) (\<lambda>_.
        bnd sys (\<lambda>renamed. case renamed of
            Inl e \<Rightarrow> bnd sys (\<lambda>_. ret (Err e))
          | Inr _ \<Rightarrow> try_bnd (change put) (\<lambda>_. sync_directory)))) F"
  proof (rule path_read_then [OF reads_write_temporary], rule assms(5), rule path_bnd [OF path_reads [OF reads_sys]])
    fix r :: "IoKind + unit" and G
    assume "G = F \<and> (case r of Inl e \<Rightarrow> e = IoOther | Inr v \<Rightarrow> True)"
    then show "path c Q (case r of Inl e \<Rightarrow> bnd sys (\<lambda>_. ret (Err e)) | Inr _ \<Rightarrow> try_bnd (change put) (\<lambda>_. sync_directory)) G"
      using assms by (cases r) (auto intro!: path_change_then [OF assms(1,2)] path_sync path_bnd [OF path_reads [OF reads_sys]] path_ret)
  qed
  show ?thesis
    unfolding put_immutable_def Let_def
    by (rule path_bnd [OF path_reads [OF reads_fs_read [OF assms(3)]]], assumption)
      (use assms(4,5,7) writing in \<open>auto intro!: path_ret split: sum.splits\<close>)
qed

lemma update_same: "map_of al k = Some v \<Longrightarrow> AList.update k v al = al"
  by (induction al) auto

section \<open>The operations\<close>

lemma path_put_object:
  assumes "length x \<le> usize_max"
  shows "path c (\<lambda>r F'. let G = F\<lparr>d_objects := AList.update (cd_sha256_hex c x) x (d_objects F)\<rparr> in
      case r of Inl _ \<Rightarrow> F' = F \<or> F' = G | Inr i \<Rightarrow> F' = G \<and> i = ObjectId (cd_sha256_hex c x)) (put_object c x) F"
  unfolding put_object_def Let_def
  by (rule path_try_bnd [OF path_put_immutable [of F _ "F\<lparr>d_objects := AList.update (cd_sha256_hex c x) x (d_objects F)\<rparr>" c
        _ "object_file (cd_sha256_hex c x) F" _ "\<lambda>r F'. let G = F\<lparr>d_objects := AList.update (cd_sha256_hex c x) x (d_objects F)\<rparr> in
      case r of Inl _ \<Rightarrow> F' = F \<or> F' = G | Inr i \<Rightarrow> F' = G"]])
    (auto simp: files_fields update_same object_file_def assms Let_def intro: store_step.put path_ret)

definition prepared_as :: "Codec \<Rightarrow> TransactionBundle \<Rightarrow> Files \<Rightarrow> string \<Rightarrow> PreparedTransaction \<Rightarrow> Files \<Rightarrow> bool" where
  "prepared_as c b F s p F' \<longleftrightarrow>
    p = \<lparr>pt_candidate = TransactionId (cd_sha256_hex c s), pt_previous = map_option cm_current (manifest_of c F)\<rparr> \<and>
    d_prepared F = None \<and> objects_present c F b \<and>
    (\<exists>js. cd_prepared_to c p = Some js \<and>
      F' = F\<lparr>d_transactions := AList.update (cd_sha256_hex c s) s (d_transactions F), d_prepared := Some js\<rparr>)"

definition prepare_outcome :: "Codec \<Rightarrow> TransactionBundle \<Rightarrow> Files \<Rightarrow> IoKind + PreparedTransaction \<Rightarrow> Files \<Rightarrow> bool" where
  "prepare_outcome c b F r F' \<longleftrightarrow> (case r of
       Inl _ \<Rightarrow> F' = F \<or> (\<exists>s. cd_bundle_to c (bundle_to_dto c b) = Some s \<and>
         (F' = F\<lparr>d_transactions := AList.update (cd_sha256_hex c s) s (d_transactions F)\<rparr> \<or> (\<exists>p. prepared_as c b F s p F')))
     | Inr p \<Rightarrow> \<exists>s. cd_bundle_to c (bundle_to_dto c b) = Some s \<and> prepared_as c b F s p F')"

lemma path_write_journal:
  assumes "codec_ok c" "cd_bundle_to c (bundle_to_dto c b) = Some s" "d_prepared F = None" "objects_present c F b"
    "G = F\<lparr>d_transactions := AList.update (cd_sha256_hex c s) s (d_transactions F)\<rparr>"
  shows "path c (prepare_outcome c b F) (write_journal c (cd_sha256_hex c s)) G"
  unfolding write_journal_def Let_def
proof (rule path_read_then [OF reads_manifest])
  show "prepare_outcome c b F (Inl e) G" for e using assms by (auto simp: prepare_outcome_def)
next
  fix m assume m: "m = manifest_of c G \<and> (m = None \<longrightarrow> d_manifest G = None)"
  define p where "p = \<lparr>pt_candidate = TransactionId (cd_sha256_hex c s), pt_previous = map_option cm_current m\<rparr>"
  have mf: "m = manifest_of c F" using m assms(5) by simp
  have load: "loadable c G (pt_candidate p)"
    using bundle_at_store [OF assms(1,2), of F] assms(4,5) by (simp add: p_def loadable_iff)
  have "path c (prepare_outcome c b F) (case cd_prepared_to c p of None \<Rightarrow> ret (Err IoInvalidData)
      | Some js \<Rightarrow> try_bnd (replace_private_file (\<lambda>d. d\<lparr>d_prepared := Some js\<rparr>)) (\<lambda>_. ret (Ok p))) G"
  proof (cases "cd_prepared_to c p")
    case None
    then show ?thesis using assms by (auto simp: prepare_outcome_def intro: path_ret)
  next
    case (Some js)
    have as: "prepared_as c b F s p (G\<lparr>d_prepared := Some js\<rparr>)"
      using assms Some mf by (auto simp: prepared_as_def p_def)
    have "store_step c G (G\<lparr>d_prepared := Some js\<rparr>)"
      by (rule store_step.journal [of G c p]) (use load m assms(3,5) Some in \<open>auto simp: p_def\<close>)
    then have "path c (\<lambda>r F'. case r of Inl _ \<Rightarrow> F' = G \<or> F' = G\<lparr>d_prepared := Some js\<rparr> | Inr _ \<Rightarrow> F' = G\<lparr>d_prepared := Some js\<rparr>)
        (replace_private_file (\<lambda>d. d\<lparr>d_prepared := Some js\<rparr>)) G"
      by (rule path_replace [rotated]) auto
    then show ?thesis unfolding Some option.case
      by (rule path_try_bnd) (use as assms in \<open>auto simp: prepare_outcome_def intro!: path_ret\<close>)
  qed
  then show "path c (prepare_outcome c b F)
        (case cd_prepared_to c \<lparr>pt_candidate = TransactionId (cd_sha256_hex c s), pt_previous = map_option cm_current m\<rparr>
         of None \<Rightarrow> ret (Err IoInvalidData)
         | Some js \<Rightarrow> try_bnd (replace_private_file (d_prepared_update (\<lambda>_. Some js)))
              (\<lambda>_. ret (Ok \<lparr>pt_candidate = TransactionId (cd_sha256_hex c s), pt_previous = map_option cm_current m\<rparr>))) G"
    by (simp only: p_def)
qed

lemma path_prepare:
  assumes "codec_ok c"
  shows "path c (prepare_outcome c b F) (prepare c b) F"
proof -
  have same: "prepare_outcome c b F (Inl e) F" for e by (simp add: prepare_outcome_def)
  have "path c (prepare_outcome c b F) (try_bnd (put_immutable (transaction_file (cd_sha256_hex c s))
              (\<lambda>d. d\<lparr>d_transactions := AList.update (cd_sha256_hex c s) s (d_transactions d)\<rparr>) s) (\<lambda>_.
          write_journal c (cd_sha256_hex c s))) F"
    if s: "cd_bundle_to c (bundle_to_dto c b) = Some s" and F: "d_prepared F = None" "objects_present c F b" for s
  proof -
    define G where "G = F\<lparr>d_transactions := AList.update (cd_sha256_hex c s) s (d_transactions F)\<rparr>"
    have "path c (\<lambda>r F'. case r of Inl _ \<Rightarrow> F' = F \<or> F' = G | Inr _ \<Rightarrow> F' = G)
       (put_immutable (transaction_file (cd_sha256_hex c s))
          (\<lambda>d. d\<lparr>d_transactions := AList.update (cd_sha256_hex c s) s (d_transactions d)\<rparr>) s) F"
      by (rule path_put_immutable [of F _ G c _ "transaction_file (cd_sha256_hex c s) F"])
        (auto simp: G_def files_fields update_same transaction_file_def intro: store_step.store [OF F(2) s])
    then show ?thesis
      by (rule path_try_bnd) (use s F path_write_journal [OF assms s F G_def] in \<open>auto simp: prepare_outcome_def G_def\<close>)
  qed
  then show ?thesis
    unfolding prepare_def
    by (auto simp: Let_def same intro!: path_ret path_read_then [OF reads_journal] path_read_then [OF reads_verify] split: option.splits)
qed

definition manifest_text :: "Codec \<Rightarrow> PreparedTransaction \<Rightarrow> string option" where
  "manifest_text c p = cd_manifest_to c \<lparr>cm_current = pt_candidate p, cm_previous = pt_previous p\<rparr>"

lemma path_commit:
  "path c (\<lambda>r F'. F' = F \<and> \<not> is_ok r \<or>
      (\<exists>js. manifest_text c p = Some js \<and> F' = F\<lparr>d_manifest := Some js\<rparr> \<and> journal_of c F = Some p \<and>
        map_option cm_current (manifest_of c F) = pt_previous p \<and> loadable c F (pt_candidate p)))
    (commit_prepared c p) F" (is "path c ?Q _ F")
proof -
  have "path c ?Q (case cd_manifest_to c \<lparr>cm_current = pt_candidate p, cm_previous = pt_previous p\<rparr> of
          None \<Rightarrow> ret (Err IoInvalidData)
        | Some js \<Rightarrow> replace_private_file (\<lambda>d. d\<lparr>d_manifest := Some js\<rparr>)) F"
    if "journal_of c F = Some p" "map_option cm_current (manifest_of c F) = pt_previous p"
      "bundle_at c F (pt_candidate p) = Some b" "objects_present c F b" for b
    using that
    by (auto simp: manifest_text_def loadable_iff intro!: path_ret path_replace store_step.commit split: option.splits)
  then show ?thesis
    unfolding commit_prepared_def
    by (auto intro!: path_ret path_read_then [OF reads_journal] path_read_then [OF reads_manifest]
        path_read_then [OF reads_load] path_read_then [OF reads_verify])
qed

lemma path_clear:
  "path c (\<lambda>r F'. F' = F \<and> \<not> is_ok r \<or> journal_of c F = Some p \<and> F' = F\<lparr>d_prepared := None\<rparr>) (clear_prepared c p) F"
  unfolding clear_prepared_def
  by (auto intro!: path_ret path_read_then [OF reads_journal] path_read_then [OF reads_sys]
      path_change_then [where F' = "F\<lparr>d_prepared := None\<rparr>"] store_step.clear path_sync)

section \<open>Pruning\<close>

lemma visit_values_collects:
  "visit_values pending retained = Ok r \<Longrightarrow>
   set r = set retained \<union> {s. s \<in> (\<Union>v\<in>set pending. set (json_strings v)) \<and> is_lower_sha256_hex s}"
proof (induction pending retained rule: visit_values.induct)
  case (4 v pending retained)
  show ?case
  proof (cases "is_lower_sha256_hex v")
    case True
    with 4 have "set r = set (bs_insert v retained) \<union>
        {s. s \<in> (\<Union>v\<in>set pending. set (json_strings v)) \<and> is_lower_sha256_hex s}"
      by (simp add: Let_def ObjectId_parse_def split: if_splits)
    then show ?thesis using True by (auto simp: btree_simps)
  next
    case False
    with 4 have "set r = set retained \<union> {s. s \<in> (\<Union>v\<in>set pending. set (json_strings v)) \<and> is_lower_sha256_hex s}"
      by (simp add: ObjectId_parse_def)
    then show ?thesis using False by auto
  qed
qed auto

lemma collect_references:
  assumes "collect_json_object_references c content retained = Ok r"
  shows "set r = set retained \<union> set (state_references c content)"
proof (cases "find (\<lambda>ch. \<not> is_ascii_whitespace ch) content")
  case None
  then show ?thesis using assms by (simp add: collect_json_object_references_def state_references_def)
next
  case (Some ch)
  then show ?thesis using assms
    by (cases "cd_value_from c content")
      (auto simp: collect_json_object_references_def state_references_def split: if_splits dest!: visit_values_collects)
qed

lemma set_retain_bundle_objects:
  "set (retain_bundle_objects b retained) = set retained \<union> object_text ` set (bundle_objects b)"
  by (auto simp: retain_bundle_objects_def bundle_objects_def btree_simps)

lemma reads_result: "(\<And>v. r = Inr v \<Longrightarrow> P v) \<Longrightarrow> reads P (\<lambda>_. True) (ret r) F"
  by (rule reads_ret) (auto split: sum.splits)

lemma reads_retain_objects:
  "reads (\<lambda>objs. set objs = set retained \<union> (\<Union>n\<in>set names. set (transaction_objects c F (TransactionId n)))) (\<lambda>_. True)
     (retain_objects c names retained) F"
proof (induction names arbitrary: retained)
  case Nil
  then show ?case by (auto intro: reads_ret)
next
  case (Cons name names)
  have "reads (\<lambda>objs. set objs = set retained \<union> (\<Union>n\<in>set (name # names). set (transaction_objects c F (TransactionId n)))) (\<lambda>_. True)
      (try_bnd (read_regular_hashed_file_limited c (object_file (object_text (tb_supervisor_state b)))
        (object_text (tb_supervisor_state b)) SUPERVISOR_STATE_MAX_BYTES) (\<lambda>state.
       try_bnd (ret (collect_json_object_references c state (retain_bundle_objects b retained)))
         (retain_objects c names))) F"
    if b: "bundle_at c F (TransactionId name) = Some b" for b
  proof (rule reads_try_bnd [OF reads_regular_hashed [OF file_at(1)]], assumption)
    fix state assume "object_file (object_text (tb_supervisor_state b)) F = Some state \<and>
        cd_sha256_hex c state = object_text (tb_supervisor_state b)"
    then have "set (transaction_objects c F (TransactionId name)) =
        object_text ` set (bundle_objects b) \<union> set (state_references c state)"
      using b by (simp add: transaction_objects_def)
    then show "reads (\<lambda>objs. set objs = set retained \<union> (\<Union>n\<in>set (name # names). set (transaction_objects c F (TransactionId n)))) (\<lambda>_. True)
      (try_bnd (ret (collect_json_object_references c state (retain_bundle_objects b retained))) (retain_objects c names)) F"
      by (intro reads_try_bnd [OF reads_result [of _ "\<lambda>r. set r = set retained \<union> set (transaction_objects c F (TransactionId name))"]]
            reads_weaken [OF Cons.IH])
        (auto dest: collect_references simp: set_retain_bundle_objects)
  qed
  note rest = this
  have load: "reads (\<lambda>objs. set objs = set retained \<union> (\<Union>n\<in>set (name # names). set (transaction_objects c F (TransactionId n)))) (\<lambda>_. True)
     (try_bnd (ret (decode_bundle c content)) (\<lambda>b.
       try_bnd (read_regular_hashed_file_limited c (object_file (object_text (tb_supervisor_state b)))
        (object_text (tb_supervisor_state b)) SUPERVISOR_STATE_MAX_BYTES) (\<lambda>state.
       try_bnd (ret (collect_json_object_references c state (retain_bundle_objects b retained)))
         (retain_objects c names)))) F"
    if "transaction_file name F = Some content \<and> cd_sha256_hex c content = name" for content
    by (rule reads_try_bnd [OF reads_result [of _ "\<lambda>b. bundle_at c F (TransactionId name) = Some b"]],
        use that in \<open>simp add: bundle_at_def\<close>, rule rest)
  show ?case
    unfolding retain_objects.simps
  proof (rule reads_try_bnd [OF reads_result [of _ "\<lambda>i. i = TransactionId name"]])
    show "TransactionId_parse name = Ok v \<Longrightarrow> v = TransactionId name" for v
      by (auto simp: TransactionId_parse_def validate_digest_def split: if_splits)
  qed (auto intro!: reads_try_bnd [OF reads_regular_hashed [OF file_at(2)]] load [simplified])
qed

lemma live_transactions_names:
  "set (retained_transactions (manifest_of c F) (journal_of c F)) = transaction_text ` set (live_transactions c F)"
  by (auto simp: live_transactions_def named_transactions_def retained_transactions_def retain_optional_def retain_transaction_def btree_simps
      Let_def split: option.splits)

lemma reads_retained:
  "reads (\<lambda>(ts, objs). set ts = transaction_text ` set (live_transactions c F) \<and> set objs = set (live_objects c F))
     (\<lambda>_. True) (retained_content c) F"
proof -
  have objs: "set (live_objects c F) =
      (\<Union>n\<in>transaction_text ` set (live_transactions c F). set (transaction_objects c F (TransactionId n)))"
    by (simp add: live_objects_def)
  show ?thesis
    unfolding retained_content_def
    by (rule reads_try_bnd [OF reads_optional_regular_json [OF file_at(3)]], assumption,
        rule reads_try_bnd [OF reads_optional_regular_json [OF file_at(4)]], assumption,
        unfold Let_def, rule reads_try_bnd [OF reads_retain_objects], rule reads_ret)
      (simp add: objs live_transactions_names flip: manifest_of_def journal_of_def)
qed

definition removable :: "Codec \<Rightarrow> Files \<Rightarrow> PruneEntryKind \<times> string \<Rightarrow> bool" where
  "removable c F = (\<lambda>(kind, name). case kind of
      PruneObject \<Rightarrow> name \<notin> set (live_objects c F)
    | PruneTransaction \<Rightarrow> name \<notin> transaction_text ` set (live_transactions c F))"

lemma reads_prune_scan:
  assumes "\<And>name. name \<notin> set retained \<Longrightarrow> P (kind, name)"
  shows "list_all P candidates \<Longrightarrow> length candidates \<le> PERSISTENCE_PRUNE_REMOVAL_LIMIT \<Longrightarrow>
    reads (\<lambda>(r', cs). list_all P cs \<and> length cs \<le> PERSISTENCE_PRUNE_REMOVAL_LIMIT \<and>
        pp_removed_objects r' = pp_removed_objects r \<and> pp_removed_transactions r' = pp_removed_transactions r)
      (\<lambda>_. True) (prune_scan retained kind names (r, candidates)) F"
proof (induction names arbitrary: r candidates)
  case Nil
  then show ?case by (auto intro: reads_ret)
next
  case (Cons name names)
  have step: "reads (\<lambda>(r', cs). list_all P cs \<and> length cs \<le> PERSISTENCE_PRUNE_REMOVAL_LIMIT \<and>
        pp_removed_objects r' = pp_removed_objects r \<and> pp_removed_transactions r' = pp_removed_transactions r)
      (\<lambda>_. True) (prune_scan retained kind names (r0, cs)) F"
    if "list_all P cs" "length cs \<le> PERSISTENCE_PRUNE_REMOVAL_LIMIT"
      "pp_removed_objects r0 = pp_removed_objects r" "pp_removed_transactions r0 = pp_removed_transactions r" for r0 cs
    using Cons.IH [OF that(1,2), of r0] that(3,4) by simp
  show ?case
    unfolding prune_scan.simps Let_def
    using Cons.prems assms
    by (auto intro!: reads_if reads_ret reads_try_bnd [OF reads_weaken [OF reads_sys]] step)
qed

definition prune_kept :: "Codec \<Rightarrow> Files \<Rightarrow> Files \<Rightarrow> bool" where
  "prune_kept c F F' \<longleftrightarrow>
    d_manifest F' = d_manifest F \<and> d_prepared F' = d_prepared F \<and>
    live_transactions c F' = live_transactions c F \<and> live_objects c F' = live_objects c F \<and>
    (\<forall>name. name \<in> set (live_objects c F) \<longrightarrow> object_file name F' = object_file name F) \<and>
    (\<forall>t. t \<in> set (live_transactions c F) \<longrightarrow>
      transaction_file (transaction_text t) F' = transaction_file (transaction_text t) F)"

lemma prune_kept_refl: "prune_kept c F F"
  by (simp add: prune_kept_def)

lemma prune_kept_trans: "prune_kept c F G \<Longrightarrow> prune_kept c G H \<Longrightarrow> prune_kept c F H"
  by (simp add: prune_kept_def)

lemma live_objects_cong:
  assumes "live_transactions c F' = live_transactions c F"
    "\<And>t. t \<in> set (live_transactions c F) \<Longrightarrow> transaction_file (transaction_text t) F' = transaction_file (transaction_text t) F"
    "\<And>name. name \<in> set (live_objects c F) \<Longrightarrow> object_file name F' = object_file name F"
  shows "live_objects c F' = live_objects c F"
proof -
  have "transaction_objects c F' t = transaction_objects c F t" if t: "t \<in> set (live_transactions c F)" for t
  proof -
    have at: "bundle_at c F' t = bundle_at c F t" using assms(2) [OF t] by (simp add: bundle_at_def)
    have "object_file (object_text (tb_supervisor_state b)) F' = object_file (object_text (tb_supervisor_state b)) F"
      if "bundle_at c F t = Some b" for b
      using t that by (intro assms(3)) (auto simp: live_objects_def transaction_objects_def bundle_objects_def intro!: bexI [of _ t])
    then show ?thesis by (auto simp: transaction_objects_def at split: option.splits)
  qed
  then show ?thesis by (simp add: live_objects_def assms(1) cong: map_cong)
qed

lemma prune_kept_object:
  "name \<notin> set (live_objects c F) \<Longrightarrow> prune_kept c F (F\<lparr>d_objects := AList.delete name (d_objects F)\<rparr>)"
  unfolding prune_kept_def
  by (auto simp: object_file_def transaction_file_def delete_conv' intro!: live_objects_cong)

lemma prune_kept_transaction:
  "name \<notin> transaction_text ` set (live_transactions c F) \<Longrightarrow>
   prune_kept c F (F\<lparr>d_transactions := AList.delete name (d_transactions F)\<rparr>)"
  unfolding prune_kept_def
  by (auto simp: object_file_def transaction_file_def delete_conv' intro!: live_objects_cong)

lemma removable_kept: "prune_kept c F F' \<Longrightarrow> removable c F' = removable c F"
  unfolding removable_def prune_kept_def by (elim conjE) (simp only:)

text \<open>At most one file goes per candidate.\<close>

definition removed_total :: "PersistencePruneResult \<Rightarrow> nat" where
  "removed_total r = pp_removed_objects r + pp_removed_transactions r"

definition prune_outcome ::
  "Codec \<Rightarrow> Files \<Rightarrow> nat \<Rightarrow> IoKind + PersistencePruneResult \<Rightarrow> Files \<Rightarrow> bool" where
  "prune_outcome c F n r F' \<longleftrightarrow> prune_kept c F F' \<and> (case r of Inl _ \<Rightarrow> True | Inr v \<Rightarrow> removed_total v \<le> n)"

lemma prune_outcome_trans:
  "prune_kept c F G \<Longrightarrow> prune_outcome c G n r H \<Longrightarrow> n \<le> m \<Longrightarrow> prune_outcome c F m r H"
  by (auto simp: prune_outcome_def split: sum.splits intro: prune_kept_trans)

lemma prune_outcome_err: "prune_outcome c F n (Inl e) F"
  by (simp add: prune_outcome_def prune_kept_refl)

lemma path_remove_one:
  assumes "\<And>d. files d = F \<Longrightarrow> file d = v" "\<And>d. files d = F \<Longrightarrow> files (put d) = G" "store_step c F G"
    "path c (prune_outcome c F n) skip F" "path c (prune_outcome c F n) drop_one G"
  shows "path c (prune_outcome c F n) (bnd (fs_read file) (\<lambda>metadata. case metadata of
        Inl e \<Rightarrow> if e = IoNotFound then skip else ret (Err e)
      | Inr _ \<Rightarrow> try_bnd sys (\<lambda>_. try_bnd (change put) (\<lambda>_. drop_one)))) F"
  by (rule path_bnd [OF path_reads [OF reads_fs_read [OF assms(1)]]], assumption)
    (use assms(4,5) in \<open>auto intro!: path_ret path_read_then [OF reads_sys] path_change_then [OF assms(2,3)] prune_outcome_err
       split: sum.splits\<close>)

lemma path_prune_remove:
  "list_all (removable c F) candidates \<Longrightarrow>
   path c (prune_outcome c F (removed_total r + length candidates)) (prune_remove candidates r) F"
proof (induction candidates r arbitrary: F rule: prune_remove.induct)
  case (1 r)
  then show ?case by (auto simp: prune_outcome_def prune_kept_refl intro: path_ret)
next
  case (2 name candidates r)
  define G where "G = F\<lparr>d_objects := AList.delete name (d_objects F)\<rparr>"
  have out: "name \<notin> set (live_objects c F)" using 2 by (simp add: removable_def)
  have kept: "prune_kept c F G" unfolding G_def using out by (rule prune_kept_object)
  show ?case
    unfolding prune_remove.simps
  proof (rule path_remove_one [OF file_at(1), where G = G])
    show "store_step c F G" unfolding G_def using out by (rule store_step.remove_object)
    show "path c (prune_outcome c F (removed_total r + length ((PruneObject, name) # candidates))) (prune_remove candidates r) F"
      by (rule path_weaken [OF 2(1)]) (use 2 in \<open>auto intro: prune_outcome_trans [OF prune_kept_refl]\<close>)
    show "path c (prune_outcome c F (removed_total r + length ((PruneObject, name) # candidates)))
        (prune_remove candidates (r\<lparr>pp_removed_objects := pp_removed_objects r + 1\<rparr>)) G"
      by (rule path_weaken [OF 2(2)])
        (use 2 in \<open>auto simp: removable_kept [OF kept] removed_total_def intro: prune_outcome_trans [OF kept]\<close>)
  qed (auto simp: G_def files_fields)
next
  case (3 name candidates r)
  define G where "G = F\<lparr>d_transactions := AList.delete name (d_transactions F)\<rparr>"
  have out: "name \<notin> transaction_text ` set (live_transactions c F)" using 3 by (simp add: removable_def)
  have kept: "prune_kept c F G" unfolding G_def using out by (rule prune_kept_transaction)
  show ?case
    unfolding prune_remove.simps
  proof (rule path_remove_one [OF file_at(2), where G = G])
    show "store_step c F G" unfolding G_def using out by (rule store_step.remove_transaction)
    show "path c (prune_outcome c F (removed_total r + length ((PruneTransaction, name) # candidates))) (prune_remove candidates r) F"
      by (rule path_weaken [OF 3(1)]) (use 3 in \<open>auto intro: prune_outcome_trans [OF prune_kept_refl]\<close>)
    show "path c (prune_outcome c F (removed_total r + length ((PruneTransaction, name) # candidates)))
        (prune_remove candidates (r\<lparr>pp_removed_transactions := pp_removed_transactions r + 1\<rparr>)) G"
      by (rule path_weaken [OF 3(2)])
        (use 3 in \<open>auto simp: removable_kept [OF kept] removed_total_def intro: prune_outcome_trans [OF kept]\<close>)
  qed (auto simp: G_def files_fields)
qed

definition scanned_ok :: "Codec \<Rightarrow> Files \<Rightarrow> prune_acc \<Rightarrow> bool" where
  "scanned_ok c F = (\<lambda>(r, cs). list_all (removable c F) cs \<and> length cs \<le> PERSISTENCE_PRUNE_REMOVAL_LIMIT \<and> removed_total r = 0)"

lemma reads_collect:
  assumes "\<And>name. name \<notin> set retained \<Longrightarrow> removable c F (kind, name)" "scanned_ok c F acc"
  shows "reads (scanned_ok c F) (\<lambda>_. True) (collect_prune_candidates directory retained kind acc) F"
  unfolding collect_prune_candidates_def
proof (rule reads_try_bnd [OF reads_weaken [OF reads_sys]], simp, simp)
  obtain r cs where acc: "acc = (r, cs)" by (cases acc)
  have "reads (scanned_ok c F) (\<lambda>_. True) (prune_scan retained kind names acc) F" for names
    unfolding acc
    by (rule reads_weaken [OF reads_prune_scan [of retained "removable c F" kind]])
      (use assms acc in \<open>auto simp: scanned_ok_def removed_total_def\<close>)
  then show "reads (scanned_ok c F) (\<lambda>_. True) (\<lambda>d. prune_scan retained kind (map fst (directory d)) acc d) F"
    by (simp add: reads_def triple_def)
qed

lemma path_sync_if:
  "path c Q (f ()) F \<Longrightarrow> (\<And>e. Q (Inl e) F) \<Longrightarrow> path c Q (try_bnd (if b then sync_directory else ret (Ok ())) f) F"
  by (rule path_read_then [of "\<lambda>_. True" "\<lambda>_. True"]) (auto intro: reads_sync reads_ret)

lemma path_prune: "path c (prune_outcome c F PERSISTENCE_PRUNE_REMOVAL_LIMIT) (prune_unreachable c) F"
  unfolding prune_unreachable_def
proof (rule path_read_then [OF reads_retained], rule prune_outcome_err, clarify, unfold Let_def)
  fix ts objs
  assume ts: "set ts = transaction_text ` set (live_transactions c F)" and objs: "set objs = set (live_objects c F)"
  have finish: "path c (prune_outcome c F PERSISTENCE_PRUNE_REMOVAL_LIMIT)
      (try_bnd (prune_remove cs r) (\<lambda>r.
       try_bnd (if pp_removed_objects r > 0 then sync_directory else ret (Ok ())) (\<lambda>_.
       try_bnd (if pp_removed_transactions r > 0 then sync_directory else ret (Ok ())) (\<lambda>_. ret (Ok r))))) F"
    if "scanned_ok c F (r, cs)" for r cs
  proof (rule path_try_bnd [OF path_prune_remove])
    show "list_all (removable c F) cs" using that by (simp add: scanned_ok_def)
  next
    fix e F' assume "prune_outcome c F (removed_total r + length cs) (Inl e) F'"
    then show "prune_outcome c F PERSISTENCE_PRUNE_REMOVAL_LIMIT (Inl e) F'" by (simp add: prune_outcome_def)
  next
    fix v F' assume "prune_outcome c F (removed_total r + length cs) (Inr v) F'"
    then have "prune_outcome c F PERSISTENCE_PRUNE_REMOVAL_LIMIT (Inr v) F'"
      "prune_outcome c F PERSISTENCE_PRUNE_REMOVAL_LIMIT (Inl e) F'" for e
      using that by (simp_all add: scanned_ok_def prune_outcome_def)
    then show "path c (prune_outcome c F PERSISTENCE_PRUNE_REMOVAL_LIMIT)
       (try_bnd (if pp_removed_objects v > 0 then sync_directory else ret (Ok ())) (\<lambda>_.
        try_bnd (if pp_removed_transactions v > 0 then sync_directory else ret (Ok ())) (\<lambda>_. ret (Ok v)))) F'"
      by (intro path_sync_if path_ret)
  qed
  show "path c (prune_outcome c F PERSISTENCE_PRUNE_REMOVAL_LIMIT)
        (try_bnd (collect_prune_candidates d_objects objs PruneObject
            (\<lparr>pp_scanned_entries = 0, pp_removed_objects = 0, pp_removed_transactions = 0, pp_has_more = False\<rparr>, []))
          (\<lambda>acc. try_bnd (collect_prune_candidates d_transactions ts PruneTransaction acc)
            (\<lambda>(r, cs). try_bnd (prune_remove cs r) (\<lambda>r.
               try_bnd (if pp_removed_objects r > 0 then sync_directory else ret (Ok ())) (\<lambda>_.
               try_bnd (if pp_removed_transactions r > 0 then sync_directory else ret (Ok ())) (\<lambda>_. ret (Ok r))))))) F"
    by (rule path_read_then [OF reads_collect], use objs in \<open>simp add: removable_def\<close>,
        simp add: scanned_ok_def removed_total_def, rule prune_outcome_err,
        rule path_read_then [OF reads_collect], use ts in \<open>simp add: removable_def\<close>, assumption, rule prune_outcome_err)
      (auto intro: finish)
qed

section \<open>Runs of the store\<close>

lemma path_steps: "path c Q m (files d) \<Longrightarrow> (store_step c)\<^sup>*\<^sup>* (files d) (files (snd (m d)))"
  by (simp add: path_def triple_def)

lemma path_outcome: "path c Q m (files d) \<Longrightarrow> Q (fst (m d)) (files (snd (m d)))"
  by (simp add: path_def triple_def)

lemma store_apply_steps:
  assumes "codec_ok c" "op_bounded op"
  shows "(store_step c)\<^sup>*\<^sup>* (files d) (files (store_apply c op d))"
proof (cases op)
  case (PutObject x)
  then show ?thesis using path_steps [OF path_put_object] assms by simp
qed (use assms in \<open>simp_all add: path_steps [OF path_prepare] path_steps [OF path_commit] path_steps [OF path_clear]
    path_steps [OF path_prune] path_steps [OF path_reads [OF reads_recover]] path_steps [OF path_reads [OF reads_load]]
    path_steps [OF path_reads [OF reads_object_limited]]\<close>)

lemma store_ok_files [simp]: "store_ok c (files d) = store_ok c d"
proof -
  have "object_present c (files d) = object_present c d" by (auto simp: object_present_def files_readers fun_eq_iff)
  then have "objects_present c (files d) = objects_present c d" by (intro ext) (simp add: objects_present_def)
  moreover have "bundle_at c (files d) = bundle_at c d" by (auto simp: bundle_at_def files_readers fun_eq_iff)
  ultimately have "loadable c (files d) = loadable c d" by (auto simp: loadable_iff fun_eq_iff)
  then show ?thesis
    by (simp add: store_ok_def live_transactions_def manifest_of_def journal_of_def files_fields)
qed

definition store_run_step :: "Codec \<Rightarrow> StoreOp \<Rightarrow> Disk \<Rightarrow> Disk" where
  "store_run_step c op d = (if op_bounded op then store_apply c op d else d)"

interpretation store: state_machine "empty_disk faults" "store_run_step c" "\<lambda>d. codec_ok c \<longrightarrow> store_ok c d"
  for faults c
proof
  show "codec_ok c \<longrightarrow> store_ok c (empty_disk faults)"
    by (simp add: store_ok_def empty_disk_def live_transactions_def named_transactions_def manifest_of_def journal_of_def)
  show "codec_ok c \<longrightarrow> store_ok c (store_run_step c op d)" if "codec_ok c \<longrightarrow> store_ok c d" for op d
    using that store_steps_ok [OF store_apply_steps [of c op d]] by (simp add: store_run_step_def)
qed

lemma fold_store_apply: "list_all op_bounded ops \<Longrightarrow> fold (store_apply c) ops d = fold (store_run_step c) ops d"
  by (induction ops arbitrary: d) (auto simp: store_run_step_def)

section \<open>Reading without faults\<close>

lemma quiet_sys [simp]: "d_faults d = [] \<Longrightarrow> sys d = (Ok (), d)"
  by (simp add: sys_def)

lemma quiet_read:
  "d_faults d = [] \<Longrightarrow> fs_read file d = (case file d of None \<Rightarrow> Err IoNotFound | Some x \<Rightarrow> Ok x, d)"
  by (simp add: fs_read_def try_bnd_def bnd_def)

lemma quiet_object: "d_faults d = [] \<Longrightarrow> object_present c d i \<Longrightarrow> \<exists>x. read_object c i d = (Ok x, d)"
  by (auto simp: read_object_def read_object_limited_def try_bnd_def bnd_def quiet_read ret_def object_present_def
      split: option.splits)

lemma quiet_verify:
  assumes "d_faults d = []" "objects_present c d b"
  shows "verify_bundle_objects c b d = (Ok (), d)"
proof -
  obtain w x y z where "read_object c (tb_supervisor_state b) d = (Ok w, d)" "read_object c (tb_profile_snapshot b) d = (Ok x, d)"
    "read_object c (tb_local_rule_set b) d = (Ok y, d)" "read_object c (tb_effective_configuration b) d = (Ok z, d)"
    using assms by (auto simp: objects_present_def bundle_objects_def dest!: quiet_object [OF assms(1)])
  then show ?thesis by (simp add: verify_bundle_objects_def try_bnd_def bnd_def ret_def)
qed

lemma quiet_load: "d_faults d = [] \<Longrightarrow> bundle_at c d t = Some b \<Longrightarrow> load_transaction c t d = (Ok b, d)"
  by (auto simp: load_transaction_def read_hashed_file_def try_bnd_def bnd_def quiet_read ret_def bundle_at_def
      split: option.splits sum.splits if_splits)

lemma quiet_optional_json:
  "d_faults d = [] \<Longrightarrow> file d = None \<or> Option.bind (file d) from \<noteq> None \<Longrightarrow>
   read_optional_json file from d = (Ok (Option.bind (file d) from), d)"
  by (cases "file d") (auto simp: read_optional_json_def bnd_def quiet_read ret_def)

lemma quiet_recover:
  "d_faults d = [] \<Longrightarrow> store_ok c d \<Longrightarrow>
   recover c d = (Ok \<lparr>rv_committed = manifest_of c d, rv_prepared = journal_of c d\<rparr>, d)"
  unfolding store_ok_def manifest_of_def journal_of_def
  by (elim conjE) (simp add: recover_def read_manifest_def read_journal_def try_bnd_def bnd_def ret_def quiet_optional_json)

section \<open>What the store promises\<close>

text \<open>A small codec: one bundle, one journal and one manifest have a text.\<close>

definition sample_bundle :: TransactionBundle where
  "sample_bundle = (let i = ObjectId (replicate 64 (CHR ''1'')) in
    \<lparr>tb_supervisor_state = i, tb_profile_snapshot = i, tb_local_rule_set = i, tb_effective_configuration = i,
     tb_profile_revision = 1, tb_local_rule_set_revision = 1, tb_active_profile_id = ProfileId 0, tb_runtime_generation = 1\<rparr>)"

definition sample_prepared :: PreparedTransaction where
  "sample_prepared = \<lparr>pt_candidate = TransactionId (replicate 64 (CHR ''2'')), pt_previous = None\<rparr>"

definition sample_manifest :: CommittedManifest where
  "sample_manifest = \<lparr>cm_current = TransactionId (replicate 64 (CHR ''2'')), cm_previous = None\<rparr>"

definition sample_dto :: TransactionBundleDto where
  "sample_dto = (let i = ObjectId (replicate 64 (CHR ''1'')) in
    \<lparr>dto_schema_version = 1, dto_supervisor_state = i, dto_profile_snapshot = i, dto_local_rule_set = i,
     dto_effective_configuration = i, dto_profile_revision = 1, dto_local_rule_set_revision = 1,
     dto_active_profile_id = [], dto_runtime_generation = 1\<rparr>)"

definition sample_codec :: Codec where
  "sample_codec = \<lparr>
     cd_sha256_hex = (\<lambda>s. replicate 64 (if s = ''bundle'' then CHR ''2'' else CHR ''1'')),
     cd_id_text = (\<lambda>i. replicate (unat (uuid_bits i)) (CHR ''i'')),
     cd_id_parse = (\<lambda>s. Some (ProfileId (of_nat (length s)))),
     cd_bundle_to = (\<lambda>b. if b = sample_dto then Some ''bundle'' else None),
     cd_bundle_from = (\<lambda>s. if s = ''bundle'' then Some sample_dto else None),
     cd_prepared_to = (\<lambda>p. if p = sample_prepared then Some ''prepared'' else None),
     cd_prepared_from = (\<lambda>s. if s = ''prepared'' then Some sample_prepared else None),
     cd_manifest_to = (\<lambda>m. if m = sample_manifest then Some ''manifest'' else None),
     cd_manifest_from = (\<lambda>s. if s = ''manifest'' then Some sample_manifest else None),
     cd_value_from = (\<lambda>_. Some JNull)\<rparr>"

lemma sample_codec_ok: "codec_ok sample_codec"
  by (auto simp: codec_ok_def sample_codec_def split: if_splits)

definition sample_ops :: "StoreOp list" where
  "sample_ops = [PutObject ''x'', Prepare sample_bundle, CommitPrepared sample_prepared]"

lemma sample_ops_bounded: "list_all op_bounded sample_ops"
  by (simp add: sample_ops_def usize_max_def)

text \<open>C4. Every operation of the persistence store, whichever of its system calls fail, moves the files along
  the atomic steps of the abstract store: an object or a transaction appears under its own digest, the
  journal is written only over an empty one and names a stored transaction, the manifest moves only to the
  journalled candidate of the manifest it was prepared against, and nothing that the manifest or the journal
  refers to is removed.\<close>

theorem store_refines_steps:
  assumes "codec_ok c" "op_bounded op"
  shows "(store_step c)\<^sup>*\<^sup>* (files d) (files (store_apply c op d))"
  using assms by (rule store_apply_steps)

theorem store_refines_steps_witness:
  "(store_step sample_codec)\<^sup>*\<^sup>* (files (empty_disk [False, True]))
     (files (store_apply sample_codec (Prepare sample_bundle) (empty_disk [False, True])))"
  by (rule store_refines_steps) (simp_all add: sample_codec_ok)

lemma sample_hex: "is_lower_sha256_hex (replicate 64 (CHR ''1''))" "is_lower_sha256_hex (replicate 64 (CHR ''2''))"
  by (simp_all add: is_lower_sha256_hex_def list_all_iff)

lemmas run_defs = try_bnd_def bnd_def ret_def change_def Let_def

lemma sys_calls_numerals: "sys_calls 1 = try_bnd sys (\<lambda>_. ret (Ok ()))"
  "sys_calls 2 = try_bnd sys (\<lambda>_. try_bnd sys (\<lambda>_. ret (Ok ())))"
  by (simp_all add: numeral_2_eq_2)

lemmas quiet_write_defs = put_immutable_def replace_private_file_def write_temporary_def sync_directory_def sys_calls_numerals
  fs_read_def sys_def

lemma sample_put: "store_apply sample_codec (PutObject ''x'') (empty_disk []) =
  (empty_disk [])\<lparr>d_objects := [(replicate 64 (CHR ''1''), ''x'')]\<rparr>" (is "_ = ?d1")
  by (simp add: put_object_def quiet_write_defs run_defs object_file_def empty_disk_def sample_codec_def)

lemma sample_objects: "objects_present sample_codec ((empty_disk [])\<lparr>d_objects := [(replicate 64 (CHR ''1''), ''x'')],
    d_transactions := ts, d_manifest := m, d_prepared := p\<rparr>) sample_bundle"
  by (simp add: objects_present_def object_present_def bundle_objects_def sample_bundle_def sample_codec_def object_file_def
      Let_def usize_max_def)

lemma sample_prepare: "store_apply sample_codec (Prepare sample_bundle)
    ((empty_disk [])\<lparr>d_objects := [(replicate 64 (CHR ''1''), ''x'')]\<rparr>) =
  (empty_disk [])\<lparr>d_objects := [(replicate 64 (CHR ''1''), ''x'')],
     d_transactions := [(replicate 64 (CHR ''2''), ''bundle'')], d_prepared := Some ''prepared''\<rparr>"
proof -
  have "verify_bundle_objects sample_codec sample_bundle ((empty_disk [])\<lparr>d_objects := [(replicate 64 (CHR ''1''), ''x'')]\<rparr>) =
    (Ok (), (empty_disk [])\<lparr>d_objects := [(replicate 64 (CHR ''1''), ''x'')]\<rparr>)"
    using quiet_verify [OF _ sample_objects [where ts = "[]" and m = None and p = None]] by (simp add: empty_disk_def)
  moreover have "bundle_to_dto sample_codec sample_bundle = sample_dto"
    by (simp add: bundle_to_dto_def sample_bundle_def sample_dto_def sample_codec_def Let_def)
  ultimately show ?thesis
    by (simp add: prepare_def write_journal_def quiet_write_defs run_defs empty_disk_def read_journal_def read_manifest_def
        read_optional_json_def transaction_file_def sample_codec_def sample_prepared_def)
qed

lemma sample_commit: "store_apply sample_codec (CommitPrepared sample_prepared)
    ((empty_disk [])\<lparr>d_objects := [(replicate 64 (CHR ''1''), ''x'')],
     d_transactions := [(replicate 64 (CHR ''2''), ''bundle'')], d_prepared := Some ''prepared''\<rparr>) =
  (empty_disk [])\<lparr>d_objects := [(replicate 64 (CHR ''1''), ''x'')], d_manifest := Some ''manifest'',
     d_transactions := [(replicate 64 (CHR ''2''), ''bundle'')], d_prepared := Some ''prepared''\<rparr>"
proof -
  define d where "d = (empty_disk [])\<lparr>d_objects := [(replicate 64 (CHR ''1''), ''x'')],
     d_transactions := [(replicate 64 (CHR ''2''), ''bundle'')], d_prepared := Some ''prepared''\<rparr>"
  have "verify_bundle_objects sample_codec sample_bundle d = (Ok (), d)"
    using quiet_verify [OF _ sample_objects [where ts = "[(replicate 64 (CHR ''2''), ''bundle'')]" and m = None and p = "Some ''prepared''"]]
    by (simp add: empty_disk_def d_def)
  moreover have "load_transaction sample_codec (pt_candidate sample_prepared) d = (Ok sample_bundle, d)"
    by (rule quiet_load) (simp_all add: d_def empty_disk_def bundle_at_def transaction_file_def sample_prepared_def sample_codec_def
        decode_bundle_def bundle_of_dto_def sample_dto_def sample_bundle_def Let_def)
  moreover have "read_journal sample_codec d = (Ok (Some sample_prepared), d)" "read_manifest sample_codec d = (Ok None, d)"
    by (simp_all add: d_def empty_disk_def read_journal_def read_manifest_def read_optional_json_def fs_read_def sys_def run_defs
        sample_codec_def)
  moreover have "cd_manifest_to sample_codec \<lparr>cm_current = pt_candidate sample_prepared, cm_previous = pt_previous sample_prepared\<rparr> =
      Some ''manifest''"
    by (simp add: sample_codec_def sample_prepared_def sample_manifest_def)
  moreover have "d_faults d = []" by (simp add: d_def empty_disk_def)
  ultimately have "store_apply sample_codec (CommitPrepared sample_prepared) d = d\<lparr>d_manifest := Some ''manifest''\<rparr>"
    by (simp add: commit_prepared_def run_defs) (simp add: sample_prepared_def quiet_write_defs run_defs)
  then show ?thesis by (simp add: d_def)
qed

lemma sample_run: "live_transactions sample_codec (fold (store_apply sample_codec) sample_ops (empty_disk [])) =
     [TransactionId (replicate 64 (CHR ''2'')), TransactionId (replicate 64 (CHR ''2''))]"
  by (simp add: sample_ops_def sample_put sample_prepare sample_commit del: store_apply.simps)
    (simp add: live_transactions_def named_transactions_def manifest_of_def journal_of_def empty_disk_def sample_codec_def
      sample_prepared_def sample_manifest_def)

text \<open>C2. After any sequence of store operations on an empty store, with any failures of system calls on the
  way, the store can be recovered: reading it gives the manifest and the journal, and every transaction they
  name loads and has its four objects with the digests it names.\<close>

theorem store_always_recoverable:
  assumes "codec_ok c" "list_all op_bounded ops"
    and d: "d = (fold (store_apply c) ops (empty_disk faults))\<lparr>d_faults := []\<rparr>"
  shows "\<exists>s. fst (recover c d) = Ok s \<and>
    list_all (\<lambda>t. \<exists>b. fst (load_transaction c t d) = Ok b \<and> fst (verify_bundle_objects c b d) = Ok ())
      (named_transactions (rv_committed s) (rv_prepared s))"
proof -
  have "store_ok c (files (fold (store_run_step c) ops (empty_disk faults)))"
    using store.run_inv [where c = c and ops = ops] assms(1) by simp
  then have ok: "store_ok c d"
    using fold_store_apply [OF assms(2)] by (metis d files_simps(1) store_ok_files)
  have quiet: "d_faults d = []" by (simp add: d)
  from ok have "list_all (\<lambda>t. \<exists>b. fst (load_transaction c t d) = Ok b \<and> fst (verify_bundle_objects c b d) = Ok ())
      (live_transactions c d)"
    unfolding store_ok_def
    by (auto simp: list_all_iff loadable_iff quiet_load [OF quiet] quiet_verify [OF quiet])
  then show ?thesis by (simp add: quiet_recover [OF quiet ok] live_transactions_def)
qed

theorem store_always_recoverable_witness:
  "live_transactions sample_codec (fold (store_apply sample_codec) sample_ops (empty_disk [])) =
     [TransactionId (replicate 64 (CHR ''2'')), TransactionId (replicate 64 (CHR ''2''))] \<and>
   (\<exists>d s. d = (fold (store_apply sample_codec) sample_ops (empty_disk []))\<lparr>d_faults := []\<rparr> \<and>
     fst (recover sample_codec d) = Ok s \<and>
     list_all (\<lambda>t. \<exists>b. fst (load_transaction sample_codec t d) = Ok b \<and> fst (verify_bundle_objects sample_codec b d) = Ok ())
       (named_transactions (rv_committed s) (rv_prepared s)))"
  using store_always_recoverable [OF sample_codec_ok sample_ops_bounded refl] sample_run by blast

text \<open>C7. Pruning, whatever fails, leaves the manifest and the journal as they are and keeps every transaction they
  name and every object that such a transaction or the supervisor state it stores refers to; a prune that
  returns has removed at most 256 files.\<close>

theorem prune_keeps_live_content:
  "let d' = snd (prune_unreachable c d) in
     d_manifest d' = d_manifest d \<and> d_prepared d' = d_prepared d \<and>
     list_all (\<lambda>name. object_file name d' = object_file name d) (live_objects c d) \<and>
     list_all (\<lambda>t. transaction_file (transaction_text t) d' = transaction_file (transaction_text t) d) (live_transactions c d) \<and>
     (case fst (prune_unreachable c d) of Inl _ \<Rightarrow> True
      | Inr r \<Rightarrow> pp_removed_objects r + pp_removed_transactions r \<le> 256)"
proof -
  have frame: "live_transactions c (files d) = live_transactions c d" "transaction_objects c (files d) = transaction_objects c d"
    by (auto simp: live_transactions_def manifest_of_def journal_of_def files_fields files_readers fun_eq_iff
        transaction_objects_def bundle_at_def cong: option.case_cong)
  then have "live_objects c (files d) = live_objects c d" by (simp add: live_objects_def)
  then show ?thesis
    using path_outcome [OF path_prune, of c d] frame
    by (auto simp: Let_def prune_outcome_def prune_kept_def files_fields files_readers list_all_iff removed_total_def
        PERSISTENCE_PRUNE_REMOVAL_LIMIT_def split: sum.splits)
qed

end
