(* ===== verification/Transaction_Safety.thy ===== *)
theory Transaction_Safety
  imports Transactions Store_Recovery
begin

text \<open>
  Correctness of the transaction coordinator.

  The locale \<open>transaction_store\<close> is the contract of the \<open>TransactionStore\<close> trait together
  with the fact that the other ports leave the store alone: what each call does to the view
  of the store (the manifest, the journal and the bundles they name) and to the sequence of
  calls to the runtime.  The coordinator is verified against this contract, and the contract
  is proved for the persistence store of \<open>Persistence\<close> with arbitrary failures, an arbitrary
  environment behind the other ports and a trace of the runtime calls.
\<close>

section \<open>Views and observations\<close>

record StoreView =
  v_committed :: "CommittedManifest option"
  v_journal :: "PreparedTransaction option"
  v_bundles :: "TransactionId \<Rightarrow> TransactionBundle option"

abbreviation v_named :: "StoreView \<Rightarrow> TransactionId list" where
  "v_named v \<equiv> named_transactions (v_committed v) (v_journal v)"

text \<open>A call to the runtime with the manifest and the journal at that moment.\<close>

datatype RuntimeCall =
    Applied RuntimeBundle "CommittedManifest option" "PreparedTransaction option"
  | Stopped "CommittedManifest option" "PreparedTransaction option"

definition committed_generation_of :: "StoreView \<Rightarrow> RuntimeGeneration option" where
  "committed_generation_of v =
    Option.bind (v_committed v) (\<lambda>m. map_option tb_runtime_generation (v_bundles v (cm_current m)))"

definition journalled :: "StoreView \<Rightarrow> TransactionBundle \<Rightarrow> PreparedTransaction \<Rightarrow> StoreView \<Rightarrow> bool" where
  "journalled v b p v' \<longleftrightarrow> v_journal v = None \<and> v_journal v' = Some p \<and> v_committed v' = v_committed v \<and>
    pt_previous p = map_option cm_current (v_committed v) \<and> v_bundles v' (pt_candidate p) = Some b \<and>
    (\<forall>t. t \<in> set (v_named v) \<and> t \<noteq> pt_candidate p \<longrightarrow> v_bundles v' t = v_bundles v t)"

definition committed_by :: "StoreView \<Rightarrow> PreparedTransaction \<Rightarrow> StoreView \<Rightarrow> bool" where
  "committed_by v p v' \<longleftrightarrow> v_journal v = Some p \<and> v_journal v' = Some p \<and>
    v_committed v' = Some \<lparr>cm_current = pt_candidate p, cm_previous = pt_previous p\<rparr> \<and>
    pt_previous p = map_option cm_current (v_committed v) \<and>
    v_bundles v' (pt_candidate p) = v_bundles v (pt_candidate p)"

definition cleared :: "StoreView \<Rightarrow> PreparedTransaction \<Rightarrow> StoreView \<Rightarrow> bool" where
  "cleared v p v' \<longleftrightarrow> v_journal v = Some p \<and> v_journal v' = None \<and> v_committed v' = v_committed v \<and>
    (\<forall>t. t \<in> set (v_named v') \<longrightarrow> v_bundles v' t = v_bundles v t)"

definition holds :: "('w \<Rightarrow> bool) \<Rightarrow> ('w \<Rightarrow> StoreView) \<Rightarrow> ('w \<Rightarrow> RuntimeCall list) \<Rightarrow> StoreView \<Rightarrow> RuntimeCall list \<Rightarrow> 'w \<Rightarrow> bool" where
  "holds ok view calls v cs w \<longleftrightarrow> ok w \<and> view w = v \<and> calls w = cs"

definition quiet ::
  "('w \<Rightarrow> bool) \<Rightarrow> ('w \<Rightarrow> StoreView) \<Rightarrow> ('w \<Rightarrow> RuntimeCall list) \<Rightarrow> ('w, 'a) prog \<Rightarrow> (StoreView \<Rightarrow> 'a \<Rightarrow> bool) \<Rightarrow> bool" where
  "quiet ok view calls m R \<longleftrightarrow>
    (\<forall>v cs. triple (holds ok view calls v cs) m (\<lambda>r w. holds ok view calls v cs w \<and> R v r))"

definition runs ::
  "('w \<Rightarrow> bool) \<Rightarrow> ('w \<Rightarrow> StoreView) \<Rightarrow> ('w \<Rightarrow> RuntimeCall list) \<Rightarrow> ('w, 'a) prog \<Rightarrow> StoreView \<Rightarrow> RuntimeCall list \<Rightarrow>
   ('a \<Rightarrow> StoreView \<Rightarrow> RuntimeCall list \<Rightarrow> bool) \<Rightarrow> bool" where
  "runs ok view calls m v cs R \<longleftrightarrow>
    triple (holds ok view calls v cs) m (\<lambda>r w. \<exists>v' cs'. holds ok view calls v' cs' w \<and> R r v' cs')"

text \<open>Runtime calls of a transaction: each finds a journal and the manifest of the start, and applies
  the candidate's or the committed generation.\<close>

fun call_ok :: "StoreView \<Rightarrow> RuntimeGeneration \<Rightarrow> RuntimeCall \<Rightarrow> bool" where
  "call_ok v g (Applied bundle m j) \<longleftrightarrow> m = v_committed v \<and> j \<noteq> None \<and>
    (rb_generation bundle = g \<or> Some (rb_generation bundle) = committed_generation_of v)"
| "call_ok v g (Stopped m j) \<longleftrightarrow> m = v_committed v \<and> j \<noteq> None"

definition adds :: "(RuntimeCall \<Rightarrow> bool) \<Rightarrow> RuntimeCall list \<Rightarrow> RuntimeCall list \<Rightarrow> bool" where
  "adds ok cs cs' \<longleftrightarrow> (\<exists>new. cs' = cs @ new \<and> list_all ok new)"

definition is_newer :: "RuntimeGeneration option \<Rightarrow> RuntimeGeneration \<Rightarrow> bool" where
  "is_newer committed g = (case committed of None \<Rightarrow> g > 0 | Some current \<Rightarrow> g > current)"

fun is_converged :: "RecoveryOutcome \<Rightarrow> bool" where
  "is_converged (Converged _) = True"
| "is_converged _ = False"

fun is_pending :: "RecoveryOutcome \<Rightarrow> bool" where
  "is_pending (Pending _) = True"
| "is_pending _ = False"

fun is_failed :: "RecoveryOutcome \<Rightarrow> bool" where
  "is_failed (Failed _) = True"
| "is_failed _ = False"

definition staged :: "StoreView \<Rightarrow> TransactionBundle \<Rightarrow> PreparedTransaction \<Rightarrow> StoreView \<Rightarrow> bool" where
  "staged v0 b p v \<longleftrightarrow> v_journal v = Some p \<and> v_committed v = v_committed v0 \<and>
    pt_previous p = map_option cm_current (v_committed v0) \<and> v_bundles v (pt_candidate p) = Some b \<and>
    (committed_generation_of v = committed_generation_of v0 \<or>
     committed_generation_of v = Some (tb_runtime_generation b))"

definition tx_outcome ::
  "ConfigTransactionCandidate \<Rightarrow> StoreView \<Rightarrow> ConfigTransactionError + ConfigTransactionSuccess \<Rightarrow> StoreView \<Rightarrow> bool" where
  "tx_outcome candidate v0 r v \<longleftrightarrow> (case r of
      Inl e \<Rightarrow> (v_committed v = v_committed v0 \<or>
          ex_kind e = TxCommit \<and> is_failed (ex_recovery e) \<and> v_journal v \<noteq> None \<and>
          is_newer (committed_generation_of v0) (rb_generation (ct_runtime candidate)) \<and>
          (\<exists>m. v_committed v = Some m \<and> v_bundles v (cm_current m) = Some (ct_transaction candidate))) \<and>
        (is_converged (ex_recovery e) \<longrightarrow> v_journal v = None)
    | Inr s \<Rightarrow>
        sx_candidate_generation s = rb_generation (ct_runtime candidate) \<and>
        sx_committed_generation s = rb_generation (ct_runtime candidate) \<and>
        committed_generation_of v = Some (rb_generation (ct_runtime candidate)) \<and>
        is_newer (committed_generation_of v0) (rb_generation (ct_runtime candidate)) \<and>
        (\<exists>m. v_committed v = Some m \<and> v_bundles v (cm_current m) = Some (ct_transaction candidate)) \<and>
        (\<not> is_pending (sx_recovery s) \<longrightarrow> v_journal v = None))"

definition ready :: "ConfigTransactionCandidate \<Rightarrow> StoreView \<Rightarrow> PreparedTransaction \<Rightarrow> StoreView \<Rightarrow> bool" where
  "ready candidate v0 p v \<longleftrightarrow> staged v0 (ct_transaction candidate) p v \<and>
    tb_runtime_generation (ct_transaction candidate) = rb_generation (ct_runtime candidate) \<and>
    is_newer (committed_generation_of v0) (rb_generation (ct_runtime candidate))"

text \<open>The result of a transaction from a given view, with the runtime calls it added.\<close>

definition tx_result ::
  "ConfigTransactionCandidate \<Rightarrow> StoreView \<Rightarrow> RuntimeCall list \<Rightarrow>
   ConfigTransactionError + ConfigTransactionSuccess \<Rightarrow> StoreView \<Rightarrow> RuntimeCall list \<Rightarrow> bool" where
  "tx_result candidate v0 cs0 r v cs \<longleftrightarrow>
    tx_outcome candidate v0 r v \<and> adds (call_ok v0 (rb_generation (ct_runtime candidate))) cs0 cs"

definition startup_result ::
  "StoreView \<Rightarrow> RuntimeCall list \<Rightarrow> ConfigTransactionError + StartupRecovery \<Rightarrow> StoreView \<Rightarrow> RuntimeCall list \<Rightarrow> bool" where
  "startup_result v0 cs0 r v cs \<longleftrightarrow>
    v_committed v = v_committed v0 \<and> committed_generation_of v = committed_generation_of v0 \<and>
    adds (\<lambda>c. case c of Applied x m j \<Rightarrow> Some (rb_generation x) = committed_generation_of v0 | Stopped m j \<Rightarrow> True) cs0 cs \<and>
    (case r of Inl _ \<Rightarrow> True
     | Inr s \<Rightarrow> su_committed_generation s = committed_generation_of v0 \<and> v_journal v = None \<and>
         su_cleared_prepared_journal s = (v_journal v0 \<noteq> None))"

definition reapply_result ::
  "StoreView \<Rightarrow> RuntimeCall list \<Rightarrow> ConfigTransactionError + StartupReapply \<Rightarrow> StoreView \<Rightarrow> RuntimeCall list \<Rightarrow> bool" where
  "reapply_result v0 cs0 r v cs \<longleftrightarrow>
    v_committed v = v_committed v0 \<and> committed_generation_of v = committed_generation_of v0 \<and> cs = cs0 \<and>
    (case r of Inl _ \<Rightarrow> True
     | Inr s \<Rightarrow> sy_committed_generation s = committed_generation_of v0 \<and> v_journal v = None \<and>
         is_newer (committed_generation_of v0) (sy_candidate_generation s))"

locale transaction_store =
  fixes P :: "'w Ports"
    and ok :: "'w \<Rightarrow> bool"
    and view :: "'w \<Rightarrow> StoreView"
    and calls :: "'w \<Rightarrow> RuntimeCall list"
  assumes read_object_law: "quiet ok view calls (p_read_object_limited P i n) (\<lambda>_ _. True)"
    and recover_law: "quiet ok view calls (p_recover P)
      (\<lambda>v r. \<forall>s. r = Inr s \<longrightarrow> rv_committed s = v_committed v \<and> rv_prepared s = v_journal v)"
    and load_law: "quiet ok view calls (p_load_transaction P t)
      (\<lambda>v r. \<forall>b. r = Inr b \<longrightarrow> t \<in> set (v_named v) \<longrightarrow> v_bundles v t = Some b)"
    and prune_law: "quiet ok view calls (p_prune_unreachable P) (\<lambda>_ _. True)"
    and prepare_law: "triple (holds ok view calls v cs) (p_prepare P b) (\<lambda>r w. \<exists>v'. holds ok view calls v' cs w \<and>
      (case r of Inl _ \<Rightarrow> v_committed v' = v_committed v \<and> (v_journal v = None \<or> v_journal v' = v_journal v)
       | Inr p \<Rightarrow> journalled v b p v'))"
    and commit_law: "triple (holds ok view calls v cs) (p_commit_prepared P p) (\<lambda>r w. \<exists>v'. holds ok view calls v' cs w \<and>
      (v' = v \<and> \<not> is_ok r \<or> committed_by v p v'))"
    and clear_law: "triple (holds ok view calls v cs) (p_clear_prepared P p) (\<lambda>r w. \<exists>v'. holds ok view calls v' cs w \<and>
      (v' = v \<and> \<not> is_ok r \<or> cleared v p v'))"
    and apply_law: "triple (holds ok view calls v cs) (p_apply_candidate P owner bundle)
      (\<lambda>_. holds ok view calls v (cs @ [Applied bundle (v_committed v) (v_journal v)]))"
    and stop_law: "triple (holds ok view calls v cs) (p_stop P owner)
      (\<lambda>_. holds ok view calls v (cs @ [Stopped (v_committed v) (v_journal v)]))"
    and status_law: "quiet ok view calls (p_status P owner) (\<lambda>_ _. True)"
    and validate_law: "quiet ok view calls (p_validate P configuration root) (\<lambda>_ _. True)"
    and confirm_ready_law: "quiet ok view calls (p_confirm_ready P core) (\<lambda>_ _. True)"
    and revisions_law: "quiet ok view calls (p_current_revisions P) (\<lambda>_ _. True)"
    and resolve_law: "quiet ok view calls (p_resolve P b) (\<lambda>_ _. True)"
    and prune_generations_law: "quiet ok view calls (p_prune_generations P retention) (\<lambda>_ _. True)"
    and shutdown_law: "quiet ok view calls (p_shutdown_requested P) (\<lambda>_ _. True)"
    and lock_coordinator_law: "quiet ok view calls (p_lock_coordinator P) (\<lambda>_ _. True)"
    and try_lock_coordinator_law: "quiet ok view calls (p_try_lock_coordinator P) (\<lambda>_ _. True)"
    and lock_lifecycle_law: "quiet ok view calls (p_lock_lifecycle P) (\<lambda>_ _. True)"

section \<open>Rules\<close>

lemma runs_ret: "R r v cs \<Longrightarrow> runs ok view calls (ret r) v cs R"
  by (auto simp: runs_def intro!: triple_ret)

lemma runs_weaken: "runs ok view calls m v cs R \<Longrightarrow> (\<And>r v' cs'. R r v' cs' \<Longrightarrow> Q r v' cs') \<Longrightarrow> runs ok view calls m v cs Q"
  unfolding runs_def by (erule triple_weaken) blast+

lemma runs_bnd:
  assumes "runs ok view calls m v cs R" "\<And>r v' cs'. R r v' cs' \<Longrightarrow> runs ok view calls (f r) v' cs' Q"
  shows "runs ok view calls (bnd m f) v cs Q"
  unfolding runs_def
proof (rule triple_bnd [OF assms(1) [unfolded runs_def]], rule triple_pre, elim exE conjE)
  fix r w v' cs' assume "holds ok view calls v' cs' w" "R r v' cs'"
  then show "triple (\<lambda>w'. w' = w) (f r) (\<lambda>r w. \<exists>v' cs'. holds ok view calls v' cs' w \<and> Q r v' cs')"
    using assms(2) by (auto simp: runs_def triple_def)
qed

lemma runs_try_bnd:
  assumes "runs ok view calls m v cs R" "\<And>e v' cs'. R (Inl e) v' cs' \<Longrightarrow> Q (Inl e) v' cs'"
    "\<And>x v' cs'. R (Inr x) v' cs' \<Longrightarrow> runs ok view calls (f x) v' cs' Q"
  shows "runs ok view calls (try_bnd m f) v cs Q"
  unfolding try_bnd_def using assms by (intro runs_bnd [OF assms(1)]) (auto intro: runs_ret split: sum.splits)

lemma runs_fail_with: "runs ok view calls m v cs (\<lambda>r. R (map_err g r)) \<Longrightarrow> runs ok view calls (fail_with g m) v cs R"
  unfolding fail_with_def by (rule runs_bnd, assumption) (rule runs_ret)

lemma runs_quiet: "quiet ok view calls m R \<Longrightarrow> runs ok view calls m v cs (\<lambda>r v' cs'. v' = v \<and> cs' = cs \<and> R v r)"
  unfolding runs_def quiet_def by (erule allE, erule allE, erule triple_weaken) auto

lemma runs_after_quiet:
  assumes "quiet ok view calls m R" "\<And>r. R v r \<Longrightarrow> runs ok view calls (f r) v cs Q"
  shows "runs ok view calls (bnd m f) v cs Q"
  by (rule runs_bnd [OF runs_quiet [OF assms(1)]]) (auto intro: assms(2))

lemma runs_try_after_quiet:
  assumes "quiet ok view calls m R" "\<And>e. R v (Inl e) \<Longrightarrow> Q (Inl e) v cs" "\<And>x. R v (Inr x) \<Longrightarrow> runs ok view calls (f x) v cs Q"
  shows "runs ok view calls (try_bnd m f) v cs Q"
  by (rule runs_try_bnd [OF runs_quiet [OF assms(1)]]) (auto intro: assms(2,3))

lemma quiet_ret: "(\<And>v. R v r) \<Longrightarrow> quiet ok view calls (ret r) R"
  by (auto simp: quiet_def intro: triple_ret)

lemma quiet_runs:
  "(\<And>v cs. runs ok view calls m v cs (\<lambda>r v' cs'. v' = v \<and> cs' = cs \<and> R v r)) \<Longrightarrow> quiet ok view calls m R"
  by (auto simp: quiet_def runs_def triple_def)

lemma quiet_bnd:
  assumes "quiet ok view calls m S" "\<And>r. quiet ok view calls (f r) (\<lambda>v x. S v r \<longrightarrow> R v x)"
  shows "quiet ok view calls (bnd m f) R"
  by (rule quiet_runs, rule runs_after_quiet [OF assms(1)], rule runs_weaken [OF runs_quiet [OF assms(2)]]) auto

lemma quiet_try_bnd:
  assumes "quiet ok view calls m S" "\<And>v e. S v (Inl e) \<Longrightarrow> R v (Inl e)"
    "\<And>x. quiet ok view calls (f x) (\<lambda>v r. S v (Inr x) \<longrightarrow> R v r)"
  shows "quiet ok view calls (try_bnd m f) R"
  unfolding try_bnd_def
  by (rule quiet_bnd [OF assms(1)]) (auto intro!: quiet_ret assms(2,3) split: sum.splits)

lemma quiet_weaken: "quiet ok view calls m S \<Longrightarrow> (\<And>v r. S v r \<Longrightarrow> R v r) \<Longrightarrow> quiet ok view calls m R"
  unfolding quiet_def by (auto simp: triple_def)

lemma quiet_fail_with: "quiet ok view calls m (\<lambda>v r. R v (map_err g r)) \<Longrightarrow> quiet ok view calls (fail_with g m) R"
  unfolding fail_with_def by (rule quiet_bnd, assumption) (rule quiet_ret, simp)

lemma runs_try_or_fail:
  assumes "runs ok view calls m v cs R" "\<And>v' cs' x. R (Inl x) v' cs' \<Longrightarrow> Q (Inl e) v' cs'"
    "\<And>x v' cs'. R (Inr x) v' cs' \<Longrightarrow> runs ok view calls (f x) v' cs' Q"
  shows "runs ok view calls (try_bnd (fail_with (\<lambda>_. e) m) f) v cs Q"
proof -
  have "try_bnd (fail_with (\<lambda>_. e) m) f = bnd m (\<lambda>r. case r of Inl _ \<Rightarrow> ret (Inl e) | Inr x \<Rightarrow> f x)"
    by (auto simp: try_bnd_def fail_with_def bnd_def ret_def fun_eq_iff split: prod.splits sum.splits)
  then show ?thesis using assms by (auto intro!: runs_bnd [OF assms(1)] runs_ret split: sum.splits)
qed

lemma adds_refl [simp]: "adds c cs cs"
  by (simp add: adds_def)

lemma adds_snoc: "adds c cs cs' \<Longrightarrow> c x \<Longrightarrow> adds c cs (cs' @ [x])"
  unfolding adds_def by auto

lemma adds_trans: "adds c cs cs' \<Longrightarrow> adds c cs' cs'' \<Longrightarrow> adds c cs cs''"
  unfolding adds_def by (metis append.assoc list_all_append)

lemma adds_mono: "adds c cs cs' \<Longrightarrow> (\<And>x. c x \<Longrightarrow> d x) \<Longrightarrow> adds d cs cs'"
  unfolding adds_def by (auto simp: list_all_iff)

section \<open>The coordinator against the contract\<close>

context transaction_store
begin

abbreviation run :: "('w, 'a) prog \<Rightarrow> StoreView \<Rightarrow> RuntimeCall list \<Rightarrow> ('a \<Rightarrow> StoreView \<Rightarrow> RuntimeCall list \<Rightarrow> bool) \<Rightarrow> bool" where
  "run \<equiv> runs ok view calls"

abbreviation still :: "('w, 'a) prog \<Rightarrow> (StoreView \<Rightarrow> 'a \<Rightarrow> bool) \<Rightarrow> bool" where
  "still \<equiv> quiet ok view calls"

lemma unless_shutdown_run: "Q (Inl e) v cs \<Longrightarrow> run m v cs Q \<Longrightarrow> run (unless_shutdown P e m) v cs Q"
  unfolding unless_shutdown_def by (rule runs_after_quiet [OF shutdown_law]) (auto intro: runs_ret)

lemma unit_err_still:
  "still m (\<lambda>v r. \<forall>x. r = Inr x \<longrightarrow> S v x) \<Longrightarrow> still (unit_err m) (\<lambda>v r. \<forall>x. r = Inr x \<longrightarrow> S v x)"
  unfolding unit_err_def by (rule quiet_fail_with) (simp add: result_simps)

lemma unit_still: "still m (\<lambda>_ _. True) \<Longrightarrow> still (unit_err m) (\<lambda>_ _. True)"
  unfolding unit_err_def by (rule quiet_fail_with)

lemmas load_still = unit_err_still [OF load_law]

lemmas recover_still = unit_err_still [OF recover_law]

lemma generation_still: "still (generation_from_transaction P t) (\<lambda>_ _. True)"
  unfolding generation_from_transaction_def
  by (rule quiet_try_bnd [OF load_still]) (auto intro!: quiet_ret)

lemma transpose_still: "still (transpose_generation P t) (\<lambda>_ _. True)"
  unfolding transpose_generation_def
  by (cases t) (auto intro!: quiet_ret quiet_try_bnd [OF generation_still])

lemma generation_from_manifest_run:
  "run (generation_from_manifest P (v_committed v)) v cs
    (\<lambda>r v' cs'. v' = v \<and> cs' = cs \<and> (\<forall>g. r = Inr g \<longrightarrow> g = committed_generation_of v))"
proof (cases "v_committed v")
  case None
  then show ?thesis by (auto simp: generation_from_manifest_def committed_generation_of_def intro: runs_ret)
next
  case (Some m)
  then have "cm_current m \<in> set (v_named v)" by (simp add: named_transactions_def)
  then show ?thesis
    unfolding generation_from_manifest_def Some option.case
    by (intro runs_try_after_quiet [OF load_still [of "cm_current m"]])
      (auto simp: Some committed_generation_of_def intro!: runs_ret)
qed

lemma retention_still: "still (runtime_retention P m g) (\<lambda>_ _. True)"
  unfolding runtime_retention_def
  by (rule quiet_try_bnd [OF transpose_still], simp, rule quiet_weaken, rule quiet_try_bnd [OF transpose_still])
    (auto intro: quiet_ret)

lemma prune_runtime_still: "still (prune_runtime_state P s) (\<lambda>_ _. True)"
  unfolding prune_runtime_state_def
  by (rule quiet_try_bnd [OF transpose_still], simp, rule quiet_weaken, rule quiet_try_bnd [OF retention_still], simp,
      rule quiet_weaken, rule prune_generations_law) auto

lemma clear_run:
  "run (clear_prepared_and_prune P p) v cs (\<lambda>r v' cs'. cs' = cs \<and> (v' = v \<and> \<not> is_ok r \<or> cleared v p v'))"
proof -
  have clear: "run (unit_err (p_clear_prepared P p)) v cs (\<lambda>r v' cs'. cs' = cs \<and> (v' = v \<and> \<not> is_ok r \<or> cleared v p v'))"
    unfolding unit_err_def runs_def
    by (rule triple_fail_with, rule triple_weaken [OF clear_law [of v cs p]]) (auto simp: is_ok_iff result_simps)
  have "still (bnd (p_prune_unreachable P) (\<lambda>_. try_bnd (unit_err (p_recover P)) (\<lambda>s. prune_runtime_state P s))) (\<lambda>_ _. True)"
    by (rule quiet_bnd [OF prune_law], rule quiet_try_bnd [OF recover_still], simp, rule quiet_weaken [OF prune_runtime_still]) simp
  note rest = runs_quiet [OF this]
  show ?thesis
    unfolding clear_prepared_and_prune_def
    by (intro runs_try_bnd [OF clear]) (auto intro: runs_weaken [OF rest])
qed

lemma confirm_still: "still (confirm P applied g) (\<lambda>_ _. True)"
  unfolding confirm_def
  by (rule quiet_try_bnd [OF unit_still [OF status_law]])
    (auto simp: Let_def intro: quiet_ret confirm_ready_law split: option.splits)

lemma already_still: "still (already_converged P g) (\<lambda>_ _. True)"
  unfolding already_converged_def
  by (rule quiet_bnd [OF status_law])
    (auto intro!: quiet_ret quiet_bnd [OF confirm_ready_law] split: sum.splits option.splits)

text \<open>Runtime calls while the candidate is journalled.\<close>

lemma stop_run:
  "run (unit_err (p_stop P owner)) v cs (\<lambda>_ v' cs'. v' = v \<and> cs' = cs @ [Stopped (v_committed v) (v_journal v)])"
  unfolding unit_err_def runs_def
  by (rule triple_fail_with, rule triple_weaken [OF stop_law [of v cs]]) auto

lemma apply_run:
  "run (p_apply_candidate P owner b) v cs (\<lambda>_ v' cs'. v' = v \<and> cs' = cs @ [Applied b (v_committed v) (v_journal v)])"
  unfolding runs_def by (rule triple_weaken [OF apply_law [of v cs]]) auto

lemma apply_unit_run:
  "run (unit_err (p_apply_candidate P owner b)) v cs
     (\<lambda>_ v' cs'. v' = v \<and> cs' = cs @ [Applied b (v_committed v) (v_journal v)])"
  unfolding unit_err_def by (rule runs_fail_with) (rule apply_run)

lemma restart_run:
  "run (restart_candidate P b) v cs (\<lambda>_ v' cs'. v' = v \<and>
     cs' \<in> {cs @ [Stopped (v_committed v) (v_journal v)],
            cs @ [Stopped (v_committed v) (v_journal v), Applied b (v_committed v) (v_journal v)]})"
  unfolding restart_candidate_def
  by (rule runs_try_bnd [OF stop_run], simp, clarify, rule runs_try_bnd [OF apply_unit_run], simp, clarify,
      rule runs_try_after_quiet [OF confirm_still], simp, rule runs_ret) simp

lemma converge_run:
  assumes "\<And>t. tid = Some t \<Longrightarrow> t \<in> set (v_named v)"
  shows "run (converge_to_transaction P tid) v cs (\<lambda>_ v' cs'. v' = v \<and>
     adds (\<lambda>c. case c of Applied x m j \<Rightarrow> m = v_committed v \<and> j = v_journal v \<and>
           Some (rb_generation x) = Option.bind tid (\<lambda>t. map_option tb_runtime_generation (v_bundles v t))
         | Stopped m j \<Rightarrow> m = v_committed v \<and> j = v_journal v) cs cs')"
proof (cases tid)
  case None
  then show ?thesis
    by (auto simp: converge_to_transaction_def adds_def intro!: runs_weaken [OF stop_run])
next
  case (Some t)
  then have t: "t \<in> set (v_named v)" using assms by simp
  show ?thesis
    unfolding converge_to_transaction_def Some option.case
  proof (rule runs_try_after_quiet [OF load_still])
    fix b assume "\<forall>x. Inr b = Inr x \<longrightarrow> t \<in> set (v_named v) \<longrightarrow> v_bundles v t = Some x"
    then have b: "v_bundles v t = Some b" using t by simp
    show "run (try_bnd (p_resolve P b) (\<lambda>bundle.
        if rb_generation bundle \<noteq> tb_runtime_generation b then ret (Err ())
        else
          bnd (already_converged P (rb_generation bundle)) (\<lambda>done.
          if done then ret (Ok ())
          else
            try_bnd (unit_err (p_stop P (p_owner P))) (\<lambda>_.
            try_bnd (unit_err (p_apply_candidate P (p_owner P) bundle)) (\<lambda>applied.
            confirm P applied (rb_generation bundle)))))) v cs (\<lambda>_ v' cs'. v' = v \<and>
       adds (\<lambda>c. case c of Applied x m j \<Rightarrow> m = v_committed v \<and> j = v_journal v \<and>
           Some (rb_generation x) = Option.bind (Some t) (\<lambda>t. map_option tb_runtime_generation (v_bundles v t))
         | Stopped m j \<Rightarrow> m = v_committed v \<and> j = v_journal v) cs cs')"
      by (rule runs_try_after_quiet [OF resolve_law], simp)
        (auto intro!: runs_ret runs_after_quiet [OF already_still] runs_try_bnd [OF stop_run] runs_try_bnd [OF apply_unit_run]
          runs_weaken [OF runs_quiet [OF confirm_still]] simp: adds_def b)
  qed simp
qed

lemma clear_staged_run:
  assumes "v_committed v = m"
  shows "run (clear_prepared_and_prune P p) v cs
    (\<lambda>r v' cs'. cs' = cs \<and> v_committed v' = m \<and> (is_ok r \<longrightarrow> v_journal v' = None))"
  by (rule runs_weaken [OF clear_run]) (use assms in \<open>auto simp: cleared_def\<close>)

lemma rollback_run:
  assumes "ready candidate v0 p v"
  shows "run (rollback P p target) v cs (\<lambda>r v' cs'. adds (call_ok v0 (rb_generation (ct_runtime candidate))) cs cs' \<and>
    v_committed v' = v_committed v0 \<and> (is_converged r \<longrightarrow> v_journal v' = None))"
proof -
  have staged: "v_journal v = Some p" "v_committed v = v_committed v0" "pt_previous p = map_option cm_current (v_committed v0)"
    using assms by (simp_all add: ready_def staged_def)
  have named: "t \<in> set (v_named v)" if "pt_previous p = Some t" for t
    using that staged by (auto simp: named_transactions_def)
  have gen: "Option.bind (pt_previous p) (\<lambda>t. map_option tb_runtime_generation (v_bundles v t)) = committed_generation_of v"
    using staged by (cases "v_committed v0") (simp_all add: committed_generation_of_def)
  have conv: "run (converge_to_transaction P (pt_previous p)) v cs (\<lambda>_ v' cs'. v' = v \<and>
     adds (\<lambda>c. case c of Applied x m j \<Rightarrow> m = v_committed v \<and> j = v_journal v \<and>
           Some (rb_generation x) = committed_generation_of v
         | Stopped m j \<Rightarrow> m = v_committed v \<and> j = v_journal v) cs cs')"
    unfolding gen [symmetric] by (rule converge_run) (rule named)
  have "run (converge_to_transaction P (pt_previous p)) v cs
     (\<lambda>_ v' cs'. v' = v \<and> adds (call_ok v0 (rb_generation (ct_runtime candidate))) cs cs')"
    by (rule runs_weaken [OF conv])
      (use assms staged(1,2) in \<open>auto simp: ready_def staged_def elim!: adds_mono split: RuntimeCall.splits\<close>)
  then show ?thesis
    unfolding rollback_def
    by (rule runs_bnd)
      (use staged(2) in \<open>auto intro!: runs_ret runs_bnd [OF clear_staged_run [of _ "v_committed v0"]]\<close>)
qed

lemma recover_failed_run:
  assumes "ready candidate v0 p v"
  shows "run (recover_failed_candidate P p target mode) v cs
    (\<lambda>r v' cs'. adds (call_ok v0 (rb_generation (ct_runtime candidate))) cs cs' \<and>
      v_committed v' = v_committed v0 \<and> (is_converged r \<longrightarrow> v_journal v' = None))"
proof (cases mode)
  case ConvergeCommitted
  then show ?thesis using rollback_run [OF assms] by (simp add: recover_failed_candidate_def)
next
  case StopStartupCandidate
  have "run (p_stop P (p_owner P)) v cs (\<lambda>_ v' cs'. v' = v \<and> cs' = cs @ [Stopped (v_committed v) (v_journal v)])"
    unfolding runs_def by (rule triple_weaken [OF stop_law [of v cs]]) auto
  then show ?thesis
    unfolding recover_failed_candidate_def StopStartupCandidate FailureRecoveryMode.case
    by (rule runs_bnd)
      (use assms in \<open>auto simp: adds_def ready_def staged_def intro!: runs_ret runs_bnd [OF clear_staged_run [of _ "v_committed v0"]]\<close>)
qed

lemma fail_applied_run:
  assumes "ready candidate v0 p v" "adds (call_ok v0 (rb_generation (ct_runtime candidate))) cs0 cs"
  shows "run (fail_applied P candidate mode g p kind) v cs (tx_result candidate v0 cs0)"
  unfolding fail_applied_def
  by (rule runs_bnd [OF recover_failed_run [OF assms(1)]], rule runs_ret)
    (use assms(2) in \<open>auto simp: tx_result_def tx_outcome_def tx_error_def intro: adds_trans\<close>)

lemma committed_clear_run:
  assumes "v_committed v1 = Some m" "cm_current m = pt_candidate p" "v_bundles v1 (pt_candidate p) = Some b"
  shows "run (clear_prepared_and_prune P p) v1 cs (\<lambda>r v' cs'. cs' = cs \<and>
    (\<exists>m. v_committed v' = Some m \<and> v_bundles v' (cm_current m) = Some b) \<and> (is_ok r \<longrightarrow> v_journal v' = None))"
proof (rule runs_weaken [OF clear_run], intro conjI)
  fix r v' cs' assume r: "cs' = cs \<and> (v' = v1 \<and> \<not> is_ok r \<or> cleared v1 p v')"
  then show "cs' = cs" "is_ok r \<longrightarrow> v_journal v' = None" by (auto simp: cleared_def)
  have m: "v_committed v' = Some m" using r assms(1) by (auto simp: cleared_def)
  then have "v_bundles v' (pt_candidate p) = v_bundles v1 (pt_candidate p)"
    using r assms(2) by (auto simp: cleared_def named_transactions_def)
  then show "\<exists>m. v_committed v' = Some m \<and> v_bundles v' (cm_current m) = Some b" using m assms by simp
qed

lemma success_result:
  assumes "ready candidate v0 p v" "adds (call_ok v0 (rb_generation (ct_runtime candidate))) cs0 cs"
    "\<exists>m. v_committed v' = Some m \<and> v_bundles v' (cm_current m) = Some (ct_transaction candidate)"
    "\<not> is_pending recovery \<longrightarrow> v_journal v' = None"
  shows "tx_result candidate v0 cs0 (Ok \<lparr>sx_candidate_generation = rb_generation (ct_runtime candidate),
    sx_committed_generation = rb_generation (ct_runtime candidate), sx_apply_path = via, sx_recovery = recovery\<rparr>) v' cs"
  using assms by (auto simp: tx_result_def tx_outcome_def ready_def committed_generation_of_def)

lemma commit_failure_run:
  assumes ready: "ready candidate v0 p v" and adds: "adds (call_ok v0 (rb_generation (ct_runtime candidate))) cs0 cs"
    and v1: "v1 = v \<or> committed_by v p v1"
  shows "run (try_bnd (recover_commit_failure P p (rb_generation (ct_runtime candidate)) g mode) (\<lambda>recovery.
      ret (Ok \<lparr>sx_candidate_generation = rb_generation (ct_runtime candidate),
        sx_committed_generation = rb_generation (ct_runtime candidate), sx_apply_path = via, sx_recovery = recovery\<rparr>)))
    v1 cs (tx_result candidate v0 cs0)"
proof -
  have "run (recover_commit_failure P p (rb_generation (ct_runtime candidate)) g mode) v1 cs (\<lambda>r v' cs'. case r of
      Inl e \<Rightarrow> tx_result candidate v0 cs0 (Inl e) v' cs'
    | Inr recovery \<Rightarrow> cs' = cs \<and> (\<exists>m. v_committed v' = Some m \<and> v_bundles v' (cm_current m) = Some (ct_transaction candidate)) \<and>
        (\<not> is_pending recovery \<longrightarrow> v_journal v' = None))" (is "run _ _ _ ?R")
    unfolding recover_commit_failure_def
  proof (rule runs_after_quiet [OF recover_law])
    fix r assume r: "\<forall>s. r = Inr s \<longrightarrow> rv_committed s = v_committed v1 \<and> rv_prepared s = v_journal v1"
    show "run (case r of
        Inl _ \<Rightarrow> ret (Err (tx_error TxCommit (Some (rb_generation (ct_runtime candidate))) g (Failed g)))
      | Inr state \<Rightarrow>
          if map_option cm_current (rv_committed state) = Some (pt_candidate p)
          then bnd (clear_prepared_and_prune P p) (\<lambda>r. ret (Ok (if is_ok r
              then Converged (Some (rb_generation (ct_runtime candidate))) else Pending (Some (rb_generation (ct_runtime candidate))))))
          else bnd (recover_failed_candidate P p g mode) (\<lambda>recovery.
            ret (Err (tx_error TxCommit (Some (rb_generation (ct_runtime candidate))) g recovery)))) v1 cs ?R"
    proof (cases r)
      case (Inl e)
      have "tx_outcome candidate v0 (Inl (tx_error TxCommit (Some (rb_generation (ct_runtime candidate))) g (Failed g))) v1"
        using v1 ready by (auto simp: tx_outcome_def tx_error_def ready_def staged_def committed_by_def)
      then show ?thesis using adds Inl by (auto simp: tx_result_def intro!: runs_ret)
    next
      case (Inr s)
      then have s: "rv_committed s = v_committed v1" using r by simp
      show ?thesis
      proof (cases "map_option cm_current (v_committed v1) = Some (pt_candidate p)")
        case True
        then obtain m where m: "v_committed v1 = Some m" "cm_current m = pt_candidate p" by auto
        have "v_bundles v1 (pt_candidate p) = Some (ct_transaction candidate)"
          using v1 ready by (auto simp: committed_by_def ready_def staged_def)
        from committed_clear_run [OF m this] show ?thesis
          unfolding Inr sum.case s if_P [OF True]
          by (rule runs_bnd) (auto intro!: runs_ret)
      next
        case False
        then have "v1 = v" using v1 by (auto simp: committed_by_def)
        then show ?thesis
          unfolding Inr sum.case s if_not_P [OF False] using adds
          by (auto simp: tx_result_def tx_outcome_def tx_error_def intro!: runs_bnd [OF recover_failed_run [OF ready]] runs_ret
              intro: adds_trans)
      qed
    qed
  qed
  then show ?thesis
    by (rule runs_try_bnd) (auto intro!: runs_ret success_result [OF ready adds])
qed

lemma commit_run:
  "run (p_commit_prepared P p) v cs (\<lambda>r v' cs'. cs' = cs \<and> (v' = v \<and> \<not> is_ok r \<or> committed_by v p v'))"
  unfolding runs_def by (rule triple_weaken [OF commit_law [of v cs]]) auto

lemma commit_candidate_run:
  assumes ready: "ready candidate v0 p v" and adds: "adds (call_ok v0 (rb_generation (ct_runtime candidate))) cs0 cs"
  shows "run (commit_candidate P candidate mode g p via) v cs (tx_result candidate v0 cs0)"
  unfolding commit_candidate_def Let_def
proof (rule unless_shutdown_run)
  show "tx_result candidate v0 cs0 (Inl (shutdown_error (rb_generation (ct_runtime candidate)) g True)) v cs"
    using assms by (simp add: tx_result_def tx_outcome_def shutdown_error_def tx_error_def ready_def staged_def)
next
  let ?finish = "\<lambda>recovery. ret (Ok \<lparr>sx_candidate_generation = rb_generation (ct_runtime candidate),
        sx_committed_generation = rb_generation (ct_runtime candidate), sx_apply_path = via, sx_recovery = recovery\<rparr>)"
  show "run (bnd (p_commit_prepared P p) (\<lambda>committed. try_bnd
       (if \<not> is_ok committed then recover_commit_failure P p (rb_generation (ct_runtime candidate)) g mode
        else bnd (clear_prepared_and_prune P p) (\<lambda>cleared.
          ret (Ok (if \<not> is_ok cleared then Pending (Some (rb_generation (ct_runtime candidate))) else NotRequired)))) ?finish))
     v cs (tx_result candidate v0 cs0)"
  proof (rule runs_bnd [OF commit_run])
    fix r v1 cs1 assume r: "cs1 = cs \<and> (v1 = v \<and> \<not> is_ok r \<or> committed_by v p v1)"
    show "run (try_bnd
       (if \<not> is_ok r then recover_commit_failure P p (rb_generation (ct_runtime candidate)) g mode
        else bnd (clear_prepared_and_prune P p) (\<lambda>cleared.
          ret (Ok (if \<not> is_ok cleared then Pending (Some (rb_generation (ct_runtime candidate))) else NotRequired)))) ?finish)
       v1 cs1 (tx_result candidate v0 cs0)"
    proof (cases "is_ok r")
      case False
      then show ?thesis using r commit_failure_run [OF ready adds] by simp
    next
      case True
      then have by_p: "committed_by v p v1" "cs1 = cs" using r by auto
      have m: "v_committed v1 = Some \<lparr>cm_current = pt_candidate p, cm_previous = pt_previous p\<rparr>"
        and b: "v_bundles v1 (pt_candidate p) = Some (ct_transaction candidate)"
        using by_p(1) ready by (auto simp: committed_by_def ready_def staged_def)
      have clear: "run (bnd (clear_prepared_and_prune P p) (\<lambda>cleared.
          ret (Ok (if \<not> is_ok cleared then Pending (Some (rb_generation (ct_runtime candidate))) else NotRequired)))) v1 cs1
        (\<lambda>r v' cs'. cs' = cs \<and> (\<exists>m. v_committed v' = Some m \<and> v_bundles v' (cm_current m) = Some (ct_transaction candidate)) \<and>
          (\<exists>recovery. r = Inr recovery \<and> (\<not> is_pending recovery \<longrightarrow> v_journal v' = None)))"
        by (rule runs_bnd [OF committed_clear_run [OF m _ b]]) (use by_p in \<open>auto intro!: runs_ret\<close>)
      have "run (try_bnd (bnd (clear_prepared_and_prune P p) (\<lambda>cleared.
          ret (Ok (if \<not> is_ok cleared then Pending (Some (rb_generation (ct_runtime candidate))) else NotRequired)))) ?finish)
        v1 cs1 (tx_result candidate v0 cs0)"
        by (rule runs_try_bnd [OF clear]) (auto intro!: runs_ret success_result [OF ready adds])
      then show ?thesis using True by simp
    qed
  qed
qed

lemma interrupted_result:
  assumes "ready candidate v0 p v" "adds (call_ok v0 (rb_generation (ct_runtime candidate))) cs0 cs"
  shows "tx_result candidate v0 cs0 (Inl (shutdown_error (rb_generation (ct_runtime candidate)) g True)) v cs"
  using assms by (simp add: tx_result_def tx_outcome_def shutdown_error_def tx_error_def ready_def staged_def)

lemma apply_prepared_run:
  assumes ready: "ready candidate v0 p v" and adds: "adds (call_ok v0 (rb_generation (ct_runtime candidate))) cs0 cs"
  shows "run (apply_prepared P candidate mode g p) v cs (tx_result candidate v0 cs0)"
proof -
  let ?apply = "cs @ [Applied (ct_runtime candidate) (v_committed v) (v_journal v)]"
  have ok: "call_ok v0 (rb_generation (ct_runtime candidate)) (Applied (ct_runtime candidate) (v_committed v) (v_journal v))"
    "call_ok v0 (rb_generation (ct_runtime candidate)) (Stopped (v_committed v) (v_journal v))"
    using ready by (simp_all add: ready_def staged_def)
  have applied: "adds (call_ok v0 (rb_generation (ct_runtime candidate))) cs0 ?apply"
    by (rule adds_snoc [OF adds ok(1)])
  have stopped: "adds (call_ok v0 (rb_generation (ct_runtime candidate))) cs0 (?apply @ [Stopped (v_committed v) (v_journal v)])"
    by (rule adds_snoc [OF applied ok(2)])
  note restarted = adds_snoc [OF stopped ok(1)]
  have direct: "run (bnd (confirm P a (rb_generation (ct_runtime candidate))) (\<lambda>confirmation.
         unless_shutdown P (shutdown_error (rb_generation (ct_runtime candidate)) g True) (
         if \<not> is_ok confirmation then fail_applied P candidate mode g p TxHealth
         else commit_candidate P candidate mode g p Direct))) v ?apply (tx_result candidate v0 cs0)" for a
    by (rule runs_after_quiet [OF confirm_still], rule unless_shutdown_run, rule interrupted_result [OF ready applied])
      (auto intro: fail_applied_run [OF ready applied] commit_candidate_run [OF ready applied])
  have indeterminate: "run (bnd (restart_candidate P (ct_runtime candidate)) (\<lambda>restarted.
         if \<not> is_ok restarted then fail_applied P candidate mode g p TxIndeterminateApply
         else commit_candidate P candidate mode g p CandidateRestart)) v ?apply (tx_result candidate v0 cs0)"
    by (rule runs_bnd [OF restart_run])
      (use stopped restarted in \<open>auto intro!: fail_applied_run [OF ready] commit_candidate_run [OF ready]\<close>)
  show ?thesis
    unfolding apply_prepared_def Let_def
    by (rule unless_shutdown_run, rule interrupted_result [OF ready adds], rule runs_bnd [OF apply_run], clarify,
        rule unless_shutdown_run, rule interrupted_result [OF ready applied])
      (auto intro: direct indeterminate fail_applied_run [OF ready applied] split: sum.splits RuntimeApplyFailure.splits)
qed

lemma unapplied_run:
  assumes "v_committed v = v_committed v0" "adds (call_ok v0 (rb_generation (ct_runtime candidate))) cs0 cs"
  shows "run (bnd (clear_prepared_unapplied P p g) (\<lambda>recovery.
     ret (Err (tx_error kind (Some (rb_generation (ct_runtime candidate))) g recovery)))) v cs (tx_result candidate v0 cs0)"
proof -
  have "run (clear_prepared_unapplied P p g) v cs (\<lambda>r v' cs'. cs' = cs \<and> v_committed v' = v_committed v0 \<and>
      (is_converged r \<longrightarrow> v_journal v' = None))"
    unfolding clear_prepared_unapplied_def
    by (rule runs_bnd [OF clear_staged_run [OF assms(1)]]) (auto intro!: runs_ret)
  then show ?thesis
    by (rule runs_bnd) (use assms(2) in \<open>auto simp: tx_result_def tx_outcome_def tx_error_def intro!: runs_ret\<close>)
qed

lemma validate_prepared_run:
  assumes ready: "ready candidate v0 p v" and adds: "adds (call_ok v0 (rb_generation (ct_runtime candidate))) cs0 cs"
  shows "run (validate_prepared P candidate mode g p) v cs (tx_result candidate v0 cs0)"
proof -
  have committed: "v_committed v = v_committed v0" using ready by (simp add: ready_def staged_def)
  have poisoned: "tx_result candidate v0 cs0
      (Inl (tx_error TxLockPoisoned (Some (rb_generation (ct_runtime candidate))) g (Pending g))) v cs"
    using committed adds by (simp add: tx_result_def tx_outcome_def tx_error_def)
  show ?thesis
    unfolding validate_prepared_def Let_def
    by (rule unless_shutdown_run, rule interrupted_result [OF ready adds], rule runs_after_quiet [OF validate_law],
        rule unless_shutdown_run, rule interrupted_result [OF ready adds])
      (auto intro!: unapplied_run [OF committed adds] runs_after_quiet [OF revisions_law] runs_after_quiet [OF lock_lifecycle_law]
        runs_ret poisoned apply_prepared_run [OF ready adds])
qed

lemma prepare_run:
  "run (p_prepare P b) v cs (\<lambda>r v' cs'. cs' = cs \<and>
      (case r of Inl _ \<Rightarrow> v_committed v' = v_committed v \<and> (v_journal v = None \<or> v_journal v' = v_journal v)
       | Inr p \<Rightarrow> journalled v b p v'))"
  unfolding runs_def by (rule triple_weaken [OF prepare_law [of v cs]]) auto

lemma unjournalled_run:
  assumes "v_committed v = v_committed v0" "adds (call_ok v0 (rb_generation (ct_runtime candidate))) cs0 cs"
  shows "run (bnd (clear_unapplied_journal P g) (\<lambda>recovery.
     ret (Err (tx_error TxPrepare (Some (rb_generation (ct_runtime candidate))) g recovery)))) v cs (tx_result candidate v0 cs0)"
proof -
  have "run (clear_unapplied_journal P g) v cs (\<lambda>r v' cs'. cs' = cs \<and> v_committed v' = v_committed v0 \<and>
      (is_converged r \<longrightarrow> v_journal v' = None))"
    unfolding clear_unapplied_journal_def clear_prepared_unapplied_def
    by (rule runs_after_quiet [OF recover_law])
      (auto simp: assms(1) intro!: runs_ret runs_bnd [OF clear_staged_run [OF assms(1)]] split: sum.splits option.splits)
  then show ?thesis
    by (rule runs_bnd) (use assms(2) in \<open>auto simp: tx_result_def tx_outcome_def tx_error_def intro!: runs_ret\<close>)
qed

lemma journalled_ready:
  assumes "journalled v b p v'" "b = ct_transaction candidate" "v_committed v = v_committed v0"
    "committed_generation_of v = committed_generation_of v0"
    "tb_runtime_generation b = rb_generation (ct_runtime candidate)"
    "is_newer (committed_generation_of v0) (rb_generation (ct_runtime candidate))"
  shows "ready candidate v0 p v'"
proof -
  have "committed_generation_of v' = committed_generation_of v \<or> committed_generation_of v' = Some (tb_runtime_generation b)"
  proof (cases "v_committed v")
    case None
    then show ?thesis using assms(1) by (simp add: committed_generation_of_def journalled_def)
  next
    case (Some m)
    then have "cm_current m \<in> set (v_named v)" by (simp add: named_transactions_def)
    then show ?thesis using assms(1) Some
      by (cases "cm_current m = pt_candidate p") (auto simp: committed_generation_of_def journalled_def)
  qed
  then show ?thesis using assms by (simp add: ready_def staged_def journalled_def)
qed

lemma validate_candidate_still:
  "still (validate_candidate P candidate g) (\<lambda>_ r. case r of
     Inl e \<Rightarrow> ex_recovery e = NotRequired
   | Inr _ \<Rightarrow> is_newer g (rb_generation (ct_runtime candidate)) \<and>
       tb_runtime_generation (ct_transaction candidate) = rb_generation (ct_runtime candidate))"
  unfolding validate_candidate_def
  by (rule quiet_bnd [OF revisions_law])
    (auto simp: tx_error_def Let_def structurally_valid_def is_newer_def intro!: quiet_ret quiet_bnd [OF read_object_law])

lemma early_result:
  assumes "v_committed v = v_committed v0" "\<not> is_converged (ex_recovery e)"
  shows "tx_result candidate v0 cs (Inl e) v cs"
  using assms by (simp add: tx_result_def tx_outcome_def)

lemma tx_error_recovery [simp]: "ex_recovery (tx_error k c m r) = r" "ex_kind (tx_error k c m r) = k"
  by (simp_all add: tx_error_def)

lemma journal_candidate_run:
  assumes same: "v_committed v = v_committed v0" "committed_generation_of v = committed_generation_of v0"
  shows "run (journal_candidate P candidate mode (committed_generation_of v0) s) v cs (tx_result candidate v0 cs)"
proof -
  have prepare: "run (bnd (p_prepare P (ct_transaction candidate)) (\<lambda>r. case r of
        Inl _ \<Rightarrow> bnd (clear_unapplied_journal P (committed_generation_of v0)) (\<lambda>recovery.
             ret (Err (tx_error TxPrepare (Some (rb_generation (ct_runtime candidate))) (committed_generation_of v0) recovery)))
      | Inr prepared \<Rightarrow> validate_prepared P candidate mode (committed_generation_of v0) prepared)) v cs (tx_result candidate v0 cs)"
    if "is_newer (committed_generation_of v0) (rb_generation (ct_runtime candidate)) \<and>
       tb_runtime_generation (ct_transaction candidate) = rb_generation (ct_runtime candidate)"
    by (rule runs_bnd [OF prepare_run])
      (use that same in \<open>auto intro: unjournalled_run validate_prepared_run [OF journalled_ready] split: sum.splits\<close>)
  show ?thesis
    unfolding journal_candidate_def Let_def
    by (auto intro!: runs_ret early_result [OF same(1)] runs_try_after_quiet [OF validate_candidate_still]
        runs_try_or_fail [OF runs_quiet [OF retention_still]] runs_try_or_fail [OF runs_quiet [OF prune_generations_law]]
        prepare)
qed

lemma cleared_generation: "cleared v p v' \<Longrightarrow> committed_generation_of v' = committed_generation_of v"
  by (cases "v_committed v") (auto simp: cleared_def committed_generation_of_def named_transactions_def)

lemma cleared_keeps:
  "cleared v p v' \<Longrightarrow> v_committed v' = v_committed v \<and> committed_generation_of v' = committed_generation_of v \<and> v_journal v' = None"
  using cleared_generation by (simp add: cleared_def)

lemma execute_guarded_run: "run (execute_guarded P candidate mode) v cs (tx_result candidate v cs)"
proof -
  let ?g = "committed_generation_of v"
  have journal: "run (journal_candidate P candidate mode ?g s) v cs (tx_result candidate v cs)" for s
    by (rule journal_candidate_run) simp_all
  have clear: "run (try_bnd (fail_with (\<lambda>_. tx_error TxRecoveryRequired (Some (rb_generation (ct_runtime candidate))) ?g (Pending ?g))
        (clear_prepared_and_prune P p)) (\<lambda>_.
      try_bnd (fail_with (\<lambda>_. tx_error TxRecovery (Some (rb_generation (ct_runtime candidate))) ?g (Failed ?g)) (p_recover P)) (\<lambda>s.
      journal_candidate P candidate mode ?g s))) v cs (tx_result candidate v cs)" for p
  proof (rule runs_try_or_fail [OF clear_run])
    fix x v' cs' assume "cs' = cs \<and> (v' = v \<and> \<not> is_ok (Inl x :: unit + unit) \<or> cleared v p v')"
    then show "tx_result candidate v cs
        (Inl (tx_error TxRecoveryRequired (Some (rb_generation (ct_runtime candidate))) ?g (Pending ?g))) v' cs'"
      by (auto simp: cleared_def intro!: early_result)
  next
    fix x v' cs' assume "cs' = cs \<and> (v' = v \<and> \<not> is_ok (Inr x :: unit + unit) \<or> cleared v p v')"
    then have "cs' = cs" "v_committed v' = v_committed v" "committed_generation_of v' = ?g"
      by (auto dest: cleared_keeps)
    then show "run (try_bnd (fail_with (\<lambda>_. tx_error TxRecovery (Some (rb_generation (ct_runtime candidate))) ?g (Failed ?g)) (p_recover P))
        (\<lambda>s. journal_candidate P candidate mode ?g s)) v' cs' (tx_result candidate v cs)"
      by (auto intro!: runs_try_or_fail [OF runs_quiet [OF recover_law]] early_result journal_candidate_run)
  qed
  show ?thesis
    unfolding execute_guarded_def Let_def
    by (rule unless_shutdown_run, simp add: early_result shutdown_error_def, rule runs_try_or_fail [OF runs_quiet [OF recover_law]],
        simp add: early_result, clarsimp, rule runs_try_or_fail [OF generation_from_manifest_run], simp add: early_result, clarsimp,
        rule unless_shutdown_run, simp add: early_result shutdown_error_def)
      (auto intro: journal clear split: option.splits)
qed

section \<open>Startup\<close>

lemma read_committed_run:
  "run (read_committed P) v cs (\<lambda>r v' cs'. v' = v \<and> cs' = cs \<and>
    (\<forall>s g. r = Inr (s, g) \<longrightarrow> rv_committed s = v_committed v \<and> rv_prepared s = v_journal v \<and> g = committed_generation_of v))"
  unfolding read_committed_def
  by (rule runs_try_or_fail [OF runs_quiet [OF recover_law]], simp, clarsimp, rule runs_try_or_fail [OF generation_from_manifest_run],
      simp, clarsimp, rule runs_try_or_fail [OF runs_quiet [OF prune_runtime_still]], simp, rule runs_ret, simp)

lemma clear_at_startup_run:
  "run (clear_at_startup P g (v_journal v)) v cs (\<lambda>r v' cs'. cs' = cs \<and> v_committed v' = v_committed v \<and>
    committed_generation_of v' = committed_generation_of v \<and> (is_ok r \<longrightarrow> v_journal v' = None))"
proof (cases "v_journal v")
  case None
  then show ?thesis by (auto simp: clear_at_startup_def intro: runs_ret)
next
  case (Some p)
  then show ?thesis
    unfolding clear_at_startup_def Some option.case
    by (intro runs_fail_with, intro runs_weaken [OF clear_run])
      (auto simp: is_ok_iff result_simps dest: cleared_keeps)
qed

lemma with_coordinator_run:
  "Q (Inl (tx_simple TxLockPoisoned)) v cs \<Longrightarrow> run m v cs Q \<Longrightarrow> run (with_coordinator P m) v cs Q"
  unfolding with_coordinator_def by (rule runs_after_quiet [OF lock_coordinator_law]) (auto intro: runs_ret)

lemma converge_to_manifest_run:
  "run (converge_to_manifest P (v_committed v)) v cs (\<lambda>_ v' cs'. v' = v \<and>
     adds (\<lambda>c. case c of Applied x m j \<Rightarrow> Some (rb_generation x) = committed_generation_of v | Stopped m j \<Rightarrow> True) cs cs')"
proof -
  have gen: "Option.bind (map_option cm_current (v_committed v)) (\<lambda>t. map_option tb_runtime_generation (v_bundles v t)) =
      committed_generation_of v"
    by (cases "v_committed v") (simp_all add: committed_generation_of_def)
  show ?thesis
    unfolding converge_to_manifest_def
    by (rule runs_weaken [OF converge_run])
      (auto simp: named_transactions_def gen elim!: adds_mono split: RuntimeCall.splits)
qed

lemma recover_startup_run: "run (recover_startup P) v cs (startup_result v cs)"
proof -
  have finish: "run (try_bnd (clear_at_startup P g (v_journal v)) (\<lambda>_.
      ret (Ok \<lparr>su_committed_generation = committed_generation_of v, su_cleared_prepared_journal = (v_journal v \<noteq> None)\<rparr>)))
     v cs' (startup_result v cs)"
    if "adds (\<lambda>c. case c of Applied x m j \<Rightarrow> Some (rb_generation x) = committed_generation_of v | Stopped m j \<Rightarrow> True) cs cs'" for g cs'
    by (rule runs_try_bnd [OF clear_at_startup_run]) (use that in \<open>auto simp: startup_result_def intro!: runs_ret\<close>)
  show ?thesis
    unfolding recover_startup_def
    by (rule with_coordinator_run, simp add: startup_result_def, rule runs_after_quiet [OF lock_lifecycle_law])
      (auto simp: startup_result_def intro!: runs_ret runs_try_bnd [OF read_committed_run]
        runs_try_or_fail [OF converge_to_manifest_run] finish [simplified])
qed

lemma reapply_newer:
  "checked_add (highest_generation g h) 1 = Some c \<Longrightarrow> c > 0 \<Longrightarrow> is_newer g c"
  by (cases g; cases h)
    (auto simp: highest_generation_def is_newer_def max_def word_less_nat_alt word_le_nat_alt rust_arith split: if_splits)

lemma prepared_generation_still: "still (prepared_generation P p) (\<lambda>_ _. True)"
  unfolding prepared_generation_def
  by (cases p) (auto intro!: quiet_ret quiet_bnd [OF load_law])

lemma prepare_startup_reapply_run: "run (prepare_startup_reapply P expected) v cs (reapply_result v cs)"
proof -
  have err: "reapply_result v cs (Inl e) v cs" for e by (simp add: reapply_result_def)
  have finish: "run (try_bnd (clear_at_startup P g (v_journal v)) (\<lambda>_.
      ret (Ok \<lparr>sy_committed_generation = committed_generation_of v, sy_candidate_generation = c,
        sy_cleared_prepared_journal = (v_journal v \<noteq> None)\<rparr>))) v cs (reapply_result v cs)"
    if "is_newer (committed_generation_of v) c" for g c
    by (rule runs_try_bnd [OF clear_at_startup_run]) (use that in \<open>auto simp: reapply_result_def intro!: runs_ret\<close>)
  show ?thesis
    unfolding prepare_startup_reapply_def
    by (rule with_coordinator_run, rule err)
      (auto intro!: err runs_ret runs_try_bnd [OF read_committed_run] runs_after_quiet [OF prepared_generation_still]
        finish [simplified] reapply_newer split: option.splits)
qed

end

section \<open>The persistence store behind the coordinator\<close>

text \<open>The world of the program: the disk, everything behind the other ports, and the runtime calls so far.\<close>

record 'e World =
  w_disk :: Disk
  w_env :: 'e
  w_calls :: "RuntimeCall list"

record 'e Environment =
  e_owner :: OwnerSessionProof
  e_apply_candidate :: "OwnerSessionProof \<Rightarrow> RuntimeBundle \<Rightarrow> ('e, ApplyCandidateResult, RuntimeApplyFailure) try_prog"
  e_status :: "OwnerSessionProof \<Rightarrow> ('e, CoreRuntimeStatus, CoreRuntimeErrorKind) try_prog"
  e_stop :: "OwnerSessionProof \<Rightarrow> ('e, unit, CoreRuntimeErrorKind) try_prog"
  e_validate :: "EffectiveConfiguration \<Rightarrow> string \<Rightarrow> ('e, unit, unit) try_prog"
  e_confirm_ready :: "ManagedCoreHandle \<Rightarrow> ('e, unit, unit) try_prog"
  e_current_revisions :: "('e, CandidateRevisions) prog"
  e_resolve :: "TransactionBundle \<Rightarrow> ('e, RuntimeBundle, unit) try_prog"
  e_prune_generations :: "RuntimeGenerationRetention \<Rightarrow> ('e, unit, unit) try_prog"
  e_shutdown_requested :: "('e, bool) prog"
  e_lock_coordinator :: "('e, bool) prog"
  e_try_lock_coordinator :: "('e, TryLock) prog"
  e_lock_lifecycle :: "('e, bool) prog"

definition on_disk :: "(Disk, 'a) prog \<Rightarrow> ('e World, 'a) prog" where
  "on_disk m w = (case m (w_disk w) of (r, d) \<Rightarrow> (r, w\<lparr>w_disk := d\<rparr>))"

definition on_env :: "('e, 'a) prog \<Rightarrow> ('e World, 'a) prog" where
  "on_env m w = (case m (w_env w) of (r, e) \<Rightarrow> (r, w\<lparr>w_env := e\<rparr>))"

definition recording :: "Codec \<Rightarrow> (CommittedManifest option \<Rightarrow> PreparedTransaction option \<Rightarrow> RuntimeCall) \<Rightarrow>
    ('e, 'a) prog \<Rightarrow> ('e World, 'a) prog" where
  "recording c call m w =
    on_env m (w\<lparr>w_calls := w_calls w @ [call (manifest_of c (w_disk w)) (journal_of c (w_disk w))]\<rparr>)"

definition world_ports :: "Codec \<Rightarrow> 'e Environment \<Rightarrow> 'e World Ports" where
  "world_ports c env = \<lparr>
     p_owner = e_owner env,
     p_read_object_limited = (\<lambda>i n. on_disk (read_object_limited c i n)),
     p_prepare = (\<lambda>b. on_disk (prepare c b)),
     p_recover = on_disk (recover c),
     p_commit_prepared = (\<lambda>p. on_disk (commit_prepared c p)),
     p_clear_prepared = (\<lambda>p. on_disk (clear_prepared c p)),
     p_load_transaction = (\<lambda>t. on_disk (load_transaction c t)),
     p_prune_unreachable = on_disk (prune_unreachable c),
     p_apply_candidate = (\<lambda>owner b. recording c (Applied b) (e_apply_candidate env owner b)),
     p_status = (\<lambda>owner. on_env (e_status env owner)),
     p_stop = (\<lambda>owner. recording c Stopped (e_stop env owner)),
     p_validate = (\<lambda>configuration root. on_env (e_validate env configuration root)),
     p_confirm_ready = (\<lambda>core. on_env (e_confirm_ready env core)),
     p_current_revisions = on_env (e_current_revisions env),
     p_resolve = (\<lambda>b. on_env (e_resolve env b)),
     p_prune_generations = (\<lambda>retention. on_env (e_prune_generations env retention)),
     p_shutdown_requested = on_env (e_shutdown_requested env),
     p_lock_coordinator = on_env (e_lock_coordinator env),
     p_try_lock_coordinator = on_env (e_try_lock_coordinator env),
     p_lock_lifecycle = on_env (e_lock_lifecycle env)\<rparr>"

definition files_view :: "Codec \<Rightarrow> 'a Files_scheme \<Rightarrow> StoreView" where
  "files_view c d = \<lparr>v_committed = manifest_of c d, v_journal = journal_of c d,
     v_bundles = (\<lambda>t. if t \<in> set (live_transactions c d) then bundle_at c d t else None)\<rparr>"

definition world_ok :: "Codec \<Rightarrow> 'e World \<Rightarrow> bool" where
  "world_ok c w \<longleftrightarrow> codec_ok c \<and> store_ok c (w_disk w)"

abbreviation world_view :: "Codec \<Rightarrow> 'e World \<Rightarrow> StoreView" where
  "world_view c w \<equiv> files_view c (w_disk w)"

lemma files_view_files: "files_view c (files d) = files_view c d"
proof -
  have "bundle_at c (files d) = bundle_at c d" by (auto simp: bundle_at_def files_readers fun_eq_iff)
  moreover have "manifest_of c (files d) = manifest_of c d" "journal_of c (files d) = journal_of c d"
    by (simp_all add: manifest_of_def journal_of_def files_fields)
  ultimately show ?thesis by (simp add: files_view_def live_transactions_def cong: if_cong)
qed

lemma files_view_sel [simp]:
  "v_committed (files_view c d) = manifest_of c d" "v_journal (files_view c d) = journal_of c d"
  "v_bundles (files_view c d) t = (if t \<in> set (live_transactions c d) then bundle_at c d t else None)"
  "named_transactions (manifest_of c d) (journal_of c d) = live_transactions c d"
  by (simp_all add: files_view_def live_transactions_def)

text \<open>A store operation seen through the coordinator's contract.\<close>

lemma disk_triple:
  assumes "\<And>F. store_ok c F \<Longrightarrow> codec_ok c \<Longrightarrow> path c (R F) m F"
    and "\<And>F r F'. R F r F' \<Longrightarrow> codec_ok c \<Longrightarrow> Q (files_view c F) r (files_view c F')"
  shows "triple (holds (world_ok c) (world_view c) w_calls v cs) (on_disk m)
    (\<lambda>r w. \<exists>v'. holds (world_ok c) (world_view c) w_calls v' cs w \<and> Q v r v')"
  unfolding triple_def
proof (intro allI impI)
  fix w :: "'e World" assume w: "holds (world_ok c) (world_view c) w_calls v cs w"
  obtain r d where m: "m (w_disk w) = (r, d)" by (cases "m (w_disk w)")
  have ok: "store_ok c (files (w_disk w))" "codec_ok c" using w by (simp_all add: holds_def world_ok_def)
  note run = assms(1) [OF ok]
  have "store_ok c (files d)" using store_steps_ok [OF path_steps [OF run] ok(2,1)] by (simp add: m)
  moreover have "Q (files_view c (w_disk w)) r (files_view c d)"
    using assms(2) [OF path_outcome [OF run] ok(2)] by (simp add: m files_view_files)
  ultimately show "\<exists>v'. holds (world_ok c) (world_view c) w_calls v' cs (snd (on_disk m w)) \<and> Q v (fst (on_disk m w)) v'"
    using w ok(2) by (auto simp: on_disk_def m holds_def world_ok_def)
qed

lemma disk_quiet:
  assumes "\<And>F. reads (R F) (\<lambda>_. True) m F" "\<And>F x. R F x \<Longrightarrow> Q (files_view c F) (Inr x)" "\<And>v e. Q v (Inl e)"
  shows "quiet (world_ok c) (world_view c) w_calls (on_disk m) Q"
proof -
  have "triple (holds (world_ok c) (world_view c) w_calls v cs) (on_disk m)
    (\<lambda>r w. \<exists>v'. holds (world_ok c) (world_view c) w_calls v' cs w \<and> (v' = v \<and> Q v r))" for v cs
    by (rule disk_triple [OF path_reads [OF assms(1)]]) (use assms(2,3) in \<open>auto split: sum.splits\<close>)
  then show ?thesis unfolding quiet_def triple_def by blast
qed

lemma env_quiet: "quiet (world_ok c) (world_view c) w_calls (on_env m) (\<lambda>_ _. True)"
  by (auto simp: quiet_def triple_def holds_def on_env_def world_ok_def split: prod.splits)

lemma recording_triple:
  "triple (holds (world_ok c) (world_view c) w_calls v cs) (recording c call m)
    (\<lambda>_. holds (world_ok c) (world_view c) w_calls v (cs @ [call (v_committed v) (v_journal v)]))"
  by (auto simp: triple_def holds_def recording_def on_env_def world_ok_def split: prod.splits)

lemma prune_view:
  assumes "prune_kept c F F'"
  shows "files_view c F' = files_view c F"
proof -
  have "bundle_at c F' t = bundle_at c F t" if "t \<in> set (live_transactions c F)" for t
    using assms that by (simp add: bundle_at_def prune_kept_def)
  then show ?thesis using assms
    by (auto simp: files_view_def prune_kept_def manifest_of_def journal_of_def fun_eq_iff)
qed

lemma prepared_view:
  assumes "prepared_as c b F s p F'" "cd_bundle_to c (bundle_to_dto c b) = Some s" "codec_ok c"
  shows "journalled (files_view c F) b p (files_view c F')"
proof -
  obtain js where p: "p = \<lparr>pt_candidate = TransactionId (cd_sha256_hex c s), pt_previous = map_option cm_current (manifest_of c F)\<rparr>"
    and js: "d_prepared F = None" "cd_prepared_to c p = Some js"
      "F' = F\<lparr>d_transactions := AList.update (cd_sha256_hex c s) s (d_transactions F), d_prepared := Some js\<rparr>"
    using assms(1) by (auto simp: prepared_as_def)
  have at: "bundle_at c F' t = (if transaction_text t = cd_sha256_hex c s then Some b else bundle_at c F t)" for t
    using bundle_at_store [OF assms(3,2), of F t] js(3) by (metis bundle_at_frame(3))
  have j: "journal_of c F = None" "journal_of c F' = Some p" "manifest_of c F' = manifest_of c F"
    using js assms(3) by (auto simp: journal_of_def codec_ok_def manifest_of_def)
  then have live: "pt_candidate p \<in> set (live_transactions c F')"
    "t \<in> set (live_transactions c F) \<Longrightarrow> t \<in> set (live_transactions c F')" for t
    by (auto simp: live_transactions_def named_transactions_def)
  have "transaction_text t \<noteq> cd_sha256_hex c s" if "t \<noteq> pt_candidate p" for t
    using that p by (cases t) auto
  moreover have "named_transactions (manifest_of c F) None = live_transactions c F"
    using j by (simp add: live_transactions_def)
  ultimately show ?thesis
    unfolding journalled_def using j live p at by (auto simp: j)
qed

lemma prepare_view:
  assumes "prepare_outcome c b F r F'" "codec_ok c"
  shows "case r of
      Inl _ \<Rightarrow> v_committed (files_view c F') = v_committed (files_view c F) \<and>
        (v_journal (files_view c F) = None \<or> v_journal (files_view c F') = v_journal (files_view c F))
    | Inr p \<Rightarrow> journalled (files_view c F) b p (files_view c F')"
proof (cases r)
  case (Inl e)
  have "prepared_as c b F s p F' \<Longrightarrow> cd_bundle_to c (bundle_to_dto c b) = Some s \<Longrightarrow> ?thesis" for s p
    using prepared_view [of c b F s p F'] assms(2) Inl by (simp add: journalled_def)
  then show ?thesis using assms(1) Inl by (auto simp: prepare_outcome_def)
next
  case (Inr p)
  then show ?thesis using assms prepared_view by (auto simp: prepare_outcome_def)
qed

lemma commit_view:
  assumes "manifest_text c p = Some js" "journal_of c F = Some p"
    "map_option cm_current (manifest_of c F) = pt_previous p" "codec_ok c"
  shows "committed_by (files_view c F) p (files_view c (F\<lparr>d_manifest := Some js\<rparr>))"
proof -
  have m: "manifest_of c (F\<lparr>d_manifest := Some js\<rparr>) = Some \<lparr>cm_current = pt_candidate p, cm_previous = pt_previous p\<rparr>"
    using assms(1,4) by (simp add: manifest_of_def manifest_text_def codec_ok_def)
  then have "pt_candidate p \<in> set (live_transactions c (F\<lparr>d_manifest := Some js\<rparr>))" "pt_candidate p \<in> set (live_transactions c F)"
    using assms(2) by (auto simp: live_transactions_def named_transactions_def)
  then show ?thesis using m assms(2,3) by (simp add: committed_by_def)
qed

lemma clear_view:
  assumes "journal_of c F = Some p"
  shows "cleared (files_view c F) p (files_view c (F\<lparr>d_prepared := None\<rparr>))"
proof -
  have j: "journal_of c (F\<lparr>d_prepared := None\<rparr>) = None" by (simp add: journal_of_def)
  have "t \<in> set (live_transactions c F)" if "t \<in> set (live_transactions c (F\<lparr>d_prepared := None\<rparr>))" for t
    using that j by (auto simp: live_transactions_def named_transactions_def)
  then show ?thesis using assms j
    by (auto simp: cleared_def) (metis files_view_sel(4) pointers_frame(3) j)+
qed

interpretation world: transaction_store "world_ports c env" "world_ok c" "world_view c" w_calls for c env
proof
  show "quiet (world_ok c) (world_view c) w_calls (p_read_object_limited (world_ports c env) i n) (\<lambda>_ _. True)" for i n
    unfolding world_ports_def Ports.simps by (rule disk_quiet [OF reads_object_limited]) auto
  show "quiet (world_ok c) (world_view c) w_calls (p_recover (world_ports c env))
      (\<lambda>v r. \<forall>s. r = Inr s \<longrightarrow> rv_committed s = v_committed v \<and> rv_prepared s = v_journal v)"
    unfolding world_ports_def Ports.simps by (rule disk_quiet [OF reads_recover]) auto
  show "quiet (world_ok c) (world_view c) w_calls (p_load_transaction (world_ports c env) t)
      (\<lambda>v r. \<forall>b. r = Inr b \<longrightarrow> t \<in> set (v_named v) \<longrightarrow> v_bundles v t = Some b)" for t
    unfolding world_ports_def Ports.simps by (rule disk_quiet [OF reads_load]) auto
  have "triple (holds (world_ok c) (world_view c) w_calls v cs) (on_disk (prune_unreachable c))
    (\<lambda>r w. \<exists>v'. holds (world_ok c) (world_view c) w_calls v' cs w \<and> v' = v)" for v cs
    by (rule disk_triple [OF path_prune]) (auto simp: prune_outcome_def dest: prune_view)
  then show "quiet (world_ok c) (world_view c) w_calls (p_prune_unreachable (world_ports c env)) (\<lambda>_ _. True)"
    unfolding world_ports_def Ports.simps quiet_def triple_def by blast
  show "triple (holds (world_ok c) (world_view c) w_calls v cs) (p_prepare (world_ports c env) b)
      (\<lambda>r w. \<exists>v'. holds (world_ok c) (world_view c) w_calls v' cs w \<and>
      (case r of Inl _ \<Rightarrow> v_committed v' = v_committed v \<and> (v_journal v = None \<or> v_journal v' = v_journal v)
       | Inr p \<Rightarrow> journalled v b p v'))" for v cs b
    unfolding world_ports_def Ports.simps by (rule disk_triple [OF path_prepare]) (auto dest: prepare_view)
  show "triple (holds (world_ok c) (world_view c) w_calls v cs) (p_commit_prepared (world_ports c env) p)
      (\<lambda>r w. \<exists>v'. holds (world_ok c) (world_view c) w_calls v' cs w \<and> (v' = v \<and> \<not> is_ok r \<or> committed_by v p v'))" for v cs p
    unfolding world_ports_def Ports.simps by (rule disk_triple [OF path_commit]) (auto dest: commit_view)
  show "triple (holds (world_ok c) (world_view c) w_calls v cs) (p_clear_prepared (world_ports c env) p)
      (\<lambda>r w. \<exists>v'. holds (world_ok c) (world_view c) w_calls v' cs w \<and> (v' = v \<and> \<not> is_ok r \<or> cleared v p v'))" for v cs p
    unfolding world_ports_def Ports.simps by (rule disk_triple [OF path_clear]) (auto dest: clear_view)
qed (simp_all add: world_ports_def env_quiet recording_triple)

section \<open>What the coordinator promises\<close>

lemma world_runs:
  assumes "runs (world_ok c) (world_view c) w_calls m (world_view c w) (w_calls w) R" "codec_ok c" "store_ok c (w_disk w)"
  shows "store_ok c (w_disk (snd (m w)))" "R (fst (m w)) (world_view c (snd (m w))) (w_calls (snd (m w)))"
  using assms by (auto simp: runs_def triple_def holds_def world_ok_def)

definition disk_generation :: "Codec \<Rightarrow> 'a Files_scheme \<Rightarrow> RuntimeGeneration option" where
  "disk_generation c d = Option.bind (manifest_of c d) (\<lambda>m. map_option tb_runtime_generation (bundle_at c d (cm_current m)))"

lemma disk_generation_view: "committed_generation_of (files_view c d) = disk_generation c d"
  by (cases "manifest_of c d")
    (auto simp: committed_generation_of_def disk_generation_def live_transactions_def named_transactions_def)

definition sample_environment :: "unit Environment" where
  "sample_environment = (let core = \<lparr>mc_pid = 7, mc_process_start_identity = ''boot'',
       mc_endpoint = \<lparr>ce_socket_path = ''/run/core'', ce_secret = ''s''\<rparr>, mc_instance_generation = 1, mc_runtime_generation = 1\<rparr>
    in \<lparr>
     e_owner = \<lparr>op_session_id = ''id'', op_session_token = ''token''\<rparr>,
     e_apply_candidate = (\<lambda>_ _. ret (Ok \<lparr>ar_disposition = Spawned, ar_managed_core = core\<rparr>)),
     e_status = (\<lambda>_. ret (Ok (from_managed_core (Some core)))),
     e_stop = (\<lambda>_. ret (Ok ())),
     e_validate = (\<lambda>_ _. ret (Ok ())),
     e_confirm_ready = (\<lambda>_. ret (Ok ())),
     e_current_revisions = ret \<lparr>cr_profile = 1, cr_active_profile = 1, cr_local_rule_set = 1,
       cr_compiler_policy_sha256 = ''policy'', cr_core_version = ''v1''\<rparr>,
     e_resolve = (\<lambda>_. ret (Err ())),
     e_prune_generations = (\<lambda>_. ret (Ok ())),
     e_shutdown_requested = ret False,
     e_lock_coordinator = ret True,
     e_try_lock_coordinator = ret TryLocked,
     e_lock_lifecycle = ret True\<rparr>)"

definition sample_candidate :: ConfigTransactionCandidate where
  "sample_candidate = \<lparr>ct_transaction = sample_bundle,
     ct_runtime = \<lparr>rb_generation = 1, rb_generation_root = ''/g'', rb_manifest_sha256 = ''m'',
       rb_compiler_policy_sha256 = ''policy'', rb_mihomo_binary_sha256 = ''b''\<rparr>,
     ct_configuration = \<lparr>ec_yaml = ''x'', ec_core_version = ''v1'', ec_compiler_policy_sha256 = ''policy'', ec_providers = []\<rparr>,
     ct_revisions = \<lparr>cr_profile = 1, cr_active_profile = 1, cr_local_rule_set = 1,
       cr_compiler_policy_sha256 = ''policy'', cr_core_version = ''v1''\<rparr>\<rparr>"

definition sample_world :: "unit World" where
  "sample_world = \<lparr>w_disk = (empty_disk [])\<lparr>d_objects := [(replicate 64 (CHR ''1''), ''x'')]\<rparr>, w_env = (), w_calls = []\<rparr>"

lemma sample_world_ok: "store_ok sample_codec (w_disk sample_world)"
  by (simp add: sample_world_def store_ok_def empty_disk_def live_transactions_def named_transactions_def manifest_of_def
      journal_of_def)

lemmas sample_defs = world_ports_def on_disk_def on_env_def recording_def unless_shutdown_def run_defs fail_with_def unit_err_def
  sample_environment_def sample_world_def empty_disk_def sample_candidate_def sample_bundle_def sample_codec_def

lemmas sample_store_defs = recover_def read_manifest_def read_journal_def read_optional_json_def quiet_write_defs
  read_object_limited_def read_object_def verify_bundle_objects_def load_transaction_def read_hashed_file_def decode_bundle_def
  bundle_of_dto_def bundle_to_dto_def object_file_def transaction_file_def usize_max_def

lemma sample_execution:
  "case fst (execute_guarded (world_ports sample_codec sample_environment) sample_candidate ConvergeCommitted sample_world) of
     Inl _ \<Rightarrow> False
   | Inr s \<Rightarrow> sx_recovery s = NotRequired"
  by (simp add: execute_guarded_def generation_from_manifest_def sample_defs sample_store_defs journal_candidate_def
      validate_candidate_def structurally_valid_def runtime_retention_def transpose_generation_def validate_prepared_def apply_prepared_def
      confirm_def commit_candidate_def clear_prepared_and_prune_def prune_runtime_state_def prepare_def write_journal_def
      commit_prepared_def clear_prepared_def prune_unreachable_def retained_content_def read_optional_regular_json_def
      read_regular_file_limited_def read_regular_hashed_file_limited_def retained_transactions_def retain_optional_def
      retain_transaction_def collect_json_object_references_def is_ascii_whitespace_def retain_bundle_objects_def bundle_objects_def
      collect_prune_candidates_def TransactionId_parse_def validate_digest_def sample_hex generation_from_transaction_def
      is_absolute_def from_managed_core_def sample_dto_def sample_prepared_def sample_manifest_def bs_insert_def
      EFFECTIVE_CONFIGURATION_MAX_BYTES_def SUPERVISOR_STATE_MAX_BYTES_def
      TRANSACTION_METADATA_MAX_BYTES_def TRANSACTION_BUNDLE_MAX_BYTES_def PERSISTENCE_PRUNE_ENTRY_LIMIT_def)

lemmas sample_startup_defs = with_coordinator_def read_committed_def generation_from_manifest_def prune_runtime_state_def
  transpose_generation_def runtime_retention_def recover_def read_manifest_def read_journal_def read_optional_json_def fs_read_def
  sys_def clear_at_startup_def

lemma sample_startup:
  "case fst (recover_startup (world_ports sample_codec sample_environment) sample_world) of
     Inl _ \<Rightarrow> False | Inr s \<Rightarrow> \<not> su_cleared_prepared_journal s"
  by (simp add: recover_startup_def sample_startup_defs sample_defs converge_to_manifest_def converge_to_transaction_def)

lemma sample_reapply:
  "case fst (prepare_startup_reapply (world_ports sample_codec sample_environment) None sample_world) of
     Inl _ \<Rightarrow> False | Inr s \<Rightarrow> sy_candidate_generation s = 1"
  by (simp add: prepare_startup_reapply_def sample_startup_defs sample_defs prepared_generation_def highest_generation_def
      checked_add_def)

text \<open>C1. A configuration transaction, whatever fails on the way and whenever shutdown is requested, has one of three
  outcomes.  After success the manifest names the candidate's transaction, whose generation is the reported one and
  newer than the generation committed before, and no journal is left unless cleanup is reported pending.  After an
  error the manifest is the old one, or, only when the commit call failed and the store could not be read afterwards
  (error kind commit, recovery failed), it already names the candidate's transaction; then the journal is still on disk for the next
  start to clear.  An error reported as converged has no journal left.  In every case the store stays recoverable.\<close>

theorem transaction_atomic:
  assumes "codec_ok c" "store_ok c (w_disk w)" "execute_guarded (world_ports c env) candidate mode w = (r, w')"
  shows "store_ok c (w_disk w') \<and> (case r of
      Inl e \<Rightarrow>
        (manifest_of c (w_disk w') = manifest_of c (w_disk w) \<or>
          ex_kind e = TxCommit \<and> is_failed (ex_recovery e) \<and> journal_of c (w_disk w') \<noteq> None \<and>
          is_newer (disk_generation c (w_disk w)) (rb_generation (ct_runtime candidate)) \<and>
          (\<exists>m. manifest_of c (w_disk w') = Some m \<and> bundle_at c (w_disk w') (cm_current m) = Some (ct_transaction candidate))) \<and>
        (is_converged (ex_recovery e) \<longrightarrow> journal_of c (w_disk w') = None)
    | Inr s \<Rightarrow>
        sx_committed_generation s = rb_generation (ct_runtime candidate) \<and>
        disk_generation c (w_disk w') = Some (rb_generation (ct_runtime candidate)) \<and>
        is_newer (disk_generation c (w_disk w)) (rb_generation (ct_runtime candidate)) \<and>
        (\<exists>m. manifest_of c (w_disk w') = Some m \<and> bundle_at c (w_disk w') (cm_current m) = Some (ct_transaction candidate)) \<and>
        (\<not> is_pending (sx_recovery s) \<longrightarrow> journal_of c (w_disk w') = None))"
proof -
  note run = world_runs [OF world.execute_guarded_run [of c env candidate mode "world_view c w" "w_calls w"] assms(1,2)]
  have "tx_outcome candidate (world_view c w) r (world_view c w')" using run(2) assms(3) by (simp add: tx_result_def)
  then show ?thesis using run(1) assms(3)
    by (auto simp: tx_outcome_def disk_generation_view split: sum.splits if_splits)
qed

theorem transaction_atomic_witness:
  "\<exists>s w'. execute_guarded (world_ports sample_codec sample_environment) sample_candidate ConvergeCommitted sample_world = (Ok s, w') \<and>
     disk_generation sample_codec (w_disk w') = Some 1 \<and> journal_of sample_codec (w_disk w') = None \<and>
     store_ok sample_codec (w_disk w')"
proof -
  obtain r w' where run: "execute_guarded (world_ports sample_codec sample_environment) sample_candidate ConvergeCommitted sample_world = (r, w')"
    by fastforce
  with sample_execution obtain s where "r = Ok s" "sx_recovery s = NotRequired" by (auto split: sum.splits)
  then show ?thesis
    using transaction_atomic [OF sample_codec_ok sample_world_ok run] run by (auto simp: sample_candidate_def)
qed

text \<open>C3. Runtime calls of a transaction are covered by the journal: each call to apply or stop a core happens while a
  journal is on disk and the manifest is still the one from the start, and what is applied has the generation of
  the candidate or the committed generation.\<close>

theorem runtime_calls_journalled:
  assumes "codec_ok c" "store_ok c (w_disk w)" "execute_guarded (world_ports c env) candidate mode w = (r, w')"
  shows "\<exists>new. w_calls w' = w_calls w @ new \<and>
    list_all (\<lambda>call. case call of
        Applied bundle manifest journal \<Rightarrow> manifest = manifest_of c (w_disk w) \<and> journal \<noteq> None \<and>
          (rb_generation bundle = rb_generation (ct_runtime candidate) \<or>
           Some (rb_generation bundle) = disk_generation c (w_disk w))
      | Stopped manifest journal \<Rightarrow> manifest = manifest_of c (w_disk w) \<and> journal \<noteq> None) new"
proof -
  have "adds (call_ok (world_view c w) (rb_generation (ct_runtime candidate))) (w_calls w) (w_calls w')"
    using world_runs(2) [OF world.execute_guarded_run [of c env candidate mode "world_view c w" "w_calls w"] assms(1,2)] assms(3)
    by (simp add: tx_result_def)
  moreover have "(case call of
        Applied bundle manifest journal \<Rightarrow> manifest = manifest_of c (w_disk w) \<and> journal \<noteq> None \<and>
          (rb_generation bundle = rb_generation (ct_runtime candidate) \<or>
           Some (rb_generation bundle) = disk_generation c (w_disk w))
      | Stopped manifest journal \<Rightarrow> manifest = manifest_of c (w_disk w) \<and> journal \<noteq> None)"
    if "call_ok (world_view c w) (rb_generation (ct_runtime candidate)) call" for call
    using that by (cases call) (simp_all add: disk_generation_view)
  ultimately show ?thesis unfolding adds_def by (auto simp: list_all_iff)
qed

theorem runtime_calls_journalled_witness:
  "\<exists>w' new. snd (execute_guarded (world_ports sample_codec sample_environment) sample_candidate ConvergeCommitted sample_world) = w' \<and>
    w_calls w' = new \<and>
    list_all (\<lambda>call. case call of
        Applied bundle manifest journal \<Rightarrow> manifest = None \<and> journal \<noteq> None \<and> rb_generation bundle = 1
      | Stopped manifest journal \<Rightarrow> manifest = None \<and> journal \<noteq> None) new"
proof -
  obtain r w' where run: "execute_guarded (world_ports sample_codec sample_environment) sample_candidate ConvergeCommitted sample_world = (r, w')"
    by fastforce
  have none: "manifest_of sample_codec (w_disk sample_world) = None" "disk_generation sample_codec (w_disk sample_world) = None"
    "w_calls sample_world = []" "rb_generation (ct_runtime sample_candidate) = 1"
    by (simp_all add: manifest_of_def disk_generation_def sample_world_def empty_disk_def sample_candidate_def)
  show ?thesis
    using runtime_calls_journalled [OF sample_codec_ok sample_world_ok run] run by (simp add: none)
qed

text \<open>C5. Startup recovery never moves the committed manifest and applies only the committed generation; when it
  succeeds the journal is gone, it reports the committed generation, and it says whether there was a journal.\<close>

theorem startup_recovers_committed:
  assumes "codec_ok c" "store_ok c (w_disk w)" "recover_startup (world_ports c env) w = (r, w')"
  shows "store_ok c (w_disk w') \<and> manifest_of c (w_disk w') = manifest_of c (w_disk w) \<and>
    (\<exists>new. w_calls w' = w_calls w @ new \<and>
      list_all (\<lambda>call. case call of
          Applied bundle manifest journal \<Rightarrow> Some (rb_generation bundle) = disk_generation c (w_disk w)
        | Stopped manifest journal \<Rightarrow> True) new) \<and>
    (case r of
       Inl _ \<Rightarrow> True
     | Inr s \<Rightarrow> su_committed_generation s = disk_generation c (w_disk w) \<and> journal_of c (w_disk w') = None \<and>
         su_cleared_prepared_journal s = (journal_of c (w_disk w) \<noteq> None))"
  using world_runs [OF world.recover_startup_run [of c env "world_view c w" "w_calls w"] assms(1,2)] assms(3)
  by (auto simp: startup_result_def adds_def disk_generation_view split: sum.splits)

theorem startup_recovers_committed_witness:
  "\<exists>s w'. recover_startup (world_ports sample_codec sample_environment) sample_world = (Ok s, w') \<and>
     su_committed_generation s = disk_generation sample_codec (w_disk sample_world) \<and> journal_of sample_codec (w_disk w') = None"
proof -
  obtain r w' where run: "recover_startup (world_ports sample_codec sample_environment) sample_world = (r, w')" by fastforce
  with sample_startup obtain s where "r = Ok s" by (auto split: sum.splits)
  then show ?thesis using startup_recovers_committed [OF sample_codec_ok sample_world_ok run] run by auto
qed

text \<open>C6. Preparing a reapply at startup keeps the manifest and calls nothing on the runtime; when it succeeds no journal
  is left and the generation it hands out is newer than the committed one.\<close>

theorem startup_reapply_newer:
  assumes "codec_ok c" "store_ok c (w_disk w)" "prepare_startup_reapply (world_ports c env) expected w = (r, w')"
  shows "store_ok c (w_disk w') \<and> manifest_of c (w_disk w') = manifest_of c (w_disk w) \<and> w_calls w' = w_calls w \<and>
    (case r of
       Inl _ \<Rightarrow> True
     | Inr s \<Rightarrow> sy_committed_generation s = disk_generation c (w_disk w) \<and> journal_of c (w_disk w') = None \<and>
         is_newer (disk_generation c (w_disk w)) (sy_candidate_generation s))"
  using world_runs [OF world.prepare_startup_reapply_run [of c env expected "world_view c w" "w_calls w"] assms(1,2)] assms(3)
  by (auto simp: reapply_result_def disk_generation_view split: sum.splits)

theorem startup_reapply_newer_witness:
  "\<exists>s w'. prepare_startup_reapply (world_ports sample_codec sample_environment) None sample_world = (Ok s, w') \<and>
     sy_candidate_generation s = 1 \<and> is_newer (disk_generation sample_codec (w_disk sample_world)) (sy_candidate_generation s)"
proof -
  obtain r w' where run: "prepare_startup_reapply (world_ports sample_codec sample_environment) None sample_world = (r, w')" by fastforce
  with sample_reapply obtain s where "r = Ok s" "sy_candidate_generation s = 1" by (auto split: sum.splits)
  then show ?thesis using startup_reapply_newer [OF sample_codec_ok sample_world_ok run] run by auto
qed

end
