(* ===== verification/State_Store.thy ===== *)
theory State_Store
  imports Profiles Rules Store_Recovery
begin

text \<open>
  The authoritative state store of \<open>src/src/state.rs\<close>: the profile catalogue, the local rule
  set and the effective configuration are staged as objects of the persistence store, and the
  committed ones are read back at start.

  \<open>stage_candidate\<close> and \<open>load_committed\<close> are programs over the same \<open>Disk\<close> as the operations of
  \<open>Persistence\<close>, so each system call of theirs may fail.  The JSON form of the state, the YAML
  form of the rules, the YAML reader of snapshots and the \<open>url\<close> crate are the record
  \<open>StateCodec\<close>.  Two theorems follow: when what was committed is what is loaded, and which candidates are
  accepted and committed although they can not be loaded.
\<close>

section \<open>Stored forms\<close>

definition STATE_SCHEMA_VERSION :: u16 where "STATE_SCHEMA_VERSION = 1"
definition REFRESH_ERROR_MAX_BYTES :: nat where "REFRESH_ERROR_MAX_BYTES = 1024"

record AuthoritativeState =
  as_profiles :: ProfileCatalog
  as_local_rules :: LocalRuleSet
  as_effective_configuration :: string
  as_runtime_generation :: RuntimeGeneration

record HydratedState =
  hs_profiles :: ProfileCatalog
  hs_local_rules :: LocalRuleSet
  hs_effective_configuration :: string
  hs_runtime_generation :: RuntimeGeneration

record PersistedSelection =
  psel_group :: string
  psel_node_id :: string

record PersistedRefreshFailure =
  prf_stage :: string
  prf_safe_message :: string

record PersistedProfile =
  pp_id :: string
  pp_name :: string
  pp_subscription_url :: string
  pp_snapshot :: ObjectId
  pp_revision :: u64
  pp_last_success_at_unix_ms :: u64
  pp_last_error :: "PersistedRefreshFailure option"
  pp_next_refresh_at_unix_ms :: u64
  pp_selections :: "PersistedSelection list"

record PersistedSupervisorState =
  pss_schema_version :: u16
  pss_active_profile_id :: string
  pss_active_revision :: u64
  pss_local_rule_set :: ObjectId
  pss_local_rule_set_revision :: u64
  pss_effective_configuration :: ObjectId
  pss_runtime_generation :: u64
  pss_profiles :: "PersistedProfile list"

datatype StateStoreErrorKind = StateIo | StateTooLarge | InvalidState

record StateStoreError =
  se_kind :: StateStoreErrorKind
  se_source :: "IoKind option"

abbreviation state_io :: "IoKind \<Rightarrow> StateStoreError" where
  "state_io e \<equiv> \<lparr>se_kind = StateIo, se_source = Some e\<rparr>"

abbreviation state_invalid :: StateStoreError where
  "state_invalid \<equiv> \<lparr>se_kind = InvalidState, se_source = None\<rparr>"

abbreviation state_too_large :: StateStoreError where
  "state_too_large \<equiv> \<lparr>se_kind = StateTooLarge, se_source = None\<rparr>"

type_synonym 'a state_io = "(Disk, 'a, StateStoreError) try_prog"

record StateCodec =
  sc_codec :: Codec
  sc_state_to :: "PersistedSupervisorState \<Rightarrow> string option"
  sc_state_from :: "string \<Rightarrow> PersistedSupervisorState option"
  sc_rules_to :: "string list \<Rightarrow> string + string"
  sc_rules_from :: "string \<Rightarrow> string + string list"
  sc_url_text :: "Url \<Rightarrow> string"
  sc_url_parse :: "string \<Rightarrow> Url option"
  sc_yaml_from_slice :: "string \<Rightarrow> Value option"

abbreviation sc_sha :: "StateCodec \<Rightarrow> string \<Rightarrow> string" where
  "sc_sha sc \<equiv> cd_sha256_hex (sc_codec sc)"

fun refresh_stage_name :: "RefreshStage \<Rightarrow> string" where
  "refresh_stage_name StageDownload = ''download''"
| "refresh_stage_name StageParse = ''parse''"
| "refresh_stage_name StageValidate = ''validate''"
| "refresh_stage_name StageApply = ''apply''"

definition parse_refresh_stage :: "string \<Rightarrow> (RefreshStage, StateStoreError) result" where
  "parse_refresh_stage v =
    (if v = ''download'' then Ok StageDownload
     else if v = ''parse'' then Ok StageParse
     else if v = ''validate'' then Ok StageValidate
     else if v = ''apply'' then Ok StageApply
     else Err state_invalid)"

definition PersistedRefreshFailure_from :: "RefreshFailure \<Rightarrow> PersistedRefreshFailure" where
  "PersistedRefreshFailure_from failure =
    \<lparr>prf_stage = refresh_stage_name (rf_stage failure), prf_safe_message = rf_safe_message failure\<rparr>"

definition PersistedRefreshFailure_hydrate ::
  "PersistedRefreshFailure \<Rightarrow> (RefreshFailure, StateStoreError) result" where
  "PersistedRefreshFailure_hydrate failure =
    (if length (prf_safe_message failure) > REFRESH_ERROR_MAX_BYTES \<or>
        list_ex is_control (utf8_chars (prf_safe_message failure))
     then Err state_invalid
     else and_then (parse_refresh_stage (prf_stage failure)) (\<lambda>stage.
       Ok \<lparr>rf_stage = stage, rf_safe_message = prf_safe_message failure\<rparr>))"

section \<open>Validation\<close>

definition state_validate_candidate :: "AuthoritativeState \<Rightarrow> (unit, StateStoreError) result" where
  "state_validate_candidate candidate =
    (if pc_profiles (as_profiles candidate) = [] \<or>
        length (pc_profiles (as_profiles candidate)) > PROFILE_COUNT_MAX \<or>
        pc_active_profile_id (as_profiles candidate) = None \<or>
        pc_active_revision (as_profiles candidate) = 0 \<or>
        rs_rules (as_local_rules candidate) = None \<or>
        rs_revision (as_local_rules candidate) = 0 \<or>
        as_runtime_generation candidate = 0
     then Err state_invalid else Ok ())"

definition validate_name :: "string \<Rightarrow> (unit, StateStoreError) result" where
  "validate_name name =
    (if name = [] \<or> length name > PROFILE_METADATA_NAME_MAX_BYTES \<or> list_ex is_control (utf8_chars name)
     then Err state_invalid else Ok ())"

definition validate_profile :: "Profile \<Rightarrow> (unit, StateStoreError) result" where
  "validate_profile p =
    and_then (validate_name (pf_name p)) (\<lambda>_.
      if pf_revision p = 0 \<or> length (pf_selections p) > MAX_ACTIVE_NODES \<or>
         (case pf_last_error p of None \<Rightarrow> False
          | Some error \<Rightarrow> length (rf_safe_message error) > REFRESH_ERROR_MAX_BYTES \<or>
              list_ex is_control (utf8_chars (rf_safe_message error)))
      then Err state_invalid else Ok ())"

definition validate_state_header ::
  "StateCodec \<Rightarrow> PersistedSupervisorState \<Rightarrow> TransactionBundle \<Rightarrow> (unit, StateStoreError) result" where
  "validate_state_header sc state bundle =
    (if pss_schema_version state \<noteq> STATE_SCHEMA_VERSION \<or>
        pss_profiles state = [] \<or>
        length (pss_profiles state) > PROFILE_COUNT_MAX \<or>
        pss_active_profile_id state \<noteq> cd_id_text (sc_codec sc) (tb_active_profile_id bundle) \<or>
        pss_local_rule_set state \<noteq> tb_local_rule_set bundle \<or>
        pss_local_rule_set_revision state \<noteq> tb_local_rule_set_revision bundle \<or>
        pss_effective_configuration state \<noteq> tb_effective_configuration bundle \<or>
        pss_runtime_generation state \<noteq> tb_runtime_generation bundle \<or>
        pss_runtime_generation state = 0
     then Err state_invalid else Ok ())"

section \<open>Profiles\<close>

definition PersistedProfile_from_profile :: "StateCodec \<Rightarrow> Profile \<Rightarrow> ObjectId \<Rightarrow> PersistedProfile" where
  "PersistedProfile_from_profile sc p snapshot =
    \<lparr>pp_id = cd_id_text (sc_codec sc) (pf_id p), pp_name = pf_name p,
     pp_subscription_url = sc_url_text sc (pf_subscription_url p), pp_snapshot = snapshot,
     pp_revision = pf_revision p, pp_last_success_at_unix_ms = pf_last_success_at_unix_ms p,
     pp_last_error = map_option PersistedRefreshFailure_from (pf_last_error p),
     pp_next_refresh_at_unix_ms = pf_next_refresh_at_unix_ms p,
     pp_selections = map (\<lambda>(group_name, node). \<lparr>psel_group = group_name, psel_node_id = node_text node\<rparr>)
       (pf_selections p)\<rparr>"

fun hydrate_selections ::
  "PersistedSelection list \<Rightarrow> (string, NodeRecordId) btree_map \<Rightarrow>
    ((string, NodeRecordId) btree_map, StateStoreError) result" where
  "hydrate_selections [] selections = Ok selections"
| "hydrate_selections (selection # rest) selections =
    and_then (ok_or (NodeRecordId_parse (psel_node_id selection)) state_invalid) (\<lambda>node.
      if bt_contains selections (psel_group selection) then Err state_invalid
      else hydrate_selections rest (bt_insert (psel_group selection) node selections))"

definition PersistedProfile_hydrate ::
  "StateCodec \<Rightarrow> SnapshotLimits \<Rightarrow> PersistedProfile \<Rightarrow> Profile state_io" where
  "PersistedProfile_hydrate sc limits persisted =
    try_bnd (ret (ok_or (cd_id_parse (sc_codec sc) (pp_id persisted)) state_invalid)) (\<lambda>i.
    try_bnd (ret (validate_name (pp_name persisted))) (\<lambda>_.
    if pp_revision persisted = 0 \<or> length (pp_selections persisted) > MAX_ACTIVE_NODES
    then ret (Err state_invalid)
    else
      try_bnd (ret (ok_or (SubscriptionUrl_parse (sc_url_parse sc) (pp_subscription_url persisted)) state_invalid)) (\<lambda>u.
      try_bnd (fail_with state_io
        (read_object_limited (sc_codec sc) (pp_snapshot persisted) (sl_max_bytes limits))) (\<lambda>raw.
      try_bnd (ret (map_err (\<lambda>_. state_invalid)
        (snapshot_parse (sc_yaml_from_slice sc) (sc_sha sc) raw limits))) (\<lambda>snapshot.
      try_bnd (ret (hydrate_selections (pp_selections persisted) [])) (\<lambda>selections.
      try_bnd (ret (case pp_last_error persisted of None \<Rightarrow> Ok None
        | Some failure \<Rightarrow> and_then (PersistedRefreshFailure_hydrate failure) (\<lambda>f. Ok (Some f)))) (\<lambda>last_error.
      ret (Ok \<lparr>pf_id = i, pf_name = pp_name persisted, pf_subscription_url = u, pf_snapshot = snapshot,
        pf_revision = pp_revision persisted, pf_last_success_at_unix_ms = pp_last_success_at_unix_ms persisted,
        pf_last_error = last_error, pf_next_refresh_at_unix_ms = pp_next_refresh_at_unix_ms persisted,
        pf_selections = selections\<rparr>))))))))"

section \<open>Staging\<close>

type_synonym staged_profiles = "PersistedProfile list \<times> ObjectId option \<times> ProfileRevision option"

fun stage_profiles ::
  "StateCodec \<Rightarrow> ProfileId \<Rightarrow> Profile list \<Rightarrow> staged_profiles \<Rightarrow> staged_profiles state_io" where
  "stage_profiles sc active [] acc = ret (Ok acc)"
| "stage_profiles sc active (p # ps) (records, active_snapshot, active_revision) =
    try_bnd (ret (validate_profile p)) (\<lambda>_.
    try_bnd (fail_with state_io (put_object (sc_codec sc) (ps_raw (pf_snapshot p)))) (\<lambda>snapshot.
    stage_profiles sc active ps
      (records @ [PersistedProfile_from_profile sc p snapshot],
       (if pf_id p = active then Some snapshot else active_snapshot),
       (if pf_id p = active then Some (pf_revision p) else active_revision))))"

definition persisted_state ::
  "StateCodec \<Rightarrow> AuthoritativeState \<Rightarrow> ProfileId \<Rightarrow> ObjectId \<Rightarrow> ObjectId \<Rightarrow> PersistedProfile list \<Rightarrow>
    PersistedSupervisorState" where
  "persisted_state sc candidate active local_rule_set effective_configuration records =
    \<lparr>pss_schema_version = STATE_SCHEMA_VERSION,
     pss_active_profile_id = cd_id_text (sc_codec sc) active,
     pss_active_revision = pc_active_revision (as_profiles candidate),
     pss_local_rule_set = local_rule_set,
     pss_local_rule_set_revision = rs_revision (as_local_rules candidate),
     pss_effective_configuration = effective_configuration,
     pss_runtime_generation = as_runtime_generation candidate,
     pss_profiles = records\<rparr>"

definition stage_candidate :: "StateCodec \<Rightarrow> AuthoritativeState \<Rightarrow> TransactionBundle state_io" where
  "stage_candidate sc candidate =
    try_bnd (ret (state_validate_candidate candidate)) (\<lambda>_.
    if length (as_effective_configuration candidate) > EFFECTIVE_CONFIGURATION_MAX_BYTES
    then ret (Err state_too_large)
    else
      try_bnd (ret (map_err (\<lambda>_. state_invalid)
        (rules_to_yaml (sc_rules_to sc) (as_local_rules candidate)))) (\<lambda>document.
      try_bnd (fail_with state_io (put_object (sc_codec sc) document)) (\<lambda>local_rule_set.
      try_bnd (fail_with state_io
        (put_object (sc_codec sc) (as_effective_configuration candidate))) (\<lambda>effective_configuration.
      try_bnd (ret (ok_or (pc_active_profile_id (as_profiles candidate)) state_invalid)) (\<lambda>active.
      try_bnd (stage_profiles sc active (map snd (pc_profiles (as_profiles candidate))) ([], None, None))
        (\<lambda>(records, active_snapshot, active_revision).
      try_bnd (ret (ok_or (sc_state_to sc
        (persisted_state sc candidate active local_rule_set effective_configuration records)) state_invalid)) (\<lambda>state.
      if length state > SUPERVISOR_STATE_MAX_BYTES then ret (Err state_too_large)
      else
        try_bnd (fail_with state_io (put_object (sc_codec sc) state)) (\<lambda>supervisor_state.
        try_bnd (ret (ok_or active_snapshot state_invalid)) (\<lambda>profile_snapshot.
        try_bnd (ret (ok_or active_revision state_invalid)) (\<lambda>profile_revision.
        ret (Ok \<lparr>tb_supervisor_state = supervisor_state, tb_profile_snapshot = profile_snapshot,
          tb_local_rule_set = local_rule_set, tb_effective_configuration = effective_configuration,
          tb_profile_revision = profile_revision,
          tb_local_rule_set_revision = rs_revision (as_local_rules candidate),
          tb_active_profile_id = active, tb_runtime_generation = as_runtime_generation candidate\<rparr>)))))))))))"

section \<open>Loading\<close>

type_synonym hydrated_profiles = "ProfileId btree_set \<times> Profile list \<times> ObjectId option \<times> u64 option"

fun hydrate_profiles ::
  "StateCodec \<Rightarrow> SnapshotLimits \<Rightarrow> ProfileId \<Rightarrow> PersistedProfile list \<Rightarrow> hydrated_profiles \<Rightarrow>
    hydrated_profiles state_io" where
  "hydrate_profiles sc limits active [] acc = ret (Ok acc)"
| "hydrate_profiles sc limits active (persisted # records) (seen_ids, profiles, active_snapshot, active_revision) =
    try_bnd (ret (ok_or (cd_id_parse (sc_codec sc) (pp_id persisted)) state_invalid)) (\<lambda>i.
    if i \<in> set seen_ids then ret (Err state_invalid)
    else
      try_bnd (PersistedProfile_hydrate sc limits persisted) (\<lambda>profile.
      hydrate_profiles sc limits active records
        (bs_insert i seen_ids, profiles @ [profile],
         (if i = active then Some (pp_snapshot persisted) else active_snapshot),
         (if i = active then Some (pp_revision persisted) else active_revision))))"

definition load_state ::
  "StateCodec \<Rightarrow> SnapshotLimits \<Rightarrow> RuleSetLimits \<Rightarrow> TransactionBundle \<Rightarrow> HydratedState state_io" where
  "load_state sc snapshot_limits rule_limits bundle =
    try_bnd (fail_with state_io
      (read_object_limited (sc_codec sc) (tb_supervisor_state bundle) SUPERVISOR_STATE_MAX_BYTES)) (\<lambda>raw_state.
    if length raw_state > SUPERVISOR_STATE_MAX_BYTES then ret (Err state_too_large)
    else
      try_bnd (ret (ok_or (sc_state_from sc raw_state) state_invalid)) (\<lambda>state.
      try_bnd (ret (validate_state_header sc state bundle)) (\<lambda>_.
      try_bnd (ret (ok_or (cd_id_parse (sc_codec sc) (pss_active_profile_id state)) state_invalid)) (\<lambda>active.
      try_bnd (hydrate_profiles sc snapshot_limits active (pss_profiles state) ([], [], None, None))
        (\<lambda>(_, profiles, active_snapshot, active_revision).
      if active_snapshot \<noteq> Some (tb_profile_snapshot bundle) \<or> active_revision \<noteq> Some (tb_profile_revision bundle)
      then ret (Err state_invalid)
      else
        try_bnd (ret (map_err (\<lambda>_. state_invalid)
          (catalog_restore profiles active (pss_active_revision state)))) (\<lambda>catalog.
        try_bnd (fail_with state_io
          (read_object_limited (sc_codec sc) (pss_local_rule_set state) (max_document_bytes rule_limits))) (\<lambda>document.
        if \<not> utf8_valid document then ret (Err state_invalid)
        else
          try_bnd (ret (map_err (\<lambda>_. state_invalid)
            (rules_from_yaml (sc_rules_from sc) document (pss_local_rule_set_revision state) rule_limits))) (\<lambda>rules.
          try_bnd (fail_with state_io
            (read_object_limited (sc_codec sc) (pss_effective_configuration state)
              EFFECTIVE_CONFIGURATION_MAX_BYTES)) (\<lambda>configuration.
          ret (Ok \<lparr>hs_profiles = catalog, hs_local_rules = rules, hs_effective_configuration = configuration,
            hs_runtime_generation = pss_runtime_generation state\<rparr>))))))))))"

definition load_committed ::
  "StateCodec \<Rightarrow> SnapshotLimits \<Rightarrow> RuleSetLimits \<Rightarrow> HydratedState option state_io" where
  "load_committed sc snapshot_limits rule_limits =
    try_bnd (fail_with state_io (recover (sc_codec sc))) (\<lambda>recovery.
    case rv_committed recovery of
      None \<Rightarrow> ret (Ok None)
    | Some manifest \<Rightarrow>
        try_bnd (fail_with state_io (load_transaction (sc_codec sc) (cm_current manifest))) (\<lambda>bundle.
        try_bnd (load_state sc snapshot_limits rule_limits bundle) (\<lambda>hydrated.
        ret (Ok (Some hydrated)))))"

section \<open>Contracts\<close>

text \<open>What the store relies on of the codecs: written values are read back.\<close>

definition state_codec_ok :: "StateCodec \<Rightarrow> bool" where
  "state_codec_ok sc \<longleftrightarrow> codec_ok (sc_codec sc) \<and>
    (\<forall>x s. sc_state_to sc x = Some s \<longrightarrow> sc_state_from sc s = Some x) \<and>
    (\<forall>x s. sc_rules_to sc x = Ok s \<longrightarrow> sc_rules_from sc s = Ok x \<and> utf8_valid s)"

text \<open>What makes a profile and a rule set readable again: values that the parsers accept.\<close>

definition profile_storable :: "StateCodec \<Rightarrow> SnapshotLimits \<Rightarrow> Profile \<Rightarrow> bool" where
  "profile_storable sc limits p \<longleftrightarrow>
    snapshot_parse (sc_yaml_from_slice sc) (sc_sha sc) (ps_raw (pf_snapshot p)) limits = Ok (pf_snapshot p) \<and>
    SubscriptionUrl_parse (sc_url_parse sc) (sc_url_text sc (pf_subscription_url p)) = Some (pf_subscription_url p) \<and>
    bt_wf (pf_selections p) \<and>
    list_all (\<lambda>(_, node). NodeRecordId_parse (node_text node) = Some node) (pf_selections p)"

definition rules_storable :: "StateCodec \<Rightarrow> RuleSetLimits \<Rightarrow> LocalRuleSet \<Rightarrow> bool" where
  "rules_storable sc limits s \<longleftrightarrow>
    (case rs_rules s of None \<Rightarrow> True
     | Some rules \<Rightarrow> rules_parse rules \<and> length rules \<le> max_rule_count limits \<and>
         list_all (\<lambda>r. length (rule_text r) \<le> max_rule_bytes limits) rules) \<and>
    (case rules_to_yaml (sc_rules_to sc) s of Inl _ \<Rightarrow> True
     | Inr document \<Rightarrow> length document \<le> max_document_bytes limits)"

definition snapshot_object :: "StateCodec \<Rightarrow> Profile \<Rightarrow> ObjectId" where
  "snapshot_object sc p = ObjectId (sc_sha sc (ps_raw (pf_snapshot p)))"

text \<open>The state that a candidate is staged as, and the contents that staging writes.\<close>

definition staged_state :: "StateCodec \<Rightarrow> AuthoritativeState \<Rightarrow> ProfileId \<Rightarrow> string \<Rightarrow> PersistedSupervisorState" where
  "staged_state sc candidate active document =
    persisted_state sc candidate active (ObjectId (sc_sha sc document))
      (ObjectId (sc_sha sc (as_effective_configuration candidate)))
      (map (\<lambda>p. PersistedProfile_from_profile sc p (snapshot_object sc p))
        (map snd (pc_profiles (as_profiles candidate))))"

definition staged_contents :: "StateCodec \<Rightarrow> AuthoritativeState \<Rightarrow> string list" where
  "staged_contents sc candidate =
    (case (pc_active_profile_id (as_profiles candidate), rules_to_yaml (sc_rules_to sc) (as_local_rules candidate)) of
       (Some active, Inr document) \<Rightarrow>
         document # as_effective_configuration candidate #
         map (ps_raw \<circ> pf_snapshot) (map snd (pc_profiles (as_profiles candidate))) @
         (case sc_state_to sc (staged_state sc candidate active document) of None \<Rightarrow> [] | Some state \<Rightarrow> [state])
     | _ \<Rightarrow> [])"

text \<open>No two of these contents share a digest.\<close>

definition no_collision :: "StateCodec \<Rightarrow> AuthoritativeState \<Rightarrow> bool" where
  "no_collision sc candidate \<longleftrightarrow> inj_on (sc_sha sc) (set (staged_contents sc candidate))"

definition in_memory :: "StateCodec \<Rightarrow> AuthoritativeState \<Rightarrow> bool" where
  "in_memory sc candidate \<longleftrightarrow> list_all (\<lambda>x. length x \<le> usize_max) (staged_contents sc candidate)"

definition hydrated :: "AuthoritativeState \<Rightarrow> HydratedState" where
  "hydrated candidate = \<lparr>hs_profiles = as_profiles candidate, hs_local_rules = as_local_rules candidate,
     hs_effective_configuration = as_effective_configuration candidate,
     hs_runtime_generation = as_runtime_generation candidate\<rparr>"

definition stored :: "Codec \<Rightarrow> string set \<Rightarrow> 'a Files_scheme \<Rightarrow> bool" where
  "stored c X F \<longleftrightarrow> (\<forall>x \<in> X. object_file (cd_sha256_hex c x) F = Some x)"

text \<open>A bundle names what a candidate is staged as, and the files hold all of it.\<close>

definition staged_as ::
  "StateCodec \<Rightarrow> AuthoritativeState \<Rightarrow> ProfileId \<Rightarrow> string \<Rightarrow> string \<Rightarrow> TransactionBundle \<Rightarrow> 'a Files_scheme \<Rightarrow> bool" where
  "staged_as sc candidate active document state b F \<longleftrightarrow>
    state_validate_candidate candidate = Ok () \<and>
    length (as_effective_configuration candidate) \<le> EFFECTIVE_CONFIGURATION_MAX_BYTES \<and>
    rules_to_yaml (sc_rules_to sc) (as_local_rules candidate) = Ok document \<and>
    pc_active_profile_id (as_profiles candidate) = Some active \<and>
    list_all (\<lambda>p. validate_profile p = Ok ()) (map snd (pc_profiles (as_profiles candidate))) \<and>
    sc_state_to sc (staged_state sc candidate active document) = Some state \<and>
    length state \<le> SUPERVISOR_STATE_MAX_BYTES \<and>
    stored (sc_codec sc) (set (staged_contents sc candidate)) F \<and>
    tb_supervisor_state b = ObjectId (sc_sha sc state) \<and>
    fold (\<lambda>p s. if pf_id p = active then Some (snapshot_object sc p) else s)
      (map snd (pc_profiles (as_profiles candidate))) None = Some (tb_profile_snapshot b) \<and>
    fold (\<lambda>p s. if pf_id p = active then Some (pf_revision p) else s)
      (map snd (pc_profiles (as_profiles candidate))) None = Some (tb_profile_revision b) \<and>
    tb_local_rule_set b = ObjectId (sc_sha sc document) \<and>
    tb_effective_configuration b = ObjectId (sc_sha sc (as_effective_configuration candidate)) \<and>
    tb_local_rule_set_revision b = rs_revision (as_local_rules candidate) \<and>
    tb_active_profile_id b = active \<and> tb_runtime_generation b = as_runtime_generation candidate"

section \<open>Runs of programs\<close>

lemma try_bnd_Ok: "try_bnd m f d = (Inr v, d') \<longleftrightarrow> (\<exists>u e. m d = (Inr u, e) \<and> f u e = (Inr v, d'))"
  by (auto simp: try_bnd_def bnd_def ret_def split: prod.splits sum.splits)

lemma ret_Ok: "ret r d = (r', d') \<longleftrightarrow> r = r' \<and> d' = d"
  by (auto simp: ret_def)

lemma fail_with_Ok: "fail_with g m d = (Inr v, d') \<longleftrightarrow> m d = (Inr v, d')"
  by (auto simp: fail_with_def bnd_def ret_def result_simps split: prod.splits)

lemmas run_Ok = try_bnd_Ok ret_Ok fail_with_Ok

lemma reads_Ok: "reads P E m (files d) \<Longrightarrow> m d = (Inr v, d') \<Longrightarrow> files d' = files d \<and> P v"
  by (auto simp: reads_def dest: tripleD)

lemma put_object_Ok:
  assumes "put_object c x d = (Ok i, d')" "length x \<le> usize_max"
  shows "i = ObjectId (cd_sha256_hex c x) \<and>
    files d' = (files d)\<lparr>d_objects := AList.update (cd_sha256_hex c x) x (d_objects (files d))\<rparr>"
  using path_outcome [OF path_put_object [OF assms(2)], of c d] assms(1) by (simp add: Let_def)

lemma put_object_stored:
  assumes "put_object c x d = (Ok i, d')" "length x \<le> usize_max"
    and "stored c X (files d)" "inj_on (cd_sha256_hex c) (insert x X)"
  shows "i = ObjectId (cd_sha256_hex c x) \<and> stored c (insert x X) (files d') \<and>
    files d' = (files d)\<lparr>d_objects := d_objects (files d')\<rparr>"
  using put_object_Ok [OF assms(1,2)] assms(3,4)
  by (auto simp: stored_def object_file_def update_conv' inj_on_def)

lemma stage_profiles_Ok:
  assumes "stage_profiles sc a ps (records, sn, rv) d = (Ok (records', sn', rv'), d')"
    and "list_all (\<lambda>p. length (ps_raw (pf_snapshot p)) \<le> usize_max) ps"
    and "stored (sc_codec sc) X (files d)" "inj_on (sc_sha sc) (X \<union> (ps_raw \<circ> pf_snapshot) ` set ps)"
  shows "stored (sc_codec sc) (X \<union> (ps_raw \<circ> pf_snapshot) ` set ps) (files d') \<and>
    files d' = (files d)\<lparr>d_objects := d_objects (files d')\<rparr> \<and>
    list_all (\<lambda>p. validate_profile p = Ok ()) ps \<and>
    records' = records @ map (\<lambda>p. PersistedProfile_from_profile sc p (snapshot_object sc p)) ps \<and>
    sn' = fold (\<lambda>p s. if pf_id p = a then Some (snapshot_object sc p) else s) ps sn \<and>
    rv' = fold (\<lambda>p s. if pf_id p = a then Some (pf_revision p) else s) ps rv"
  using assms
proof (induction ps arbitrary: records sn rv d X)
  case Nil
  then show ?case by (simp add: run_Ok)
next
  case (Cons p ps)
  let ?x = "ps_raw (pf_snapshot p)"
  obtain i e where put: "put_object (sc_codec sc) ?x d = (Ok i, e)" and valid: "validate_profile p = Ok ()"
    and rest: "stage_profiles sc a ps (records @ [PersistedProfile_from_profile sc p i],
       (if pf_id p = a then Some i else sn), (if pf_id p = a then Some (pf_revision p) else rv)) e =
      (Ok (records', sn', rv'), d')"
    using Cons.prems(1) by (auto simp: run_Ok)
  have inj: "inj_on (sc_sha sc) (insert ?x X)"
    using Cons.prems(4) by (rule inj_on_subset) auto
  from put_object_stored [OF put _ Cons.prems(3) inj] Cons.prems(2)
  have one: "i = snapshot_object sc p" "stored (sc_codec sc) (insert ?x X) (files e)"
    "files e = (files d)\<lparr>d_objects := d_objects (files e)\<rparr>"
    by (auto simp: snapshot_object_def)
  have more: "insert ?x X \<union> (ps_raw \<circ> pf_snapshot) ` set ps = X \<union> (ps_raw \<circ> pf_snapshot) ` set (p # ps)"
    by auto
  have "files d' = (files e)\<lparr>d_objects := d_objects (files d')\<rparr> \<Longrightarrow> files d' = (files d)\<lparr>d_objects := d_objects (files d')\<rparr>"
    by (subst (asm) one(3)) simp
  then show ?case
    using Cons.IH [OF rest _ one(2), unfolded more] Cons.prems(2,4) one(1) valid by simp
qed

lemma staged_contents_eq:
  "pc_active_profile_id (as_profiles candidate) = Some active \<Longrightarrow>
   rules_to_yaml (sc_rules_to sc) (as_local_rules candidate) = Ok document \<Longrightarrow>
   sc_state_to sc (staged_state sc candidate active document) = Some state \<Longrightarrow>
   set (staged_contents sc candidate) = insert state (insert (as_effective_configuration candidate) {document} \<union>
     (ps_raw \<circ> pf_snapshot) ` set (map snd (pc_profiles (as_profiles candidate))))"
  by (auto simp: staged_contents_def)

lemma stage_candidate_runs:
  assumes "stage_candidate sc candidate d = (Ok b, d')"
  shows "\<exists>document active i j records e f g state k.
    state_validate_candidate candidate = Ok () \<and>
    length (as_effective_configuration candidate) \<le> EFFECTIVE_CONFIGURATION_MAX_BYTES \<and>
    rules_to_yaml (sc_rules_to sc) (as_local_rules candidate) = Ok document \<and>
    pc_active_profile_id (as_profiles candidate) = Some active \<and>
    put_object (sc_codec sc) document d = (Ok i, e) \<and>
    put_object (sc_codec sc) (as_effective_configuration candidate) e = (Ok j, f) \<and>
    stage_profiles sc active (map snd (pc_profiles (as_profiles candidate))) ([], None, None) f =
      (Ok (records, Some (tb_profile_snapshot b), Some (tb_profile_revision b)), g) \<and>
    sc_state_to sc (persisted_state sc candidate active i j records) = Some state \<and>
    length state \<le> SUPERVISOR_STATE_MAX_BYTES \<and> put_object (sc_codec sc) state g = (Ok k, d') \<and>
    b = \<lparr>tb_supervisor_state = k, tb_profile_snapshot = tb_profile_snapshot b, tb_local_rule_set = i,
      tb_effective_configuration = j, tb_profile_revision = tb_profile_revision b,
      tb_local_rule_set_revision = rs_revision (as_local_rules candidate), tb_active_profile_id = active,
      tb_runtime_generation = as_runtime_generation candidate\<rparr>"
  using assms unfolding stage_candidate_def
  by (auto simp: run_Ok result_simps split: if_splits prod.splits)

lemma stage_candidate_Ok:
  assumes "stage_candidate sc candidate d = (Ok b, d')"
    and "no_collision sc candidate" "in_memory sc candidate"
  shows "\<exists>active document state. staged_as sc candidate active document state b (files d')"
proof -
  let ?c = "sc_codec sc" and ?ps = "map snd (pc_profiles (as_profiles candidate))"
  obtain document active i j records e f g state k where
    valid: "state_validate_candidate candidate = Ok ()" "length (as_effective_configuration candidate) \<le> EFFECTIVE_CONFIGURATION_MAX_BYTES"
    and document: "rules_to_yaml (sc_rules_to sc) (as_local_rules candidate) = Ok document"
    and active: "pc_active_profile_id (as_profiles candidate) = Some active"
    and puts: "put_object ?c document d = (Ok i, e)" "put_object ?c (as_effective_configuration candidate) e = (Ok j, f)"
      "put_object ?c state g = (Ok k, d')"
    and profiles: "stage_profiles sc active ?ps ([], None, None) f =
      (Ok (records, Some (tb_profile_snapshot b), Some (tb_profile_revision b)), g)"
    and state: "sc_state_to sc (persisted_state sc candidate active i j records) = Some state"
      "length state \<le> SUPERVISOR_STATE_MAX_BYTES"
    and b: "b = \<lparr>tb_supervisor_state = k, tb_profile_snapshot = tb_profile_snapshot b, tb_local_rule_set = i,
      tb_effective_configuration = j, tb_profile_revision = tb_profile_revision b,
      tb_local_rule_set_revision = rs_revision (as_local_rules candidate), tb_active_profile_id = active,
      tb_runtime_generation = as_runtime_generation candidate\<rparr>"
    using stage_candidate_runs [OF assms(1)] by blast
  have fields: "tb_supervisor_state b = k" "tb_local_rule_set b = i" "tb_effective_configuration b = j"
    "tb_local_rule_set_revision b = rs_revision (as_local_rules candidate)" "tb_active_profile_id b = active"
    "tb_runtime_generation b = as_runtime_generation candidate"
    by (subst b, simp)+
  have small: "length document \<le> usize_max" "length (as_effective_configuration candidate) \<le> usize_max"
    "list_all (\<lambda>p. length (ps_raw (pf_snapshot p)) \<le> usize_max) ?ps"
    using assms(3) document active by (auto simp: in_memory_def staged_contents_def list_all_iff)
  have inj: "inj_on (sc_sha sc) X" if "X \<subseteq> set (staged_contents sc candidate)" for X
    using assms(2) that unfolding no_collision_def by (rule inj_on_subset)
  have all: "insert (as_effective_configuration candidate) {document} \<union> (ps_raw \<circ> pf_snapshot) ` set ?ps
      \<subseteq> set (staged_contents sc candidate)"
    using document active by (auto simp: staged_contents_def)
  have i: "i = ObjectId (sc_sha sc document)" "stored ?c {document} (files e)"
    using put_object_stored [OF puts(1) small(1), of "{}"] by (simp_all add: stored_def)
  have j: "j = ObjectId (sc_sha sc (as_effective_configuration candidate))"
    "stored ?c (insert (as_effective_configuration candidate) {document}) (files f)"
    using put_object_stored [OF puts(2) small(2) i(2) inj] all by auto
  note staged = stage_profiles_Ok [OF profiles small(3) j(2) inj [OF all]]
  have st: "sc_state_to sc (staged_state sc candidate active document) = Some state"
    using state(1) staged i(1) j(1) by (simp add: staged_state_def)
  note contents = staged_contents_eq [OF active document st]
  have k: "k = ObjectId (sc_sha sc state)" "stored ?c (set (staged_contents sc candidate)) (files d')"
    using put_object_stored [OF puts(3) _ conjunct1 [OF staged] inj] assms(3) contents
    by (auto simp: in_memory_def list_all_iff)
  show ?thesis
    unfolding staged_as_def
    by (intro exI [of _ active] exI [of _ document] exI [of _ state])
      (use valid document active st state(2) staged fields i(1) j(1) k in auto)
qed

lemma commit_Ok:
  assumes "prepare c b d = (Ok p, e)" "commit_prepared c p e = (Ok (), d')" "codec_ok c"
  shows "manifest_of c (files d') = Some \<lparr>cm_current = pt_candidate p, cm_previous = pt_previous p\<rparr> \<and>
    journal_of c (files d') = Some p \<and> bundle_at c (files d') (pt_candidate p) = Some b \<and>
    d_objects (files d') = d_objects (files d)"
proof -
  obtain s js where s: "cd_bundle_to c (bundle_to_dto c b) = Some s" "pt_candidate p = TransactionId (cd_sha256_hex c s)"
    and e: "files e = (files d)\<lparr>d_transactions := AList.update (cd_sha256_hex c s) s (d_transactions (files d)), d_prepared := Some js\<rparr>"
    using path_outcome [OF path_prepare [OF assms(3)], of b d] assms(1)
    by (auto simp: prepare_outcome_def prepared_as_def)
  obtain ms where ms: "manifest_text c p = Some ms" "files d' = (files e)\<lparr>d_manifest := Some ms\<rparr>" "journal_of c (files e) = Some p"
    using path_outcome [OF path_commit, of c p e] assms(2) by auto
  have "cd_manifest_from c ms = Some \<lparr>cm_current = pt_candidate p, cm_previous = pt_previous p\<rparr>"
    using ms(1) assms(3) by (simp add: manifest_text_def codec_ok_def)
  moreover have "bundle_at c (files e) (pt_candidate p) = Some b"
    using bundle_at_store [OF assms(3) s(1), of "files d" "pt_candidate p"] s(2) by (simp add: e)
  ultimately show ?thesis
    using ms(2,3) e by (simp add: manifest_of_def)
qed

section \<open>Loading what was staged\<close>

lemma quiet_read_object:
  "d_faults d = [] \<Longrightarrow> object_file (cd_sha256_hex c x) d = Some x \<Longrightarrow> length x \<le> limit \<Longrightarrow>
   read_object_limited c (ObjectId (cd_sha256_hex c x)) limit d = (Ok x, d)"
  by (simp add: read_object_limited_def quiet_read run_Ok)

lemma parse_refresh_stage_name [simp]: "parse_refresh_stage (refresh_stage_name s) = Ok s"
  by (cases s) (simp_all add: parse_refresh_stage_def)

lemma hydrate_selections_stored:
  assumes "bt_wf (m @ rest)" "list_all (\<lambda>(_, node). NodeRecordId_parse (node_text node) = Some node) rest"
  shows "hydrate_selections
      (map (\<lambda>(group_name, node). \<lparr>psel_group = group_name, psel_node_id = node_text node\<rparr>) rest) m = Ok (m @ rest)"
  using assms
proof (induction rest arbitrary: m)
  case (Cons gn rest)
  obtain g n where gn: "gn = (g, n)" by (cases gn)
  have less: "h < g" if "(h, w) \<in> set m" for h w
    using Cons.prems(1) that gn by (force simp: bt_wf_def sorted_wrt_append)
  then have "map_of m g = None"
    by (force simp: map_of_eq_None_iff)
  then show ?case
    using Cons.IH [of "m @ [(g, n)]"] Cons.prems gn less by (simp add: bt_contains_def bt_insert_last)
qed simp

lemma hydrate_failure_stored:
  "validate_profile p = Ok () \<Longrightarrow> pf_last_error p = Some f \<Longrightarrow>
   PersistedRefreshFailure_hydrate (PersistedRefreshFailure_from f) = Ok f"
  by (auto simp: validate_profile_def result_simps PersistedRefreshFailure_hydrate_def PersistedRefreshFailure_from_def
      split: if_splits)

lemma hydrate_profile_stored:
  assumes "codec_ok (sc_codec sc)" "d_faults d = []" "validate_profile p = Ok ()" "profile_storable sc limits p"
    and "object_file (sc_sha sc (ps_raw (pf_snapshot p))) d = Some (ps_raw (pf_snapshot p))"
  shows "PersistedProfile_hydrate sc limits (PersistedProfile_from_profile sc p (snapshot_object sc p)) d = (Ok p, d)"
proof -
  have valid: "validate_name (pf_name p) = Ok ()" "pf_revision p \<noteq> 0" "length (pf_selections p) \<le> MAX_ACTIVE_NODES"
    using assms(3) by (auto simp: validate_profile_def result_simps split: if_splits)
  have raw: "snapshot_parse (sc_yaml_from_slice sc) (sc_sha sc) (ps_raw (pf_snapshot p)) limits = Ok (pf_snapshot p)"
    and url: "SubscriptionUrl_parse (sc_url_parse sc) (sc_url_text sc (pf_subscription_url p)) = Some (pf_subscription_url p)"
    and sel: "bt_wf ([] @ pf_selections p)" "list_all (\<lambda>(_, node). NodeRecordId_parse (node_text node) = Some node) (pf_selections p)"
    using assms(4) by (auto simp: profile_storable_def)
  have "length (ps_raw (pf_snapshot p)) \<le> sl_max_bytes limits"
    using raw by (auto simp: snapshot_parse_def split: if_splits)
  with assms(2,5) have read: "read_object_limited (sc_codec sc) (snapshot_object sc p) (sl_max_bytes limits) d =
      (Ok (ps_raw (pf_snapshot p)), d)"
    unfolding snapshot_object_def by (intro quiet_read_object)
  have failure: "(case map_option PersistedRefreshFailure_from (pf_last_error p) of None \<Rightarrow> Ok None
      | Some failure \<Rightarrow> and_then (PersistedRefreshFailure_hydrate failure) (\<lambda>f. Ok (Some f))) = Ok (pf_last_error p)"
    using hydrate_failure_stored [OF assms(3)] by (auto simp: result_simps split: option.splits)
  have ident: "cd_id_parse (sc_codec sc) (cd_id_text (sc_codec sc) (pf_id p)) = Some (pf_id p)"
    using assms(1) by (simp add: codec_ok_def)
  note sel' = hydrate_selections_stored [OF sel, simplified]
  show ?thesis
    unfolding PersistedProfile_hydrate_def PersistedProfile_from_profile_def
    by (simp add: run_Ok ident valid url raw read sel' failure [simplified] not_less)
qed

lemma hydrate_profiles_stored:
  assumes "list_all (\<lambda>p. PersistedProfile_hydrate sc limits (PersistedProfile_from_profile sc p (snapshot_object sc p)) d = (Ok p, d)) ps"
    and "codec_ok (sc_codec sc)" "distinct (map pf_id ps)" "pf_id ` set ps \<inter> set seen = {}"
  shows "\<exists>seen'. hydrate_profiles sc limits a
      (map (\<lambda>p. PersistedProfile_from_profile sc p (snapshot_object sc p)) ps) (seen, out, sn, rv) d =
    (Ok (seen', out @ ps,
       fold (\<lambda>p s. if pf_id p = a then Some (snapshot_object sc p) else s) ps sn,
       fold (\<lambda>p s. if pf_id p = a then Some (pf_revision p) else s) ps rv), d)"
  using assms
proof (induction ps arbitrary: seen out sn rv)
  case Nil
  then show ?case by (simp add: run_Ok)
next
  case (Cons p ps)
  have fields: "cd_id_parse (sc_codec sc) (pp_id (PersistedProfile_from_profile sc p s)) = Some (pf_id p)"
    "pp_snapshot (PersistedProfile_from_profile sc p s) = s" "pp_revision (PersistedProfile_from_profile sc p s) = pf_revision p" for s
    using Cons.prems(2) by (simp_all add: codec_ok_def PersistedProfile_from_profile_def)
  show ?case
    using Cons.IH [of "bs_insert (pf_id p) seen" "out @ [p]"] Cons.prems
    by (auto simp: run_Ok fields btree_simps)
qed

lemma catalog_distinct: "catalog_inv c \<Longrightarrow> distinct (map pf_id (map snd (pc_profiles c)))"
proof -
  assume inv: "catalog_inv c"
  then have "map pf_id (map snd (pc_profiles c)) = map fst (pc_profiles c)"
    by (auto simp: catalog_inv_def list_all_iff)
  then show ?thesis using inv bt_wf_distinct unfolding catalog_inv_def by metis
qed

lemma rules_stored:
  assumes "state_codec_ok sc" "rules_storable sc limits s" "rules_to_yaml (sc_rules_to sc) s = Ok document"
  shows "rules_from_yaml (sc_rules_from sc) document (rs_revision s) limits = Ok s \<and> utf8_valid document \<and>
    length document \<le> max_document_bytes limits"
proof -
  obtain rules where rules: "rs_rules s = Some rules" "sc_rules_to sc (map rule_text rules) = Ok document"
    using assms(3) by (auto simp: rules_to_yaml_def result_simps)
  have "rules_from_yaml (sc_rules_from sc) document (rs_revision s) limits = Ok (rules_initialized_at rules (rs_revision s))"
    using assms rules by (intro rules_from_yaml_accepts) (auto simp: rules_storable_def state_codec_ok_def list_all_iff)
  with rules assms show ?thesis
    by (cases s) (auto simp: rules_initialized_at_def state_codec_ok_def rules_storable_def)
qed

lemma staged_as_read:
  assumes "staged_as sc candidate active document state b d" "d_faults d = []"
  shows "read_object_limited (sc_codec sc) (tb_supervisor_state b) SUPERVISOR_STATE_MAX_BYTES d = (Ok state, d)"
    and "length document \<le> n \<Longrightarrow> read_object_limited (sc_codec sc) (tb_local_rule_set b) n d = (Ok document, d)"
    and "read_object_limited (sc_codec sc) (tb_effective_configuration b) EFFECTIVE_CONFIGURATION_MAX_BYTES d =
      (Ok (as_effective_configuration candidate), d)"
    and "p \<in> snd ` set (pc_profiles (as_profiles candidate)) \<Longrightarrow>
      object_file (sc_sha sc (ps_raw (pf_snapshot p))) d = Some (ps_raw (pf_snapshot p))"
  using assms staged_contents_eq [of candidate active sc document state]
  by (auto simp: staged_as_def stored_def intro!: quiet_read_object)

lemma staged_as_header:
  assumes "staged_as sc candidate active document state b F"
  shows "validate_state_header sc (staged_state sc candidate active document) b = Ok ()"
  using assms
  by (auto simp: staged_as_def state_validate_candidate_def validate_state_header_def staged_state_def persisted_state_def
      split: if_splits)

lemma load_state_stored:
  assumes ok: "state_codec_ok sc" and staged: "staged_as sc candidate active document state b d" and quiet: "d_faults d = []"
    and inv: "catalog_inv (as_profiles candidate)"
    and profiles: "list_all (profile_storable sc sl) (map snd (pc_profiles (as_profiles candidate)))"
    and rules: "rules_storable sc rl (as_local_rules candidate)"
  shows "load_state sc sl rl b d = (Ok (hydrated candidate), d)"
proof -
  let ?ps = "map snd (pc_profiles (as_profiles candidate))"
  let ?st = "staged_state sc candidate active document"
  have codec: "codec_ok (sc_codec sc)" and state: "sc_state_from sc state = Some ?st"
    using ok staged by (auto simp: state_codec_ok_def staged_as_def)
  have each: "list_all (\<lambda>p. PersistedProfile_hydrate sc sl (PersistedProfile_from_profile sc p (snapshot_object sc p)) d = (Ok p, d)) ?ps"
    using staged profiles staged_as_read(4) [OF staged quiet]
    by (auto simp: list_all_iff staged_as_def intro!: hydrate_profile_stored [OF codec quiet])
  obtain seen where hydrate: "hydrate_profiles sc sl active (pss_profiles ?st) ([], [], None, None) d =
      (Ok (seen, ?ps, Some (tb_profile_snapshot b), Some (tb_profile_revision b)), d)"
    using hydrate_profiles_stored [OF each codec catalog_distinct [OF inv], of "[]" active "[]" None None] staged
    by (auto simp: staged_as_def staged_state_def persisted_state_def)
  have fields: "cd_id_parse (sc_codec sc) (pss_active_profile_id ?st) = Some active"
    "pss_local_rule_set ?st = tb_local_rule_set b" "pss_effective_configuration ?st = tb_effective_configuration b"
    "pss_active_revision ?st = pc_active_revision (as_profiles candidate)"
    "pss_local_rule_set_revision ?st = rs_revision (as_local_rules candidate)"
    "pss_runtime_generation ?st = as_runtime_generation candidate"
    using codec staged by (auto simp: staged_state_def persisted_state_def codec_ok_def staged_as_def)
  have restore: "catalog_restore ?ps active (pc_active_revision (as_profiles candidate)) = Ok (as_profiles candidate)"
    using staged by (intro conjunct1 [OF catalog_restore_round_trip] inv) (auto simp: staged_as_def state_validate_candidate_def split: if_splits)
  have doc: "rules_from_yaml (sc_rules_from sc) document (rs_revision (as_local_rules candidate)) rl = Ok (as_local_rules candidate)"
    "utf8_valid document" "length document \<le> max_document_bytes rl"
    using rules_stored [OF ok rules] staged by (auto simp: staged_as_def)
  note read = staged_as_read(1) [OF staged quiet] staged_as_read(2) [OF staged quiet doc(3)] staged_as_read(3) [OF staged quiet]
  have "length state \<le> SUPERVISOR_STATE_MAX_BYTES"
    using staged by (simp add: staged_as_def)
  then show ?thesis
    unfolding load_state_def
    by (simp add: run_Ok read state staged_as_header [OF staged] fields hydrate restore doc not_less hydrated_def)
qed

lemma staged_as_cong:
  "d_objects F = d_objects G \<Longrightarrow> staged_as sc candidate active document state b F = staged_as sc candidate active document state b G"
  by (simp add: staged_as_def stored_def object_file_def)

lemma commit_staged:
  assumes "state_codec_ok sc" "no_collision sc candidate" "in_memory sc candidate"
    and "stage_candidate sc candidate d = (Ok b, d1)"
    and "prepare (sc_codec sc) b d1 = (Ok p, d2)" "commit_prepared (sc_codec sc) p d2 = (Ok (), d3)"
  shows "\<exists>m active document state. manifest_of (sc_codec sc) (files d3) = Some m \<and> journal_of (sc_codec sc) (files d3) \<noteq> None \<and>
    bundle_at (sc_codec sc) (files d3) (cm_current m) = Some b \<and>
    staged_as sc candidate active document state b (files d3)"
proof -
  have ok: "codec_ok (sc_codec sc)" using assms(1) by (simp add: state_codec_ok_def)
  note c = commit_Ok [OF assms(5,6) ok]
  obtain active document state where "staged_as sc candidate active document state b (files d1)"
    using stage_candidate_Ok [OF assms(4,2,3)] by blast
  with c show ?thesis using staged_as_cong [of "files d3" "files d1"] by fastforce
qed

section \<open>What loading depends on\<close>

lemma hydrate_profile_Ok:
  assumes "PersistedProfile_hydrate sc limits r d = (Ok p, d')"
  shows "files d' = files d \<and> SubscriptionUrl_parse (sc_url_parse sc) (pp_subscription_url r) \<noteq> None"
proof -
  obtain raw where "read_object_limited (sc_codec sc) (pp_snapshot r) (sl_max_bytes limits) d = (Ok raw, d')"
    "SubscriptionUrl_parse (sc_url_parse sc) (pp_subscription_url r) \<noteq> None"
    using assms unfolding PersistedProfile_hydrate_def by (auto simp: run_Ok result_simps split: if_splits)
  then show ?thesis using reads_Ok [OF reads_object_limited] by blast
qed

lemma hydrate_profiles_Ok:
  "hydrate_profiles sc limits a rs acc d = (Ok acc', d') \<Longrightarrow>
   files d' = files d \<and> list_all (\<lambda>r. SubscriptionUrl_parse (sc_url_parse sc) (pp_subscription_url r) \<noteq> None) rs"
proof (induction rs arbitrary: acc d)
  case (Cons r rs)
  obtain seen ps sn rv where acc: "acc = (seen, ps, sn, rv)" by (cases acc)
  obtain p e acc2 where step: "PersistedProfile_hydrate sc limits r d = (Ok p, e)"
    and rest: "hydrate_profiles sc limits a rs acc2 e = (Ok acc', d')"
    using Cons.prems unfolding acc hydrate_profiles.simps(2) run_Ok by (auto simp: run_Ok split: if_splits)
  show ?case using hydrate_profile_Ok [OF step] Cons.IH [OF rest] by simp
qed (simp add: run_Ok)

lemma load_state_Ok:
  assumes "load_state sc sl rl b d = (Ok h, d')"
  shows "\<exists>raw state document. object_file (object_text (tb_supervisor_state b)) (files d) = Some raw \<and>
    sc_state_from sc raw = Some state \<and>
    list_all (\<lambda>r. SubscriptionUrl_parse (sc_url_parse sc) (pp_subscription_url r) \<noteq> None) (pss_profiles state) \<and>
    object_file (object_text (pss_local_rule_set state)) (files d) = Some document \<and>
    is_ok (rules_from_yaml (sc_rules_from sc) document (pss_local_rule_set_revision state) rl)"
proof -
  obtain raw state active acc acc' document e f g where
    raw: "read_object_limited (sc_codec sc) (tb_supervisor_state b) SUPERVISOR_STATE_MAX_BYTES d = (Ok raw, e)"
    and state: "sc_state_from sc raw = Some state"
    and profiles: "hydrate_profiles sc sl active (pss_profiles state) acc e = (Ok acc', f)"
    and document: "read_object_limited (sc_codec sc) (pss_local_rule_set state) (max_document_bytes rl) f = (Ok document, g)"
    and rules: "is_ok (rules_from_yaml (sc_rules_from sc) document (pss_local_rule_set_revision state) rl)"
    using assms unfolding load_state_def by (auto simp: run_Ok result_simps is_ok_iff split: if_splits prod.splits)
  from reads_Ok [OF reads_object_limited raw] have 1: "files e = files d" "object_file (object_text (tb_supervisor_state b)) (files d) = Some raw"
    by auto
  from hydrate_profiles_Ok [OF profiles] have 2: "files f = files e"
    "list_all (\<lambda>r. SubscriptionUrl_parse (sc_url_parse sc) (pp_subscription_url r) \<noteq> None) (pss_profiles state)" by auto
  from reads_Ok [OF reads_object_limited document] have "object_file (object_text (pss_local_rule_set state)) (files f) = Some document"
    by auto
  with 1 2 state rules show ?thesis by auto
qed

lemma load_committed_Ok:
  assumes "load_committed sc sl rl d = (Ok r, d')" "manifest_of (sc_codec sc) (files d) = Some m"
    and "bundle_at (sc_codec sc) (files d) (cm_current m) = Some b"
  shows "\<exists>h e. files e = files d \<and> load_state sc sl rl b e = (Ok h, d') \<and> r = Some h"
proof -
  obtain s e where rec: "recover (sc_codec sc) d = (Ok s, e)"
    and rest: "(case rv_committed s of None \<Rightarrow> ret (Ok None)
      | Some manifest \<Rightarrow> try_bnd (fail_with state_io (load_transaction (sc_codec sc) (cm_current manifest))) (\<lambda>bundle.
        try_bnd (load_state sc sl rl bundle) (\<lambda>hydrated. ret (Ok (Some hydrated))))) e = (Ok r, d')"
    using assms(1) unfolding load_committed_def by (auto simp: run_Ok)
  from reads_Ok [OF reads_recover rec] assms(2) have s: "files e = files d" "rv_committed s = Some m" by auto
  with rest obtain b' f h where load: "load_transaction (sc_codec sc) (cm_current m) e = (Ok b', f)"
    and h: "load_state sc sl rl b' f = (Ok h, d')" "r = Some h"
    by (auto simp: run_Ok)
  from reads_Ok [OF reads_load load] s(1) assms(3) have "files f = files d" "b' = b" by auto
  with h show ?thesis by auto
qed

text \<open>Candidates that pass every check of staging although loading refuses them.\<close>

definition oversized :: "StateCodec \<Rightarrow> RuleSetLimits \<Rightarrow> AuthoritativeState \<Rightarrow> bool" where
  "oversized sc limits candidate \<longleftrightarrow>
    (case rs_rules (as_local_rules candidate) of None \<Rightarrow> False | Some rules \<Rightarrow> length rules > max_rule_count limits) \<or>
    list_ex (\<lambda>p. length (sc_url_text sc (pf_subscription_url p)) > SUBSCRIPTION_URL_MAX_BYTES)
      (map snd (pc_profiles (as_profiles candidate)))"

lemma oversized_not_loaded:
  assumes "state_codec_ok sc" "staged_as sc candidate active document state b (files d)" "oversized sc rl candidate"
  shows "load_state sc sl rl b d \<noteq> (Ok h, d')"
proof
  assume "load_state sc sl rl b d = (Ok h, d')"
  from load_state_Ok [OF this] obtain raw st doc where
    raw: "object_file (object_text (tb_supervisor_state b)) (files d) = Some raw" "sc_state_from sc raw = Some st"
    and urls: "list_all (\<lambda>r. SubscriptionUrl_parse (sc_url_parse sc) (pp_subscription_url r) \<noteq> None) (pss_profiles st)"
    and doc: "object_file (object_text (pss_local_rule_set st)) (files d) = Some doc"
      "is_ok (rules_from_yaml (sc_rules_from sc) doc (pss_local_rule_set_revision st) rl)" by blast
  have st: "st = staged_state sc candidate active document"
    using raw assms(1,2) staged_contents_eq [of candidate active sc document state]
    by (auto simp: staged_as_def stored_def state_codec_ok_def)
  have "doc = document"
    using doc(1) assms(2) staged_contents_eq [of candidate active sc document state]
    by (auto simp: st staged_as_def stored_def staged_state_def persisted_state_def)
  then obtain vs where "sc_rules_from sc document = Ok vs" "length vs \<le> max_rule_count rl"
    using doc(2) rules_from_yaml_Ok unfolding is_ok_iff by (metis length_map)
  moreover have "list_all (\<lambda>p. length (sc_url_text sc (pf_subscription_url p)) \<le> SUBSCRIPTION_URL_MAX_BYTES)
      (map snd (pc_profiles (as_profiles candidate)))"
    using urls by (auto simp: st staged_state_def persisted_state_def list_all_iff PersistedProfile_from_profile_def
        SubscriptionUrl_parse_def split: if_splits)
  ultimately show False
    using assms by (auto simp: oversized_def staged_as_def rules_to_yaml_def result_simps state_codec_ok_def list_all_iff list_ex_iff
        split: option.splits)
qed

text \<open>The name that falls back to the host is not bounded, but a stored name is.\<close>

lemma long_host_name_rejected:
  assumes "Option.bind metadata_name normalize_name = None" "filename_name percent_decode u = None"
    and "url_host u = Some host" "length host > 71" "length (id_text i) \<ge> 8"
  shows "validate_name (dn_value (derive_profile_name percent_decode id_text metadata_name u i)) = Err state_invalid"
  using assms by (simp add: derive_profile_name_def validate_name_def PROFILE_METADATA_NAME_MAX_BYTES_def)

section \<open>Writing without faults\<close>

lemma quiet_put:
  "d_faults d = [] \<Longrightarrow> put_object c x d =
    (Ok (ObjectId (cd_sha256_hex c x)), d\<lparr>d_objects := AList.update (cd_sha256_hex c x) x (d_objects d)\<rparr>)"
  by (auto simp: put_object_def quiet_write_defs run_defs object_file_def update_same split: option.splits)

lemma quiet_replace:
  "d_faults d = [] \<Longrightarrow> d_faults (put d) = [] \<Longrightarrow> replace_private_file put d = (Ok (), put d)"
  by (simp add: quiet_write_defs run_defs)

lemma quiet_prepare:
  assumes "d_faults d = []" "d_prepared d = None" "d_manifest d = None" "objects_present c d b"
    and "cd_bundle_to c (bundle_to_dto c b) = Some s" "p = \<lparr>pt_candidate = TransactionId (cd_sha256_hex c s), pt_previous = None\<rparr>"
    and "cd_prepared_to c p = Some js"
  shows "prepare c b d = (Ok p, d\<lparr>d_transactions := AList.update (cd_sha256_hex c s) s (d_transactions d), d_prepared := Some js\<rparr>)"
proof -
  have "put_immutable (transaction_file n) (\<lambda>d. d\<lparr>d_transactions := AList.update n s (d_transactions d)\<rparr>) s d =
      (Ok (), d\<lparr>d_transactions := AList.update n s (d_transactions d)\<rparr>)" for n
    using assms(1) by (auto simp: quiet_write_defs run_defs transaction_file_def update_same split: option.splits)
  moreover have "read_journal c d = (Ok None, d)"
    "read_manifest c (d\<lparr>d_transactions := ts\<rparr>) = (Ok None, d\<lparr>d_transactions := ts\<rparr>)" for ts
    using assms(1-3) by (simp_all add: read_journal_def read_manifest_def quiet_optional_json)
  ultimately show ?thesis
    using assms quiet_verify [OF assms(1,4)] by (simp add: prepare_def write_journal_def run_Ok Let_def quiet_replace)
qed

lemma quiet_commit:
  assumes "d_faults d = []" "journal_of c d = Some p" "d_manifest d = None" "pt_previous p = None"
    and "bundle_at c d (pt_candidate p) = Some b" "objects_present c d b"
    and "cd_manifest_to c \<lparr>cm_current = pt_candidate p, cm_previous = None\<rparr> = Some js"
  shows "commit_prepared c p d = (Ok (), d\<lparr>d_manifest := Some js\<rparr>)"
proof -
  have "read_journal c d = (Ok (Some p), d)" "read_manifest c d = (Ok None, d)"
    using assms(1-3) by (auto simp: read_journal_def read_manifest_def journal_of_def quiet_optional_json)
  then show ?thesis
    using assms quiet_verify [OF assms(1,6)] quiet_load [OF assms(1,5)]
    by (simp add: commit_prepared_def run_Ok quiet_replace)
qed

section \<open>A sample store\<close>

definition sample_hex_of :: "string \<Rightarrow> string" where
  "sample_hex_of s = replicate 64
    (if s = ''bundle'' then CHR ''2'' else if s = ''rules'' then CHR ''3'' else if s = ''config'' then CHR ''4''
     else if s = ''{}'' then CHR ''5'' else CHR ''1'')"

definition sample_url :: Url where
  "sample_url = \<lparr>url_scheme = ''https'', url_userinfo = [], url_host = Some ''h'', url_origin = ''https://h'',
     url_path_segments = None, url_query = None, url_fragment = None\<rparr>"

definition sample_profile :: Profile where
  "sample_profile = profile_new (ProfileId 0) ''home'' sample_url
     \<lparr>ps_raw = ''{}'', ps_document = [], ps_rule_strings = [], ps_content_sha256 = sample_hex_of ''{}''\<rparr> 1 2"

definition sample_stored_candidate :: "RuleString list \<Rightarrow> AuthoritativeState" where
  "sample_stored_candidate rules =
    \<lparr>as_profiles = \<lparr>pc_profiles = [(ProfileId 0, sample_profile)], pc_active_profile_id = Some (ProfileId 0), pc_active_revision = 1\<rparr>,
     as_local_rules = rules_initialized rules,
     as_effective_configuration = ''config'', as_runtime_generation = 1\<rparr>"

definition sample_stored_bundle :: TransactionBundle where
  "sample_stored_bundle =
    \<lparr>tb_supervisor_state = ObjectId (sample_hex_of ''state''), tb_profile_snapshot = ObjectId (sample_hex_of ''{}''),
     tb_local_rule_set = ObjectId (sample_hex_of ''rules''), tb_effective_configuration = ObjectId (sample_hex_of ''config''),
     tb_profile_revision = 1, tb_local_rule_set_revision = 1, tb_active_profile_id = ProfileId 0, tb_runtime_generation = 1\<rparr>"

definition sample_stored_dto :: TransactionBundleDto where
  "sample_stored_dto = bundle_to_dto sample_codec sample_stored_bundle"

definition sample_stored_state :: "string \<Rightarrow> PersistedSupervisorState" where
  "sample_stored_state url =
    \<lparr>pss_schema_version = 1, pss_active_profile_id = [], pss_active_revision = 1,
     pss_local_rule_set = ObjectId (sample_hex_of ''rules''), pss_local_rule_set_revision = 1,
     pss_effective_configuration = ObjectId (sample_hex_of ''config''), pss_runtime_generation = 1,
     pss_profiles = [\<lparr>pp_id = [], pp_name = ''home'', pp_subscription_url = url,
       pp_snapshot = ObjectId (sample_hex_of ''{}''), pp_revision = 1, pp_last_success_at_unix_ms = 1, pp_last_error = None,
       pp_next_refresh_at_unix_ms = 2, pp_selections = []\<rparr>]\<rparr>"

definition sample_state_codec :: "RuleString list \<Rightarrow> string \<Rightarrow> StateCodec" where
  "sample_state_codec rules url =
    \<lparr>sc_codec = sample_codec\<lparr>cd_sha256_hex := sample_hex_of,
       cd_bundle_to := (\<lambda>b. if b = sample_stored_dto then Some ''bundle'' else None),
       cd_bundle_from := (\<lambda>s. if s = ''bundle'' then Some sample_stored_dto else None)\<rparr>,
     sc_state_to = (\<lambda>x. if x = sample_stored_state url then Some ''state'' else None),
     sc_state_from = (\<lambda>s. if s = ''state'' then Some (sample_stored_state url) else None),
     sc_rules_to = (\<lambda>texts. if texts = map rule_text rules then Ok ''rules'' else Err ''unsupported''),
     sc_rules_from = (\<lambda>s. if s = ''rules'' then Ok (map rule_text rules) else Err ''unsupported''),
     sc_url_text = (\<lambda>_. url), sc_url_parse = (\<lambda>_. Some sample_url),
     sc_yaml_from_slice = (\<lambda>_. Some (VMapping []))\<rparr>"

text \<open>A rule set and a URL within the limits, and one of each beyond them.\<close>

definition few_rules :: "RuleString list" where
  "few_rules = [RuleString ''MATCH,A'']"

definition many_rules :: "RuleString list" where
  "many_rules = replicate 20001 (RuleString ''MATCH,A'')"

definition typed_url :: string where
  "typed_url = ''https://h/'' @ replicate 3000 CHR '' '' @ ''a''"

definition escaped_url :: string where
  "escaped_url = ''https://h/'' @ concat (replicate 3000 ''%20'') @ ''a''"

definition sample_objects_list :: "(string \<times> string) list" where
  "sample_objects_list = [(sample_hex_of ''rules'', ''rules''), (sample_hex_of ''config'', ''config''),
     (sample_hex_of ''{}'', ''{}''), (sample_hex_of ''state'', ''state'')]"

lemma sample_hex_neq [simp]:
  "sample_hex_of ''rules'' \<noteq> sample_hex_of ''config''" "sample_hex_of ''rules'' \<noteq> sample_hex_of ''{}''"
  "sample_hex_of ''rules'' \<noteq> sample_hex_of ''state''" "sample_hex_of ''config'' \<noteq> sample_hex_of ''{}''"
  "sample_hex_of ''config'' \<noteq> sample_hex_of ''state''" "sample_hex_of ''{}'' \<noteq> sample_hex_of ''state''"
  by (simp_all add: sample_hex_of_def)

lemma sample_sha [simp]: "sc_sha (sample_state_codec rules url) = sample_hex_of"
  by (simp add: sample_state_codec_def)

lemma sample_state_codec_ok: "state_codec_ok (sample_state_codec rules url)"
  using sample_codec_ok
  by (auto simp: state_codec_ok_def codec_ok_def sample_state_codec_def sample_codec_def utf8_valid_def utf8_width_def split: if_splits)

lemma sample_staged_state: "staged_state (sample_state_codec rules url) (sample_stored_candidate rules) (ProfileId 0) ''rules'' =
    sample_stored_state url"
  by (simp add: staged_state_def persisted_state_def sample_stored_candidate_def sample_state_codec_def sample_stored_state_def
      sample_profile_def profile_new_def PersistedProfile_from_profile_def snapshot_object_def sample_codec_def
      rules_initialized_def rules_initialized_at_def STATE_SCHEMA_VERSION_def)

lemma sample_rules_yaml: "rules_to_yaml (sc_rules_to (sample_state_codec rules url)) (as_local_rules (sample_stored_candidate rules)) = Ok ''rules''"
  by (simp add: rules_to_yaml_def sample_stored_candidate_def sample_state_codec_def rules_initialized_def rules_initialized_at_def)

lemma sample_contents: "staged_contents (sample_state_codec rules url) (sample_stored_candidate rules) = [''rules'', ''config'', ''{}'', ''state'']"
  using sample_staged_state [of rules url] sample_rules_yaml [of rules url]
  by (simp add: staged_contents_def sample_stored_candidate_def)
    (simp add: sample_state_codec_def sample_profile_def profile_new_def)

lemma sample_fits:
  "no_collision (sample_state_codec rules url) (sample_stored_candidate rules)"
  "in_memory (sample_state_codec rules url) (sample_stored_candidate rules)"
  by (auto simp: no_collision_def in_memory_def sample_contents sample_sha usize_max_def)

lemma sample_stored_candidate_valid: "state_validate_candidate (sample_stored_candidate rules) = Ok ()" "validate_profile sample_profile = Ok ()"
  "length (as_effective_configuration (sample_stored_candidate rules)) \<le> EFFECTIVE_CONFIGURATION_MAX_BYTES"
  by (simp_all add: state_validate_candidate_def validate_profile_def validate_name_def sample_stored_candidate_def sample_profile_def
      profile_new_def rules_initialized_def rules_initialized_at_def constant_defs utf8_width_def)

lemma sample_stage: "stage_candidate (sample_state_codec rules url) (sample_stored_candidate rules) (empty_disk []) =
    (Ok sample_stored_bundle, (empty_disk [])\<lparr>d_objects := sample_objects_list\<rparr>)"
proof -
  have fields: "pc_active_profile_id (as_profiles (sample_stored_candidate rules)) = Some (ProfileId 0)"
    "map snd (pc_profiles (as_profiles (sample_stored_candidate rules))) = [sample_profile]"
    "ps_raw (pf_snapshot sample_profile) = ''{}''" "pf_id sample_profile = ProfileId 0" "pf_revision sample_profile = 1"
    "as_effective_configuration (sample_stored_candidate rules) = ''config''" "rs_revision (as_local_rules (sample_stored_candidate rules)) = 1"
    "as_runtime_generation (sample_stored_candidate rules) = 1"
    by (simp_all add: sample_stored_candidate_def sample_profile_def profile_new_def rules_initialized_def rules_initialized_at_def)
  have state: "sc_state_to (sample_state_codec rules url) (persisted_state (sample_state_codec rules url) (sample_stored_candidate rules) (ProfileId 0)
      (ObjectId (sample_hex_of ''rules'')) (ObjectId (sample_hex_of ''config''))
      [PersistedProfile_from_profile (sample_state_codec rules url) sample_profile (ObjectId (sample_hex_of ''{}''))]) = Some ''state''"
    using sample_staged_state [of rules url] by (simp add: staged_state_def fields sample_sha snapshot_object_def) (simp add: sample_state_codec_def)
  have empty: "d_faults (empty_disk []) = []" "d_objects (empty_disk []) = []" by (simp_all add: empty_disk_def)
  show ?thesis
    using sample_stored_candidate_valid(1,3) [of rules] sample_stored_candidate_valid(2)
    by (simp add: stage_candidate_def run_Ok sample_rules_yaml quiet_put fields sample_sha state empty not_less
        sample_objects_list_def sample_stored_bundle_def SUPERVISOR_STATE_MAX_BYTES_def)
qed

lemma sample_stored_present: "objects_present (sc_codec (sample_state_codec rules url))
    ((empty_disk [])\<lparr>d_objects := sample_objects_list, d_transactions := ts, d_prepared := j\<rparr>) sample_stored_bundle"
  by (simp add: objects_present_def object_present_def bundle_objects_def sample_stored_bundle_def object_file_def
      sample_objects_list_def sample_sha usize_max_def)

lemma sample_stored_texts:
  "cd_bundle_to (sc_codec (sample_state_codec rules url)) (bundle_to_dto (sc_codec (sample_state_codec rules url)) sample_stored_bundle) = Some ''bundle''"
  "cd_prepared_to (sc_codec (sample_state_codec rules url)) sample_prepared = Some ''prepared''"
  "cd_prepared_from (sc_codec (sample_state_codec rules url)) ''prepared'' = Some sample_prepared"
  "cd_manifest_to (sc_codec (sample_state_codec rules url)) sample_manifest = Some ''manifest''"
  "sample_prepared = \<lparr>pt_candidate = TransactionId (sample_hex_of ''bundle''), pt_previous = None\<rparr>"
  by (simp_all add: sample_state_codec_def sample_codec_def sample_stored_dto_def bundle_to_dto_def sample_prepared_def sample_hex_of_def)

lemma sample_stored_prepare: "prepare (sc_codec (sample_state_codec rules url)) sample_stored_bundle ((empty_disk [])\<lparr>d_objects := sample_objects_list\<rparr>) =
    (Ok sample_prepared, (empty_disk [])\<lparr>d_objects := sample_objects_list, d_transactions := [(sample_hex_of ''bundle'', ''bundle'')],
       d_prepared := Some ''prepared''\<rparr>)"
proof -
  have "objects_present (sc_codec (sample_state_codec rules url)) ((empty_disk [])\<lparr>d_objects := sample_objects_list\<rparr>) sample_stored_bundle"
    using sample_stored_present [where ts = "[]" and j = None] by (simp add: empty_disk_def)
  from quiet_prepare [OF _ _ _ this sample_stored_texts(1) _ sample_stored_texts(2)] show ?thesis
    by (simp add: empty_disk_def sample_sha sample_stored_texts(5))
qed

lemma sample_stored_commit: "commit_prepared (sc_codec (sample_state_codec rules url)) sample_prepared
    ((empty_disk [])\<lparr>d_objects := sample_objects_list, d_transactions := [(sample_hex_of ''bundle'', ''bundle'')],
       d_prepared := Some ''prepared''\<rparr>) =
    (Ok (), (empty_disk [])\<lparr>d_objects := sample_objects_list, d_transactions := [(sample_hex_of ''bundle'', ''bundle'')],
       d_prepared := Some ''prepared'', d_manifest := Some ''manifest''\<rparr>)"
proof -
  let ?d = "(empty_disk [])\<lparr>d_objects := sample_objects_list, d_transactions := [(sample_hex_of ''bundle'', ''bundle'')],
       d_prepared := Some ''prepared''\<rparr>"
  have "decode_bundle (sc_codec (sample_state_codec rules url)) ''bundle'' = Ok sample_stored_bundle"
    using sample_state_codec_ok [of rules url] sample_stored_texts(1) by (intro decode_bundle_to) (simp_all add: state_codec_ok_def)
  then have "bundle_at (sc_codec (sample_state_codec rules url)) ?d (pt_candidate sample_prepared) = Some sample_stored_bundle"
    by (simp add: bundle_at_def transaction_file_def sample_stored_texts(5) sample_sha)
  from quiet_commit [OF _ _ _ _ this sample_stored_present, of "''manifest''"] show ?thesis
    using sample_stored_texts(3,4) by (simp add: empty_disk_def journal_of_def sample_prepared_def sample_manifest_def)
qed

lemma sample_storable:
  "list_all (profile_storable (sample_state_codec few_rules ''https://h/'') \<lparr>sl_max_bytes = 10, sl_max_depth = 4\<rparr>)
     (map snd (pc_profiles (as_profiles (sample_stored_candidate few_rules))))"
  "rules_storable (sample_state_codec few_rules ''https://h/'') rule_set_limits_product (as_local_rules (sample_stored_candidate few_rules))"
  "catalog_inv (as_profiles (sample_stored_candidate few_rules))"
  unfolding profile_storable_def rules_storable_def sample_rules_yaml
  by (simp_all add: sample_stored_candidate_def sample_profile_def profile_new_def snapshot_parse_def strip_prefix_def utf8_bom_def
      sample_state_codec_def extract_rules_def SubscriptionUrl_parse_def SUBSCRIPTION_URL_MAX_BYTES_def sample_url_def
      few_rules_def rules_initialized_def rules_initialized_at_def rule_set_limits_product_def rules_parse_def parse_eval
      catalog_inv_def bt_wf_def bt_contains_def m_get_def)

lemma many_rules_length: "length many_rules = 20001"
  unfolding many_rules_def by (simp only: length_replicate)

lemma escaped_url_length: "length escaped_url = 9011"
  unfolding escaped_url_def by (simp only: length_append length_concat map_replicate sum_list_replicate) simp

lemma sample_oversized:
  "oversized (sample_state_codec many_rules ''https://h/'') rule_set_limits_product (sample_stored_candidate many_rules)"
  "oversized (sample_state_codec few_rules escaped_url) rule_set_limits_product (sample_stored_candidate few_rules)"
  by (simp_all add: oversized_def sample_stored_candidate_def sample_state_codec_def rules_initialized_def rules_initialized_at_def
      rule_set_limits_product_def many_rules_length escaped_url_length SUBSCRIPTION_URL_MAX_BYTES_def)

lemma sample_typed_url:
  "SubscriptionUrl_parse (sc_url_parse (sample_state_codec few_rules escaped_url)) typed_url = Some (pf_subscription_url sample_profile)"
  unfolding SubscriptionUrl_parse_def typed_url_def length_append length_replicate
  by (simp add: sample_state_codec_def sample_profile_def profile_new_def sample_url_def SUBSCRIPTION_URL_MAX_BYTES_def)

section \<open>Properties\<close>

text \<open>C8. What is committed is what is loaded.  When a candidate is staged, prepared and committed, whichever system
  calls fail and are survived on the way, the next start reads back exactly that candidate: the same profile
  catalogue, rule set, effective configuration and generation.  It relies on the codecs reading what they
  wrote, on the absence of digest collisions between the staged contents, and on the candidate holding values
  that the parsers accept within the limits.\<close>

theorem committed_state_loads:
  assumes "state_codec_ok sc" "no_collision sc candidate" "in_memory sc candidate"
    and "catalog_inv (as_profiles candidate)"
    and "list_all (profile_storable sc sl) (map snd (pc_profiles (as_profiles candidate)))"
    and "rules_storable sc rl (as_local_rules candidate)"
    and "stage_candidate sc candidate d = (Ok b, d1)"
    and "prepare (sc_codec sc) b d1 = (Ok p, d2)" "commit_prepared (sc_codec sc) p d2 = (Ok (), d3)"
  shows "fst (load_committed sc sl rl (d3\<lparr>d_faults := []\<rparr>)) = Ok (Some (hydrated candidate))"
proof -
  let ?c = "sc_codec sc" and ?d = "d3\<lparr>d_faults := []\<rparr>"
  obtain m active document state where
    m: "manifest_of ?c (files d3) = Some m" "journal_of ?c (files d3) \<noteq> None" "bundle_at ?c (files d3) (cm_current m) = Some b"
    and staged: "staged_as sc candidate active document state b (files d3)"
    using commit_staged [OF assms(1-3,7-9)] by blast
  have quiet: "d_faults ?d = []" by simp
  have at: "manifest_of ?c ?d = Some m" "journal_of ?c ?d \<noteq> None" "bundle_at ?c ?d (cm_current m) = Some b"
    using m by (simp_all add: manifest_of_def journal_of_def bundle_at_def files_fields transaction_file_def)
  have "recover ?c ?d = (Ok \<lparr>rv_committed = Some m, rv_prepared = journal_of ?c ?d\<rparr>, ?d)"
    using at(1,2) unfolding manifest_of_def journal_of_def recover_def read_manifest_def read_journal_def
    by (simp add: run_Ok quiet_optional_json)
  moreover have "staged_as sc candidate active document state b ?d"
    using staged staged_as_cong [of "files d3" ?d] by (simp add: files_fields)
  ultimately show ?thesis
    using load_state_stored [OF assms(1) _ quiet assms(4-6)] quiet_load [OF quiet at(3)]
    by (simp add: load_committed_def try_bnd_def bnd_def fail_with_def ret_def)
qed

theorem committed_state_loads_witness:
  "\<exists>b p d1 d2 d3. stage_candidate (sample_state_codec few_rules ''https://h/'') (sample_stored_candidate few_rules) (empty_disk []) = (Ok b, d1) \<and>
    prepare (sc_codec (sample_state_codec few_rules ''https://h/'')) b d1 = (Ok p, d2) \<and>
    commit_prepared (sc_codec (sample_state_codec few_rules ''https://h/'')) p d2 = (Ok (), d3) \<and>
    fst (load_committed (sample_state_codec few_rules ''https://h/'') \<lparr>sl_max_bytes = 10, sl_max_depth = 4\<rparr> rule_set_limits_product (d3\<lparr>d_faults := []\<rparr>)) =
      Ok (Some (hydrated (sample_stored_candidate few_rules)))"
  using committed_state_loads [OF sample_state_codec_ok sample_fits sample_storable(3,1,2) sample_stage
      sample_stored_prepare sample_stored_commit] sample_stage sample_stored_prepare sample_stored_commit
  by blast

text \<open>C15. What loading refuses stays refused.  If a candidate with more rules than the rule-set limit, or with a
  profile whose stored subscription URL is longer than the URL limit, has been staged, prepared and committed, no
  start loads the state, with or without failing system calls.  Staging, preparing and committing let both kinds
  through, as the two cases below show with the limits of the product.\<close>

theorem oversized_state_never_loads:
  assumes "state_codec_ok sc" "no_collision sc candidate" "in_memory sc candidate" "oversized sc rl candidate"
    and "stage_candidate sc candidate d = (Ok b, d1)"
    and "prepare (sc_codec sc) b d1 = (Ok p, d2)" "commit_prepared (sc_codec sc) p d2 = (Ok (), d3)"
  shows "\<not> is_ok (fst (load_committed sc sl rl (d3\<lparr>d_faults := faults\<rparr>)))"
proof
  assume "is_ok (fst (load_committed sc sl rl (d3\<lparr>d_faults := faults\<rparr>)))"
  then obtain r d' where r: "load_committed sc sl rl (d3\<lparr>d_faults := faults\<rparr>) = (Ok r, d')"
    by (auto simp: is_ok_iff prod_eq_iff)
  obtain m active document state where
    m: "manifest_of (sc_codec sc) (files d3) = Some m" "bundle_at (sc_codec sc) (files d3) (cm_current m) = Some b"
    and staged: "staged_as sc candidate active document state b (files d3)"
    using commit_staged [OF assms(1-3,5-7)] by blast
  obtain h e where "files e = files d3" "load_state sc sl rl b e = (Ok h, d')"
    using load_committed_Ok [OF r, of m b] m by auto
  with oversized_not_loaded [OF assms(1) _ assms(4), of active document state b e] staged show False by simp
qed

text \<open>A rule set of 20,001 rules, and a subscription URL that the parser accepted with 3,011 bytes and whose
  serialised form has 9,011.\<close>

theorem oversized_state_never_loads_witness:
  "(\<exists>b p d1 d2 d3. stage_candidate (sample_state_codec many_rules ''https://h/'') (sample_stored_candidate many_rules) (empty_disk []) =
       (Ok b, d1) \<and>
     prepare (sc_codec (sample_state_codec many_rules ''https://h/'')) b d1 = (Ok p, d2) \<and>
     commit_prepared (sc_codec (sample_state_codec many_rules ''https://h/'')) p d2 = (Ok (), d3) \<and>
     \<not> is_ok (fst (load_committed (sample_state_codec many_rules ''https://h/'') \<lparr>sl_max_bytes = 16777216, sl_max_depth = 64\<rparr> rule_set_limits_product
       (d3\<lparr>d_faults := []\<rparr>)))) \<and>
   SubscriptionUrl_parse (sc_url_parse (sample_state_codec few_rules escaped_url)) typed_url = Some (pf_subscription_url sample_profile) \<and>
   (\<exists>b p d1 d2 d3. stage_candidate (sample_state_codec few_rules escaped_url) (sample_stored_candidate few_rules) (empty_disk []) =
       (Ok b, d1) \<and>
     prepare (sc_codec (sample_state_codec few_rules escaped_url)) b d1 = (Ok p, d2) \<and>
     commit_prepared (sc_codec (sample_state_codec few_rules escaped_url)) p d2 = (Ok (), d3) \<and>
     \<not> is_ok (fst (load_committed (sample_state_codec few_rules escaped_url) \<lparr>sl_max_bytes = 16777216, sl_max_depth = 64\<rparr> rule_set_limits_product
       (d3\<lparr>d_faults := []\<rparr>))))"
proof (intro conjI)
  note refused = oversized_state_never_loads [OF sample_state_codec_ok sample_fits _ sample_stage sample_stored_prepare sample_stored_commit]
  show "\<exists>b p d1 d2 d3. stage_candidate (sample_state_codec many_rules ''https://h/'') (sample_stored_candidate many_rules) (empty_disk []) =
       (Ok b, d1) \<and>
     prepare (sc_codec (sample_state_codec many_rules ''https://h/'')) b d1 = (Ok p, d2) \<and>
     commit_prepared (sc_codec (sample_state_codec many_rules ''https://h/'')) p d2 = (Ok (), d3) \<and>
     \<not> is_ok (fst (load_committed (sample_state_codec many_rules ''https://h/'') \<lparr>sl_max_bytes = 16777216, sl_max_depth = 64\<rparr> rule_set_limits_product
       (d3\<lparr>d_faults := []\<rparr>)))"
    using refused [OF sample_oversized(1)] sample_stage sample_stored_prepare sample_stored_commit by blast
  show "\<exists>b p d1 d2 d3. stage_candidate (sample_state_codec few_rules escaped_url) (sample_stored_candidate few_rules) (empty_disk []) =
       (Ok b, d1) \<and>
     prepare (sc_codec (sample_state_codec few_rules escaped_url)) b d1 = (Ok p, d2) \<and>
     commit_prepared (sc_codec (sample_state_codec few_rules escaped_url)) p d2 = (Ok (), d3) \<and>
     \<not> is_ok (fst (load_committed (sample_state_codec few_rules escaped_url) \<lparr>sl_max_bytes = 16777216, sl_max_depth = 64\<rparr> rule_set_limits_product
       (d3\<lparr>d_faults := []\<rparr>)))"
    using refused [OF sample_oversized(2)] sample_stage sample_stored_prepare sample_stored_commit by blast
qed (rule sample_typed_url)

end
