(* ===== verification/Status_Types.thy ===== *)
theory Status_Types
  imports Domain_Types
begin

text \<open>
  The status snapshot of \<open>src/src/domain.rs\<close>: what the supervisor publishes and the
  interfaces show.
\<close>

datatype SupervisorLifecycle = SupStarting | SupReady | SupStopping | SupStopped | SupDegraded

datatype SupervisorHealthReason =
    RuntimeRecovery | SelectionCompensation | ConfigurationProjection | ProbeSchedulerReason | SelectionRestoration

datatype CoreLifecycle =
    CoreUnconfigured | CoreStopped | CoreStarting | CoreReady | CoreReloading | CoreStopping | CoreLifeDegraded

datatype TunReason = NoActiveProfile | TunPermissionDenied | TunUnsupported | TunCoreUnavailable

datatype CoreDiagnosticCategory = RestartLimitReached

datatype RuntimeRecoveryStatus = RecoveryNotRequired | RecoverySucceeded | RecoveryPending | RecoveryFailed

record RuntimeRecoverySnapshot =
  rn_status :: RuntimeRecoveryStatus
  rn_restored_generation :: "RuntimeGeneration option"
  rn_message :: "string option"

record RuntimeApplySnapshot =
  ra_candidate_generation :: "RuntimeGeneration option"
  ra_committed_generation :: "RuntimeGeneration option"
  ra_phase :: RuntimeApplyPhase
  ra_recovery :: RuntimeRecoverySnapshot

record SupervisorStatus =
  ss_lifecycle :: SupervisorLifecycle
  ss_started_at_unix_ms :: u64
  ss_uptime_seconds :: u64
  ss_health_reasons :: "SupervisorHealthReason list"

record CoreRestartStatus =
  ct_pending :: bool
  ct_attempts :: u64
  ct_backoff_ms :: "u64 option"
  ct_diagnostic :: "CoreDiagnosticCategory option"

record CoreStatus =
  co_lifecycle :: CoreLifecycle
  co_pid :: "u32 option"
  co_instance_generation :: "CoreInstanceGeneration option"
  co_restart :: CoreRestartStatus

record TunStatus =
  tn_requested :: bool
  tn_capable :: bool
  tn_effective :: bool
  tn_reason :: "TunReason option"

record ActiveProfileSummary =
  ap_id :: ProfileId
  ap_name :: string

record SelectedNodeSummary =
  sn_id :: NodeRecordId
  sn_name :: string

record ProbeQueueStatus =
  pq_active_node_count :: u64
  pq_queue_depth :: u64
  pq_in_flight_count :: u64
  pq_overloaded :: bool
  pq_oldest_due_age_ms :: "u64 option"
  pq_estimated_full_pass_duration_ms :: u64
  pq_stale_node_count :: u64

record StatusSnapshot =
  st_supervisor :: SupervisorStatus
  st_core :: CoreStatus
  st_tun :: TunStatus
  st_active_profile :: "ActiveProfileSummary option"
  st_primary_proxy_group :: "string option"
  st_selected_node :: "SelectedNodeSummary option"
  st_latency :: "LatencySample option"
  st_traffic :: TrafficSample
  st_connection_count :: u64
  st_upload_total_bytes :: u64
  st_download_total_bytes :: u64
  st_memory_bytes :: "u64 option"
  st_connections :: "ConnectionRecord list"
  st_runtime_generation :: "RuntimeGeneration option"
  st_apply_state :: ApplyState
  st_runtime_apply :: RuntimeApplySnapshot
  st_selection_restore_pending :: bool
  st_probe_queue :: ProbeQueueStatus
  st_stream_health :: StreamHealthSet

end
