(* ===== verification/Tui_State.thy ===== *)
theory Tui_State
  imports Status_Types Telemetry
begin

text \<open>
  The view state of the Status Interface (\<open>src/src/tui/state.rs\<close>): pages, bounded projections
  of what the supervisor sends, selections and filters.

  Methods that take \<open>&mut self\<close> return the new state.  The parameter \<open>low\<close> is
  \<open>str::to_lowercase\<close>; a \<open>char\<close> is its UTF-8 text.
\<close>

section \<open>Data\<close>

datatype Page = Proxies | Connections | RulesPage | Logs

definition page_all :: "Page list" where
  "page_all = [Proxies, Connections, RulesPage, Logs]"

fun page_index :: "Page \<Rightarrow> nat" where
  "page_index Proxies = 0"
| "page_index Connections = 1"
| "page_index RulesPage = 2"
| "page_index Logs = 3"

definition page_next :: "Page \<Rightarrow> Page" where
  "page_next p = page_all ! ((page_index p + 1) mod length page_all)"

definition page_previous :: "Page \<Rightarrow> Page" where
  "page_previous p = page_all ! ((page_index p + length page_all - 1) mod length page_all)"

datatype Focus = Tabs | ProxyGroups | Content | Search | FooterHelp | FooterQuit | ModalFocus

datatype ConnectionStatus = UiConnecting | UiConnected | UiDisconnected

record ConnectionState =
  cx_status :: ConnectionStatus
  cx_generation :: u64
  cx_snapshot_stale :: bool

record ProxyRow =
  pr_group_id :: ProxyGroupId
  pr_group :: string
  pr_node_id :: "NodeRecordId option"
  pr_name :: string
  pr_node_type :: string
  pr_available :: bool
  pr_selected :: bool
  pr_delay_ms :: "u64 option"

record ProxyGroupRow =
  pg_id :: ProxyGroupId
  pg_name :: string
  pg_proxy_type :: string
  pg_selectable :: bool
  pg_selected_node :: "string option"

record ProfileRow =
  po_id :: ProfileId
  po_name :: string
  po_active :: bool
  po_fresh :: bool
  po_last_success_at_unix_ms :: u64
  po_next_refresh_at_unix_ms :: u64
  po_error :: "string option"

record ViewLogRecord =
  vl_sequence :: u64
  vl_timestamp_unix_ms :: u64
  vl_level :: LogLevel
  vl_source :: LogSource
  vl_message :: string

definition view_log_record :: "CoreLogRecord \<Rightarrow> ViewLogRecord" where
  "view_log_record r = \<lparr>vl_sequence = lr_sequence r, vl_timestamp_unix_ms = lr_timestamp_unix_ms r,
     vl_level = lr_level r, vl_source = lr_source r, vl_message = lr_message r\<rparr>"

datatype LogLevelFilter = FilterAll | FilterDebug | FilterInfo | FilterWarn | FilterError

definition level_matches :: "LogLevelFilter \<Rightarrow> LogLevel \<Rightarrow> bool" where
  "level_matches f level \<longleftrightarrow> f = FilterAll \<or>
    (f, level) \<in> {(FilterDebug, LogDebug), (FilterInfo, LogInfo), (FilterWarn, LogWarn), (FilterError, LogError)}"

type_synonym RequestId = u64

record PendingProxyGroupLoad =
  pl_request_id :: RequestId
  pl_connection_generation :: u64
  pl_group_id :: ProxyGroupId

record ProxiesState =
  px_groups :: "ProxyGroupRow list"
  px_group_cursor :: nat
  px_rows :: "ProxyRow list"
  px_selected_group :: "string option"
  px_group_load_pending :: "PendingProxyGroupLoad option"
  px_selection_pending :: "(ProxyGroupId \<times> NodeRecordId) option"
  px_selected :: nat
  px_scroll :: nat

record ConnectionsState =
  cn_selected :: nat
  cn_scroll :: nat

record ProfilesState =
  pv_rows :: "ProfileRow list"
  pv_selected :: nat
  pv_scroll :: nat
  pv_filter :: string
  pv_activation_pending :: "ProfileId option"

datatype CommandPaletteAction = PaletteProfiles | PaletteRestartSupervisor | PaletteStopSupervisor

definition palette_all :: "CommandPaletteAction list" where
  "palette_all = [PaletteProfiles, PaletteRestartSupervisor, PaletteStopSupervisor]"

fun palette_label :: "CommandPaletteAction \<Rightarrow> string" where
  "palette_label PaletteProfiles = ''profile switch''"
| "palette_label PaletteRestartSupervisor = ''restart''"
| "palette_label PaletteStopSupervisor = ''stop''"

fun palette_description :: "CommandPaletteAction \<Rightarrow> string" where
  "palette_description PaletteProfiles = ''Activate a saved Profile''"
| "palette_description PaletteRestartSupervisor = ''Restart the Supervisor and restore committed runtime''"
| "palette_description PaletteStopSupervisor = ''Stop the Supervisor and Managed Core''"

record CommandPaletteState =
  cp_query :: string
  cp_selected :: nat

datatype PolicyTargetValidation = TargetValid | TargetMissing | TargetUnavailable

record RuleRow =
  rw_index :: nat
  rw_rule_string :: string
  rw_rule_type :: string
  rw_payload :: "string option"
  rw_policy_target :: string
  rw_policy_target_validation :: PolicyTargetValidation

record PendingRuleLoad =
  rl_request_id :: RequestId
  rl_connection_generation :: u64
  rl_runtime_generation :: "RuntimeGeneration option"

record RulesState =
  ru_rows :: "RuleRow list"
  ru_initialized :: bool
  ru_revision :: "LocalRuleSetRevision option"
  ru_selected :: nat
  ru_scroll :: nat
  ru_filter :: string
  ru_loaded_connection_generation :: "u64 option"
  ru_loaded_runtime_generation :: "RuntimeGeneration option"
  ru_load_pending :: "PendingRuleLoad option"
  ru_load_error :: "string option"

record LogsState =
  lg_records :: "ViewLogRecord list"
  lg_level_filter :: LogLevelFilter
  lg_search :: string
  lg_since_unix_ms :: "u64 option"
  lg_until_unix_ms :: "u64 option"
  lg_scroll :: nat
  lg_viewport_start :: nat
  lg_follow :: bool
  lg_paused :: bool
  lg_paused_anchor :: "u64 option"
  lg_gap :: bool
  lg_dropped_total :: u64
  lg_evicted_total :: u64
  lg_retained_bytes :: nat

definition logs_default :: LogsState where
  "logs_default = \<lparr>lg_records = [], lg_level_filter = FilterInfo, lg_search = [], lg_since_unix_ms = None,
     lg_until_unix_ms = None, lg_scroll = 0, lg_viewport_start = 0, lg_follow = True, lg_paused = False,
     lg_paused_anchor = None, lg_gap = False, lg_dropped_total = 0, lg_evicted_total = 0, lg_retained_bytes = 0\<rparr>"

definition PROFILE_VIEW_CAPACITY :: nat where
  "PROFILE_VIEW_CAPACITY = 100"

datatype Modal =
    Help
  | CommandPalette
  | ProfilesModal
  | RuleEditor "string option" string
  | RuleRemovalConfirmation string
  | LifecycleConfirmation CommandPaletteAction
  | Message string string

datatype PendingOperationKind =
    OpActivateProfile | OpSelectNode | OpAddRule | OpReplaceRule | OpRemoveRule | OpRestartSupervisor | OpStopSupervisor

record PendingOperation =
  pe_request_id :: RequestId
  pe_connection_generation :: u64
  pe_kind :: PendingOperationKind

record FullViewSnapshot =
  fs_status :: StatusSnapshot
  fs_proxy_groups :: "ProxyGroupRow list"
  fs_proxies :: "ProxyRow list"
  fs_profiles :: "ProfileRow list"
  fs_logs :: "ViewLogRecord list"
  fs_dropped_logs :: u64

record ProxyGroupSnapshot =
  gs_group :: ProxyGroupRow
  gs_groups :: "ProxyGroupRow list"
  gs_proxies :: "ProxyRow list"

record RuleListSnapshot =
  rq_initialized :: bool
  rq_revision :: "LocalRuleSetRevision option"
  rq_rows :: "RuleRow list"

datatype UiIntent =
    SwitchPage Page
  | NextPage
  | PreviousPage
  | FocusNext
  | FocusPrevious
  | FocusLeft
  | FocusRight
  | FocusSearch
  | OpenCommandPalette
  | OpenProfiles
  | RunPaletteAction CommandPaletteAction
  | ConfirmLifecycleAction
  | LoadRules
  | OpenRuleAdd
  | OpenSelectedRuleEditor
  | RequestSelectedRuleRemoval
  | SubmitRuleEditor
  | ConfirmRuleRemoval
  | SelectRule nat
  | SelectConnection nat
  | SelectLog nat
  | PreviousProxyGroup
  | NextProxyGroup
  | ShowProxyGroup ProxyGroupId
  | InputCharacter string
  | Backspace
  | Escape
  | MoveUp
  | MoveDown
  | ActivateSelected
  | ActivateProfile ProfileId
  | SelectNode ProxyGroupId NodeRecordId
  | ScrollUp
  | ScrollDown
  | SetLogLevel LogLevelFilter
  | ToggleLogPause
  | FollowLogs
  | ToggleZoom
  | ToggleHelp
  | CloseModal
  | Quit

record Rect =
  re_x :: u16
  re_y :: u16
  re_width :: u16
  re_height :: u16

record Interaction =
  ia_area :: Rect
  ia_intent :: UiIntent

record ScrollInteraction =
  sc_area :: Rect

record InteractionMap =
  im_frame_revision :: u64
  im_interactions :: "Interaction list"
  im_scroll_regions :: "ScrollInteraction list"

record AppState =
  as_page :: Page
  as_focus :: Focus
  as_connection :: ConnectionState
  as_status :: "StatusSnapshot option"
  as_proxies :: ProxiesState
  as_connections :: ConnectionsState
  as_profiles :: ProfilesState
  as_palette :: CommandPaletteState
  as_rules :: RulesState
  as_logs :: LogsState
  as_zoomed_focus :: bool
  as_modal :: "Modal option"
  as_toast :: "string option"
  as_pending :: "PendingOperation option"
  as_should_quit :: bool
  as_terminal_width :: u16
  as_terminal_height :: u16
  as_render_dirty :: bool
  as_interaction_map :: "InteractionMap option"
  as_next_request_id :: u64
  as_next_frame_revision :: u64
  as_view_revision :: u64
  as_status_revision :: u64

definition app_new :: AppState where
  "app_new = \<lparr>as_page = Proxies, as_focus = Content,
     as_connection = \<lparr>cx_status = UiConnecting, cx_generation = 0, cx_snapshot_stale = False\<rparr>,
     as_status = None,
     as_proxies = \<lparr>px_groups = [], px_group_cursor = 0, px_rows = [], px_selected_group = None,
       px_group_load_pending = None, px_selection_pending = None, px_selected = 0, px_scroll = 0\<rparr>,
     as_connections = \<lparr>cn_selected = 0, cn_scroll = 0\<rparr>,
     as_profiles = \<lparr>pv_rows = [], pv_selected = 0, pv_scroll = 0, pv_filter = [], pv_activation_pending = None\<rparr>,
     as_palette = \<lparr>cp_query = [], cp_selected = 0\<rparr>,
     as_rules = \<lparr>ru_rows = [], ru_initialized = False, ru_revision = None, ru_selected = 0, ru_scroll = 0,
       ru_filter = [], ru_loaded_connection_generation = None, ru_loaded_runtime_generation = None,
       ru_load_pending = None, ru_load_error = None\<rparr>,
     as_logs = logs_default, as_zoomed_focus = False, as_modal = None, as_toast = None, as_pending = None,
     as_should_quit = False, as_terminal_width = MINIMUM_TERMINAL_WIDTH,
     as_terminal_height = MINIMUM_TERMINAL_HEIGHT, as_render_dirty = True, as_interaction_map = None,
     as_next_request_id = 1, as_next_frame_revision = 1, as_view_revision = 1, as_status_revision = 1\<rparr>"

section \<open>Slices and text\<close>

text \<open>\<open>slice::get\<close>, \<open>Iterator::position\<close>, \<open>str::split_whitespace\<close>, \<open>str::parse::<u64>\<close>
  and \<open>String::pop\<close>.\<close>

definition vec_get :: "'a list \<Rightarrow> nat \<Rightarrow> 'a option" where
  "vec_get xs i = (if i < length xs then Some (xs ! i) else None)"

fun position :: "('a \<Rightarrow> bool) \<Rightarrow> 'a list \<Rightarrow> nat option" where
  "position P [] = None"
| "position P (x # xs) = (if P x then Some 0 else map_option Suc (position P xs))"

fun whitespace_words :: "string list \<Rightarrow> string \<Rightarrow> string list" where
  "whitespace_words [] word = (if word = [] then [] else [word])"
| "whitespace_words (c # cs) word =
    (if is_whitespace c then (if word = [] then [] else [word]) @ whitespace_words cs []
     else whitespace_words cs (word @ c))"

definition split_whitespace :: "string \<Rightarrow> string list" where
  "split_whitespace s = whitespace_words (utf8_chars s) []"

definition is_digit :: "char \<Rightarrow> bool" where
  "is_digit c \<longleftrightarrow> 48 \<le> (of_char c :: nat) \<and> (of_char c :: nat) \<le> 57"

definition parse_u64 :: "string \<Rightarrow> u64 option" where
  "parse_u64 s =
    (let digits = (case strip_prefix ''+'' s of Some rest \<Rightarrow> rest | None \<Rightarrow> s);
         n = foldl (\<lambda>acc c. acc * 10 + (of_char c - 48)) (0 :: nat) digits
     in if digits = [] \<or> \<not> list_all is_digit digits \<or> n \<ge> 2 ^ 64 then None else Some (of_nat n))"

definition pop_char :: "string \<Rightarrow> string" where
  "pop_char s = concat (butlast (utf8_chars s))"

text \<open>\<open>x.wrapping_add(1).max(1)\<close>.\<close>

definition next_id :: "u64 \<Rightarrow> u64" where
  "next_id x = max (x + 1) 1"

section \<open>Projections and filters\<close>

definition clamp_index :: "nat \<Rightarrow> nat \<Rightarrow> nat" where
  "clamp_index index len = min index (len - 1)"

definition moved_index :: "nat \<Rightarrow> nat \<Rightarrow> int \<Rightarrow> nat" where
  "moved_index index len delta =
    (if len = 0 then 0
     else if delta < 0 then index - nat (- delta)
     else min (usize_add index (nat delta)) (len - 1))"

definition filtered_profiles :: "(string \<Rightarrow> string) \<Rightarrow> ProfilesState \<Rightarrow> ProfileRow list" where
  "filtered_profiles low p =
    (let needle = low (pv_filter p)
     in filter (\<lambda>row. needle = [] \<or> sublist needle (low (po_name row))) (pv_rows p))"

definition filtered_rule_indices :: "(string \<Rightarrow> string) \<Rightarrow> RulesState \<Rightarrow> nat list" where
  "filtered_rule_indices low r =
    (let needle = low (ru_filter r)
     in map fst (filter (\<lambda>(_, row). needle = [] \<or> sublist needle (low (rw_rule_string row)) \<or>
                                   sublist needle (low (rw_policy_target row)))
                  (enumerate 0 (ru_rows r))))"

definition filtered_rules :: "(string \<Rightarrow> string) \<Rightarrow> RulesState \<Rightarrow> RuleRow list" where
  "filtered_rules low r = map (\<lambda>index. ru_rows r ! index) (filtered_rule_indices low r)"

record LogQuery =
  q_since_unix_ms :: "u64 option"
  q_until_unix_ms :: "u64 option"
  q_level :: "LogLevelFilter option"
  q_content_terms :: "string list"

definition parse_log_level_filter :: "string \<Rightarrow> LogLevelFilter option" where
  "parse_log_level_filter value =
    (if value = ''all'' then Some FilterAll
     else if value = ''debug'' then Some FilterDebug
     else if value = ''info'' then Some FilterInfo
     else if value = ''warn'' \<or> value = ''warning'' then Some FilterWarn
     else if value = ''error'' then Some FilterError
     else None)"

definition parse_log_token :: "string \<Rightarrow> LogQuery \<Rightarrow> LogQuery" where
  "parse_log_token lower q =
    (case Option.bind (strip_prefix ''since:'' lower) parse_u64 of
       Some value \<Rightarrow> q\<lparr>q_since_unix_ms := Some value\<rparr>
     | None \<Rightarrow>
    (case Option.bind (strip_prefix ''until:'' lower) parse_u64 of
       Some value \<Rightarrow> q\<lparr>q_until_unix_ms := Some value\<rparr>
     | None \<Rightarrow>
    (case Option.bind (strip_prefix ''level:'' lower) parse_log_level_filter of
       Some level \<Rightarrow> q\<lparr>q_level := Some level\<rparr>
     | None \<Rightarrow>
    (case strip_prefix ''content:'' lower of
       Some value \<Rightarrow> if value \<noteq> [] then q\<lparr>q_content_terms := q_content_terms q @ [value]\<rparr> else q
     | None \<Rightarrow> q\<lparr>q_content_terms := q_content_terms q @ [lower]\<rparr>))))"

definition parse_log_query :: "(string \<Rightarrow> string) \<Rightarrow> string \<Rightarrow> LogQuery" where
  "parse_log_query low input =
    fold (\<lambda>token. parse_log_token (low token)) (split_whitespace input)
      \<lparr>q_since_unix_ms = None, q_until_unix_ms = None, q_level = None, q_content_terms = []\<rparr>"

fun combine_bound :: "(u64 \<Rightarrow> u64 \<Rightarrow> u64) \<Rightarrow> u64 option \<Rightarrow> u64 option \<Rightarrow> u64 option" where
  "combine_bound f (Some l) (Some r) = Some (f l r)"
| "combine_bound f (Some l) None = Some l"
| "combine_bound f None r = r"

definition log_matches :: "(string \<Rightarrow> string) \<Rightarrow> LogsState \<Rightarrow> ViewLogRecord \<Rightarrow> bool" where
  "log_matches low l record =
    (let query = parse_log_query low (lg_search l);
         since = combine_bound max (lg_since_unix_ms l) (q_since_unix_ms query);
         upto = combine_bound min (lg_until_unix_ms l) (q_until_unix_ms query);
         message = low (vl_message record)
     in vl_source record = CoreApi \<and>
        (q_level query \<noteq> None \<or> level_matches (lg_level_filter l) (vl_level record)) \<and>
        (case q_level query of None \<Rightarrow> True | Some level \<Rightarrow> level_matches level (vl_level record)) \<and>
        (case since of None \<Rightarrow> True | Some t \<Rightarrow> t \<le> vl_timestamp_unix_ms record) \<and>
        (case upto of None \<Rightarrow> True | Some t \<Rightarrow> vl_timestamp_unix_ms record \<le> t) \<and>
        list_all (\<lambda>term. sublist term message) (q_content_terms query))"

definition filtered_log_indices :: "(string \<Rightarrow> string) \<Rightarrow> LogsState \<Rightarrow> nat list" where
  "filtered_log_indices low l =
    map fst (filter (\<lambda>(_, record). log_matches low l record) (enumerate 0 (lg_records l)))"

definition visible_window_start :: "nat \<Rightarrow> nat \<Rightarrow> nat \<Rightarrow> nat \<Rightarrow> nat" where
  "visible_window_start current selected visible_count count =
    (if count = 0 \<or> visible_count \<ge> count then 0
     else if visible_count = 0 then min selected (count - 1)
     else let current = min current (count - visible_count)
          in if selected < current then selected
             else if selected \<ge> usize_add current visible_count
             then min (usize_add selected 1 - visible_count) (count - visible_count)
             else current)"

definition selected_log_position :: "LogsState \<Rightarrow> nat \<Rightarrow> nat option" where
  "selected_log_position l filtered_count =
    (if lg_follow l then None
     else let k = usize_add (lg_scroll l) 1
          in if k \<le> filtered_count then Some (filtered_count - k) else None)"

definition visible_log_start :: "LogsState \<Rightarrow> nat \<Rightarrow> nat \<Rightarrow> nat" where
  "visible_log_start l filtered_count visible_count =
    (case selected_log_position l filtered_count of
       None \<Rightarrow> filtered_count - visible_count
     | Some selected \<Rightarrow> visible_window_start (lg_viewport_start l) selected visible_count filtered_count)"

function evict_view_logs :: "nat \<Rightarrow> LogsState \<Rightarrow> LogsState" where
  "evict_view_logs len l =
    (if length (lg_records l) = LOG_CAPACITY \<or> usize_add (lg_retained_bytes l) len > LOG_RETENTION_MAX_BYTES
     then (case lg_records l of
             [] \<Rightarrow> l
           | evicted # rest \<Rightarrow> evict_view_logs len (l\<lparr>lg_records := rest,
               lg_retained_bytes := lg_retained_bytes l - length (vl_message evicted),
               lg_evicted_total := saturating_add (lg_evicted_total l) 1\<rparr>))
     else l)"
  by pat_completeness auto
termination by (relation "measure (\<lambda>(_, l). length (lg_records l))") auto

definition push_view_log :: "ViewLogRecord \<Rightarrow> LogsState \<Rightarrow> LogsState" where
  "push_view_log record l =
    (let l = evict_view_logs (length (vl_message record)) l
     in if usize_add (lg_retained_bytes l) (length (vl_message record)) > LOG_RETENTION_MAX_BYTES
        then l\<lparr>lg_evicted_total := saturating_add (lg_evicted_total l) 1, lg_gap := True\<rparr>
        else l\<lparr>lg_retained_bytes := usize_add (lg_retained_bytes l) (length (vl_message record)),
               lg_records := lg_records l @ [record]\<rparr>)"

section \<open>The application state\<close>

definition publish_interaction_map :: "InteractionMap \<Rightarrow> AppState \<Rightarrow> AppState" where
  "publish_interaction_map im s = s\<lparr>as_next_frame_revision := next_id (im_frame_revision im),
     as_interaction_map := Some im, as_render_dirty := False\<rparr>"

definition take_request_id :: "AppState \<Rightarrow> RequestId \<times> AppState" where
  "take_request_id s = (as_next_request_id s, s\<lparr>as_next_request_id := next_id (as_next_request_id s)\<rparr>)"

definition bump_view_revision :: "AppState \<Rightarrow> AppState" where
  "bump_view_revision s = s\<lparr>as_view_revision := next_id (as_view_revision s)\<rparr>"

definition accepts_snapshot_refresh :: "u64 \<Rightarrow> u64 \<Rightarrow> AppState \<Rightarrow> bool" where
  "accepts_snapshot_refresh generation base_view_revision s \<longleftrightarrow>
    generation = cx_generation (as_connection s) \<and> cx_status (as_connection s) = UiConnected \<and>
    as_pending s = None \<and> base_view_revision = as_view_revision s"

definition filtered_profile_count :: "(string \<Rightarrow> string) \<Rightarrow> AppState \<Rightarrow> nat" where
  "filtered_profile_count low s = length (filtered_profiles low (as_profiles s))"

definition filtered_rule_count :: "(string \<Rightarrow> string) \<Rightarrow> AppState \<Rightarrow> nat" where
  "filtered_rule_count low s = length (filtered_rules low (as_rules s))"

definition filtered_log_count :: "(string \<Rightarrow> string) \<Rightarrow> AppState \<Rightarrow> nat" where
  "filtered_log_count low s = length (filtered_log_indices low (as_logs s))"

definition connection_record_count :: "AppState \<Rightarrow> nat" where
  "connection_record_count s = (case as_status s of None \<Rightarrow> 0 | Some st \<Rightarrow> length (st_connections st))"

definition runtime_generation_of :: "AppState \<Rightarrow> RuntimeGeneration option" where
  "runtime_generation_of s = Option.bind (as_status s) st_runtime_generation"

definition clamp_selections :: "(string \<Rightarrow> string) \<Rightarrow> AppState \<Rightarrow> AppState" where
  "clamp_selections low s =
    (let px = as_proxies s;
         cn = clamp_index (cn_selected (as_connections s)) (connection_record_count s);
         logs = filtered_log_count low s
     in s\<lparr>as_proxies := px\<lparr>px_group_cursor := clamp_index (px_group_cursor px) (length (px_groups px)),
                          px_selected := clamp_index (px_selected px) (length (px_rows px))\<rparr>,
          as_profiles := (as_profiles s)\<lparr>pv_selected :=
             clamp_index (pv_selected (as_profiles s)) (filtered_profile_count low s)\<rparr>,
          as_rules := (as_rules s)\<lparr>ru_selected :=
             clamp_index (ru_selected (as_rules s)) (filtered_rule_count low s)\<rparr>,
          as_connections := \<lparr>cn_selected = cn, cn_scroll = min (cn_scroll (as_connections s)) cn\<rparr>,
          as_logs := (as_logs s)\<lparr>
             lg_scroll := (if lg_follow (as_logs s) then 0 else clamp_index (lg_scroll (as_logs s)) logs),
             lg_viewport_start := min (lg_viewport_start (as_logs s)) (logs - 1)\<rparr>\<rparr>)"

definition replace_snapshot :: "(string \<Rightarrow> string) \<Rightarrow> u64 \<Rightarrow> FullViewSnapshot \<Rightarrow> AppState \<Rightarrow> AppState" where
  "replace_snapshot low generation snapshot s =
    (let s = bump_view_revision s;
         groups = take MAX_ACTIVE_NODES (fs_proxy_groups snapshot);
         rows = take MAX_ACTIVE_NODES (fs_proxies snapshot);
         selected_group = map_option pr_group (vec_get rows 0);
         cursor = (case Option.bind selected_group (\<lambda>selected. position (\<lambda>g. pg_name g = selected) groups) of
                     Some i \<Rightarrow> i | None \<Rightarrow> 0);
         logs = (as_logs s)\<lparr>lg_records := [], lg_retained_bytes := 0,
                  lg_dropped_total := max (lg_dropped_total (as_logs s)) (fs_dropped_logs snapshot), lg_gap := False\<rparr>;
         s = s\<lparr>as_status_revision := next_id (as_status_revision s), as_pending := None,
               as_profiles := (as_profiles s)\<lparr>pv_activation_pending := None,
                  pv_rows := take PROFILE_VIEW_CAPACITY (fs_profiles snapshot)\<rparr>,
               as_proxies := (as_proxies s)\<lparr>px_group_load_pending := None, px_selection_pending := None,
                  px_groups := groups, px_rows := rows, px_selected_group := selected_group,
                  px_group_cursor := cursor\<rparr>,
               as_connections := \<lparr>cn_selected = 0, cn_scroll = 0\<rparr>,
               as_rules := (as_rules s)\<lparr>ru_load_pending := None, ru_loaded_connection_generation := None,
                  ru_loaded_runtime_generation := None, ru_load_error := None\<rparr>,
               as_connection := \<lparr>cx_status = UiConnected, cx_generation = generation, cx_snapshot_stale = False\<rparr>,
               as_logs := fold push_view_log (fs_logs snapshot) logs,
               as_status := Some (fs_status snapshot)\<rparr>
     in (clamp_selections low s)\<lparr>as_render_dirty := True\<rparr>)"

definition set_status_preserving_connection_selection :: "StatusSnapshot \<Rightarrow> AppState \<Rightarrow> AppState" where
  "set_status_preserving_connection_selection status s =
    (let selected_connection =
           (case Option.bind (as_status s) (\<lambda>current. vec_get (st_connections current) (cn_selected (as_connections s))) of
              None \<Rightarrow> None
            | Some connection \<Rightarrow> if cr_id connection = [] then None else Some (cr_id connection));
         selected =
           (case Option.bind selected_connection
                   (\<lambda>k. position (\<lambda>connection. cr_id connection = k) (st_connections status)) of
              Some index \<Rightarrow> index | None \<Rightarrow> cn_selected (as_connections s));
         s = s\<lparr>as_status := Some status\<rparr>;
         selected = clamp_index selected (connection_record_count s)
     in s\<lparr>as_connections := \<lparr>cn_selected = selected, cn_scroll = min (cn_scroll (as_connections s)) selected\<rparr>\<rparr>)"

definition refresh_collections ::
  "(string \<Rightarrow> string) \<Rightarrow> bool \<Rightarrow> ProxyRow list \<Rightarrow> ProxyGroupRow list \<Rightarrow> ProfileRow list \<Rightarrow> AppState \<Rightarrow> AppState" where
  "refresh_collections low replace_proxies proxies proxy_groups profiles s =
    (let px = as_proxies s;
         pv = as_profiles s;
         selected_proxy = Option.bind (vec_get (px_rows px) (px_selected px)) pr_node_id;
         selected_profile = map_option po_id (vec_get (filtered_profiles low pv) (pv_selected pv));
         px = px\<lparr>px_rows := (if replace_proxies then proxies else px_rows px), px_groups := proxy_groups\<rparr>;
         pv = pv\<lparr>pv_rows := profiles\<rparr>;
         proxy_index = (if replace_proxies then Option.bind selected_proxy
                          (\<lambda>k. position (\<lambda>row. pr_node_id row = Some k) (px_rows px)) else None);
         profile_index = Option.bind selected_profile
                          (\<lambda>k. position (\<lambda>row. po_id row = k) (filtered_profiles low pv));
         px = px\<lparr>px_selected := (case proxy_index of Some index \<Rightarrow> index | None \<Rightarrow> px_selected px)\<rparr>;
         pv = pv\<lparr>pv_selected := (case profile_index of Some index \<Rightarrow> index | None \<Rightarrow> pv_selected pv)\<rparr>
     in s\<lparr>as_proxies := px, as_profiles := pv\<rparr>)"

definition refresh_status :: "bool \<Rightarrow> StatusSnapshot \<Rightarrow> AppState \<Rightarrow> AppState" where
  "refresh_status replace_status status s =
    (let s = (if replace_status
              then (let s = set_status_preserving_connection_selection status s
                    in s\<lparr>as_status_revision := next_id (as_status_revision s)\<rparr>)
              else s)
     in s\<lparr>as_connection := (as_connection s)\<lparr>cx_snapshot_stale := False\<rparr>\<rparr>)"

definition refresh_selected_group :: "bool \<Rightarrow> AppState \<Rightarrow> AppState" where
  "refresh_selected_group replace_proxies s =
    (if replace_proxies
     then s\<lparr>as_proxies := (as_proxies s)\<lparr>px_selected_group :=
              map_option pr_group (vec_get (px_rows (as_proxies s)) 0)\<rparr>\<rparr>
     else s)"

definition restore_group_cursor :: "string option \<Rightarrow> AppState \<Rightarrow> AppState" where
  "restore_group_cursor focused_group s =
    (let px = as_proxies s;
         cursor = (case position (\<lambda>g. focused_group = Some (pg_name g)) (px_groups px) of
             Some index \<Rightarrow> index
           | None \<Rightarrow> (case Option.bind (px_selected_group px)
                          (\<lambda>selected. position (\<lambda>g. pg_name g = selected) (px_groups px)) of
                       Some index \<Rightarrow> index | None \<Rightarrow> 0))
     in s\<lparr>as_proxies := px\<lparr>px_group_cursor := cursor\<rparr>\<rparr>)"

definition refresh_snapshot ::
  "(string \<Rightarrow> string) \<Rightarrow> u64 \<Rightarrow> u64 \<Rightarrow> u64 \<Rightarrow> FullViewSnapshot \<Rightarrow> AppState \<Rightarrow> AppState" where
  "refresh_snapshot low generation base_view_revision base_status_revision snapshot s =
    (if \<not> accepts_snapshot_refresh generation base_view_revision s then s
     else let proxies = take MAX_ACTIVE_NODES (fs_proxies snapshot);
              proxy_groups = take MAX_ACTIVE_NODES (fs_proxy_groups snapshot);
              incoming_group = map_option pr_group (vec_get proxies 0);
              replace_proxies = (case px_selected_group (as_proxies s) of
                  None \<Rightarrow> True | Some selected \<Rightarrow> Some selected = incoming_group);
              profiles = take PROFILE_VIEW_CAPACITY (fs_profiles snapshot);
              replace_status = (base_status_revision = as_status_revision s)
          in if (\<not> replace_status \<or> as_status s = Some (fs_status snapshot)) \<and>
                (\<not> replace_proxies \<or> px_rows (as_proxies s) = proxies) \<and>
                px_groups (as_proxies s) = proxy_groups \<and> pv_rows (as_profiles s) = profiles \<and>
                \<not> cx_snapshot_stale (as_connection s)
             then s
             else let focused_group = map_option pg_name (vec_get (px_groups (as_proxies s)) (px_group_cursor (as_proxies s)));
                      s = refresh_collections low replace_proxies proxies proxy_groups profiles s;
                      s = refresh_selected_group replace_proxies (refresh_status replace_status (fs_status snapshot) s);
                      s = restore_group_cursor focused_group s;
                      s = bump_view_revision (clamp_selections low s)
                  in s\<lparr>as_render_dirty := True\<rparr>)"

definition rules_projection_ready :: "AppState \<Rightarrow> bool" where
  "rules_projection_ready s \<longleftrightarrow>
    cx_status (as_connection s) = UiConnected \<and> ru_initialized (as_rules s) \<and>
    ru_load_pending (as_rules s) = None \<and> ru_load_error (as_rules s) = None \<and>
    ru_loaded_connection_generation (as_rules s) = Some (cx_generation (as_connection s)) \<and>
    (case as_status s of None \<Rightarrow> False
     | Some status \<Rightarrow> ru_loaded_runtime_generation (as_rules s) = st_runtime_generation status)"

fun modal_awaits :: "Modal \<Rightarrow> PendingOperationKind \<Rightarrow> bool" where
  "modal_awaits (RuleEditor None _) kind = (kind = OpAddRule)"
| "modal_awaits (RuleEditor (Some _) _) kind = (kind = OpReplaceRule)"
| "modal_awaits (RuleRemovalConfirmation _) kind = (kind = OpRemoveRule)"
| "modal_awaits (LifecycleConfirmation PaletteRestartSupervisor) kind = (kind = OpRestartSupervisor)"
| "modal_awaits (LifecycleConfirmation PaletteStopSupervisor) kind = (kind = OpStopSupervisor)"
| "modal_awaits _ kind = False"

definition modal_action_pending :: "AppState \<Rightarrow> bool" where
  "modal_action_pending s =
    (case (as_pending s, as_modal s) of (Some pending, Some modal) \<Rightarrow> modal_awaits modal (pe_kind pending)
     | _ \<Rightarrow> False)"

section \<open>Searching lists\<close>

lemma position_bound: "position P xs = Some i \<Longrightarrow> i < length xs \<and> P (xs ! i)"
  by (induction P xs arbitrary: i rule: position.induct) (auto split: if_splits)

end
