(* ===== verification/Tui_Reducer.thy ===== *)
theory Tui_Reducer
  imports Tui_State
begin

text \<open>
  The reducer of the Status Interface: terminal input (\<open>src/src/tui/input.rs\<close>) becomes
  intents, and \<open>update\<close> (\<open>src/src/tui/reducer.rs\<close>) turns each event into a new state and
  the commands the driver runs.

  Operations that take \<open>&mut AppState\<close> and return commands return the commands and the new
  state.  \<open>low\<close> is \<open>str::to_lowercase\<close>.
\<close>

section \<open>Events and commands\<close>

datatype KeyInput =
    KeyCharacter string | KeyEnter | KeyEscape | KeyTab | KeyBackTab | KeyUp | KeyDown | KeyLeft | KeyRight | KeyBackspace

datatype MouseInputKind = LeftClick | MouseScrollUp | MouseScrollDown

record MouseInput =
  mo_kind :: MouseInputKind
  mo_column :: u16
  mo_row :: u16

datatype TerminalInput = TerminalKey KeyInput | TerminalMouse MouseInput

record MutationSuccess =
  ms_message :: string

datatype UiEvent =
    Terminal TerminalInput
  | IntentEvent UiIntent
  | Connected u64 FullViewSnapshot
  | DisconnectedEvent u64
  | StatusSnapshotEvent u64 StatusSnapshot
  | SnapshotRefreshed u64 u64 u64 FullViewSnapshot
  | SnapshotRefreshFailed u64 u64
  | ProxyGroupLoaded RequestId u64 "string + ProxyGroupSnapshot"
  | RulesLoaded RequestId u64 "string + RuleListSnapshot"
  | LogBatch u64 "ViewLogRecord list" bool u64
  | CommandResult RequestId u64 "string + MutationSuccess"
  | ReconnectDeadline u64
  | Resize u16 u16
  | Shutdown

datatype Command =
    Connect u64
  | ScheduleReconnect u64
  | CmdActivateProfile RequestId u64 ProfileId
  | CmdSelectNode RequestId u64 ProxyGroupId NodeRecordId
  | FetchProxyGroup RequestId u64 ProxyGroupId
  | FetchRules RequestId u64
  | AddRule RequestId u64 string
  | ReplaceRule RequestId u64 string string
  | RemoveRule RequestId u64 string
  | RestartSupervisor RequestId u64
  | StopSupervisor RequestId u64
  | FetchLogTail u64 "u64 option"
  | RefreshSnapshot u64 u64 u64
  | Cancel RequestId

type_synonym reducer = "AppState \<Rightarrow> Command list \<times> AppState"

section \<open>Terminal input\<close>

definition rect_contains :: "Rect \<Rightarrow> u16 \<Rightarrow> u16 \<Rightarrow> bool" where
  "rect_contains area column row \<longleftrightarrow>
    re_x area \<le> column \<and> column < saturating_add (re_x area) (re_width area) \<and>
    re_y area \<le> row \<and> row < saturating_add (re_y area) (re_height area)"

definition intent_for :: "InteractionMap \<Rightarrow> MouseInput \<Rightarrow> UiIntent option" where
  "intent_for im mouse =
    (case mo_kind mouse of
       LeftClick \<Rightarrow> map_option ia_intent
         (find (\<lambda>i. rect_contains (ia_area i) (mo_column mouse) (mo_row mouse)) (rev (im_interactions im)))
     | kind \<Rightarrow> if list_ex (\<lambda>i. rect_contains (sc_area i) (mo_column mouse) (mo_row mouse)) (im_scroll_regions im)
               then Some (if kind = MouseScrollUp then ScrollUp else ScrollDown) else None)"

definition filtered_palette_actions ::
  "(string \<Rightarrow> string) \<Rightarrow> CommandPaletteState \<Rightarrow> CommandPaletteAction list" where
  "filtered_palette_actions low p =
    (let needle = low (cp_query p)
     in filter (\<lambda>action. needle = [] \<or> sublist needle (palette_label action) \<or>
                         sublist needle (low (palette_description action))) palette_all)"

definition group_selectable :: "ProxyGroupId \<Rightarrow> AppState \<Rightarrow> bool" where
  "group_selectable group_id s =
    (case find (\<lambda>g. pg_id g = group_id) (px_groups (as_proxies s)) of None \<Rightarrow> False | Some g \<Rightarrow> pg_selectable g)"

definition search_key_intent :: "KeyInput \<Rightarrow> UiIntent option" where
  "search_key_intent key =
    (case key of
       KeyEscape \<Rightarrow> Some Escape
     | KeyEnter \<Rightarrow> Some Escape
     | KeyBackspace \<Rightarrow> Some Backspace
     | KeyTab \<Rightarrow> Some FocusNext
     | KeyBackTab \<Rightarrow> Some FocusPrevious
     | KeyCharacter c \<Rightarrow> Some (InputCharacter c)
     | _ \<Rightarrow> None)"

definition page_selected_intent :: "(string \<Rightarrow> string) \<Rightarrow> AppState \<Rightarrow> UiIntent option" where
  "page_selected_intent low s =
    (case as_page s of
       Proxies \<Rightarrow>
         if px_group_load_pending (as_proxies s) \<noteq> None then None
         else (case vec_get (px_rows (as_proxies s)) (px_selected (as_proxies s)) of
                 None \<Rightarrow> None
               | Some row \<Rightarrow> if group_selectable (pr_group_id row) s
                             then map_option (SelectNode (pr_group_id row)) (pr_node_id row) else None)
     | RulesPage \<Rightarrow>
         if rules_projection_ready s
         then map_option (\<lambda>_. OpenSelectedRuleEditor)
                (vec_get (filtered_rules low (as_rules s)) (ru_selected (as_rules s)))
         else None
     | Connections \<Rightarrow> None
     | Logs \<Rightarrow> Some ToggleLogPause)"

definition selected_intent :: "(string \<Rightarrow> string) \<Rightarrow> AppState \<Rightarrow> UiIntent option" where
  "selected_intent low s =
    (if as_modal s = Some CommandPalette
     then map_option RunPaletteAction
            (vec_get (filtered_palette_actions low (as_palette s)) (cp_selected (as_palette s)))
     else if as_modal s = Some ProfilesModal
     then (if as_focus s \<noteq> Content then None
           else map_option (\<lambda>row. ActivateProfile (po_id row))
                  (vec_get (filtered_profiles low (as_profiles s)) (pv_selected (as_profiles s))))
     else (case as_focus s of
             Tabs \<Rightarrow> Some (SwitchPage (as_page s))
           | ProxyGroups \<Rightarrow> map_option (\<lambda>g. ShowProxyGroup (pg_id g))
               (vec_get (px_groups (as_proxies s)) (px_group_cursor (as_proxies s)))
           | FooterHelp \<Rightarrow> Some ToggleHelp
           | FooterQuit \<Rightarrow> Some Quit
           | Search \<Rightarrow> None
           | ModalFocus \<Rightarrow> None
           | Content \<Rightarrow> page_selected_intent low s))"

definition key_is :: "KeyInput \<Rightarrow> string \<Rightarrow> bool" where
  "key_is key c \<longleftrightarrow> key = KeyCharacter c"

definition modal_key_intent :: "(string \<Rightarrow> string) \<Rightarrow> AppState \<Rightarrow> Modal \<Rightarrow> KeyInput \<Rightarrow> UiIntent option" where
  "modal_key_intent low s modal key =
    (case modal of
       CommandPalette \<Rightarrow>
         if key = KeyEscape then Some CloseModal
         else if key = KeyEnter then selected_intent low s
         else if key = KeyBackspace then Some Backspace
         else if key_is key ''j'' \<or> key = KeyDown then Some MoveDown
         else if key_is key ''k'' \<or> key = KeyUp then Some MoveUp
         else (case key of KeyCharacter c \<Rightarrow> Some (InputCharacter c) | _ \<Rightarrow> None)
     | ProfilesModal \<Rightarrow>
         if as_focus s = Search then search_key_intent key
         else if key = KeyEscape \<or> key_is key ''q'' then Some CloseModal
         else if key = KeyEnter then selected_intent low s
         else if key = KeyTab then Some FocusNext
         else if key = KeyBackTab then Some FocusPrevious
         else if key_is key ''j'' \<or> key = KeyDown then Some MoveDown
         else if key_is key ''k'' \<or> key = KeyUp then Some MoveUp
         else if key_is key ''/'' then Some FocusSearch
         else None
     | RuleEditor _ _ \<Rightarrow>
         if \<not> rules_projection_ready s then (if key = KeyEscape then Some CloseModal else None)
         else if key = KeyEscape then Some CloseModal
         else if key = KeyEnter \<and> \<not> modal_action_pending s then Some SubmitRuleEditor
         else if key = KeyBackspace then Some Backspace
         else (case key of KeyCharacter c \<Rightarrow> Some (InputCharacter c) | _ \<Rightarrow> None)
     | RuleRemovalConfirmation _ \<Rightarrow>
         if \<not> rules_projection_ready s then (if key = KeyEscape then Some CloseModal else None)
         else if (key = KeyEnter \<or> key_is key ''y'') \<and> \<not> modal_action_pending s then Some ConfirmRuleRemoval
         else if key = KeyEscape \<or> key_is key ''n'' \<or> key_is key ''q'' then Some CloseModal
         else None
     | LifecycleConfirmation _ \<Rightarrow>
         if (key = KeyEnter \<or> key_is key ''y'') \<and> \<not> modal_action_pending s then Some ConfirmLifecycleAction
         else if key = KeyEscape \<or> key_is key ''n'' \<or> key_is key ''q'' then Some CloseModal
         else None
     | _ \<Rightarrow> if key = KeyEscape \<or> key = KeyEnter \<or> key_is key ''q'' then Some CloseModal else None)"

definition page_key_intent :: "(string \<Rightarrow> string) \<Rightarrow> AppState \<Rightarrow> KeyInput \<Rightarrow> UiIntent option" where
  "page_key_intent low s key =
    (let down = key_is key ''j'' \<or> key = KeyDown;
         up = key_is key ''k'' \<or> key = KeyUp;
         page = as_page s;
         movable = page \<noteq> Logs \<and> (page \<noteq> RulesPage \<or> rules_projection_ready s)
     in if key_is key ''1'' then Some (SwitchPage Proxies)
        else if key_is key ''2'' then Some (SwitchPage Connections)
        else if key_is key ''3'' then Some (SwitchPage RulesPage)
        else if key_is key ''4'' then Some (SwitchPage Logs)
        else if down \<and> as_focus s = ProxyGroups then Some NextProxyGroup
        else if up \<and> as_focus s = ProxyGroups then Some PreviousProxyGroup
        else if down \<and> page = Logs \<and> as_focus s = Content then Some MoveDown
        else if up \<and> page = Logs \<and> as_focus s = Content then Some MoveUp
        else if down \<and> movable then Some MoveDown
        else if up \<and> movable then Some MoveUp
        else if key = KeyEnter then selected_intent low s
        else if key_is key ''h'' \<or> key = KeyLeft then Some FocusLeft
        else if key_is key ''l'' \<or> key = KeyRight then Some FocusRight
        else if key = KeyTab then Some FocusNext
        else if key = KeyBackTab then Some FocusPrevious
        else if key_is key ''/'' \<and> (page = RulesPage \<or> page = Logs) then Some FocusSearch
        else if key_is key '':'' then Some OpenCommandPalette
        else if key_is key ''p'' \<and> page \<noteq> Logs then Some OpenProfiles
        else if key_is key ''?'' then Some ToggleHelp
        else if key_is key ''q'' then Some Quit
        else if key = KeyEscape then Some Escape
        else if key_is key ''z'' \<and> page = Proxies then Some ToggleZoom
        else if key_is key ''r'' \<and> page = RulesPage then Some LoadRules
        else if key_is key ''a'' \<and> page = RulesPage \<and> rules_projection_ready s then Some OpenRuleAdd
        else if key_is key ''x'' \<and> page = RulesPage \<and> rules_projection_ready s then Some RequestSelectedRuleRemoval
        else if key_is key ''a'' \<and> page = Logs then Some (SetLogLevel FilterAll)
        else if key_is key ''d'' \<and> page = Logs then Some (SetLogLevel FilterDebug)
        else if key_is key ''i'' \<and> page = Logs then Some (SetLogLevel FilterInfo)
        else if key_is key ''w'' \<and> page = Logs then Some (SetLogLevel FilterWarn)
        else if key_is key ''e'' \<and> page = Logs then Some (SetLogLevel FilterError)
        else if key_is key ''p'' \<and> page = Logs then Some ToggleLogPause
        else if key_is key ''f'' \<and> page = Logs then Some FollowLogs
        else None)"

definition input_to_intent :: "(string \<Rightarrow> string) \<Rightarrow> AppState \<Rightarrow> TerminalInput \<Rightarrow> UiIntent option" where
  "input_to_intent low s input =
    (case input of
       TerminalMouse mouse \<Rightarrow> Option.bind (as_interaction_map s) (\<lambda>im. intent_for im mouse)
     | TerminalKey key \<Rightarrow>
         (case as_modal s of
            Some modal \<Rightarrow> modal_key_intent low s modal key
          | None \<Rightarrow> if as_focus s = Search then search_key_intent key else page_key_intent low s key))"

section \<open>Cancelling and issuing requests\<close>

definition cancel_mutation :: reducer where
  "cancel_mutation s =
    (case as_pending s of
       None \<Rightarrow> ([], s)
     | Some pending \<Rightarrow>
         ([Cancel (pe_request_id pending)],
          s\<lparr>as_pending := None,
            as_profiles := (if pe_kind pending = OpActivateProfile
                            then (as_profiles s)\<lparr>pv_activation_pending := None\<rparr> else as_profiles s),
            as_proxies := (as_proxies s)\<lparr>px_selection_pending := None\<rparr>\<rparr>))"

definition cancel_group_load :: reducer where
  "cancel_group_load s =
    (case px_group_load_pending (as_proxies s) of
       None \<Rightarrow> ([], s)
     | Some pending \<Rightarrow> ([Cancel (pl_request_id pending)],
                       s\<lparr>as_proxies := (as_proxies s)\<lparr>px_group_load_pending := None\<rparr>\<rparr>))"

definition cancel_rule_load :: reducer where
  "cancel_rule_load s =
    (case ru_load_pending (as_rules s) of
       None \<Rightarrow> ([], s)
     | Some pending \<Rightarrow> ([Cancel (rl_request_id pending)],
                       s\<lparr>as_rules := (as_rules s)\<lparr>ru_load_pending := None\<rparr>\<rparr>))"

definition cancel_pending :: reducer where
  "cancel_pending s =
    (let (mutation, s) = cancel_mutation s;
         (group, s) = cancel_group_load s;
         (rules, s) = cancel_rule_load s
     in (mutation @ group @ rules, s))"

definition issue_rule_load :: reducer where
  "issue_rule_load s =
    (if cx_status (as_connection s) \<noteq> UiConnected then ([], s)
     else let (request_id, s) = take_request_id s;
              (commands, s) = cancel_rule_load s;
              generation = cx_generation (as_connection s)
          in (commands @ [FetchRules request_id generation],
              s\<lparr>as_rules := (as_rules s)\<lparr>ru_load_error := None,
                 ru_load_pending := Some \<lparr>rl_request_id = request_id, rl_connection_generation = generation,
                   rl_runtime_generation = runtime_generation_of s\<rparr>\<rparr>\<rparr>))"

definition ensure_rules_loaded :: reducer where
  "ensure_rules_loaded s =
    (let connection_generation = cx_generation (as_connection s);
         runtime_generation = runtime_generation_of s
     in if cx_status (as_connection s) \<noteq> UiConnected \<or>
           (ru_loaded_connection_generation (as_rules s) = Some connection_generation \<and>
            ru_loaded_runtime_generation (as_rules s) = runtime_generation) \<or>
           (case ru_load_pending (as_rules s) of None \<Rightarrow> False
            | Some pending \<Rightarrow> rl_connection_generation pending = connection_generation \<and>
                              rl_runtime_generation pending = runtime_generation)
        then ([], s) else issue_rule_load s)"

definition invalidate_rule_cache :: reducer where
  "invalidate_rule_cache s =
    (let (commands, s) = cancel_rule_load s
     in (commands, s\<lparr>as_rules := (as_rules s)\<lparr>ru_loaded_connection_generation := None,
                     ru_loaded_runtime_generation := None, ru_load_error := None\<rparr>\<rparr>))"

definition issue_proxy_group_load :: "ProxyGroupId \<Rightarrow> reducer" where
  "issue_proxy_group_load group_id s =
    (case position (\<lambda>g. pg_id g = group_id) (px_groups (as_proxies s)) of
       None \<Rightarrow> ([], s)
     | Some index \<Rightarrow>
         let group_name = pg_name (px_groups (as_proxies s) ! index);
             s = s\<lparr>as_proxies := (as_proxies s)\<lparr>px_group_cursor := index\<rparr>\<rparr>
         in if px_selected_group (as_proxies s) = Some group_name \<and> px_group_load_pending (as_proxies s) = None
            then ([], if as_terminal_width s < 90 then s\<lparr>as_focus := Content\<rparr> else s)
            else let (request_id, s) = take_request_id s;
                     (commands, s) = cancel_group_load s;
                     generation = cx_generation (as_connection s)
                 in (commands @ [FetchProxyGroup request_id generation group_id],
                     s\<lparr>as_proxies := (as_proxies s)\<lparr>px_group_load_pending := Some \<lparr>pl_request_id = request_id,
                        pl_connection_generation = generation, pl_group_id = group_id\<rparr>\<rparr>\<rparr>))"

definition issue_profile_activation :: "ProfileId \<Rightarrow> reducer" where
  "issue_profile_activation profile_id s =
    (let (request_id, s) = take_request_id s;
         (commands, s) = cancel_pending s;
         generation = cx_generation (as_connection s);
         s = s\<lparr>as_profiles := (as_profiles s)\<lparr>pv_activation_pending := Some profile_id\<rparr>,
               as_pending := Some \<lparr>pe_request_id = request_id, pe_connection_generation = generation,
                                   pe_kind = OpActivateProfile\<rparr>\<rparr>
     in (commands @ [CmdActivateProfile request_id generation profile_id], bump_view_revision s))"

definition issue_node_selection :: "ProxyGroupId \<Rightarrow> NodeRecordId \<Rightarrow> reducer" where
  "issue_node_selection group_id node_id s =
    (if \<not> group_selectable group_id s then ([], s)
     else let (request_id, s) = take_request_id s;
              (commands, s) = cancel_pending s;
              generation = cx_generation (as_connection s);
              s = s\<lparr>as_pending := Some \<lparr>pe_request_id = request_id, pe_connection_generation = generation,
                                        pe_kind = OpSelectNode\<rparr>\<rparr>;
              s = (case find (\<lambda>g. pg_id g = group_id) (px_groups (as_proxies s)) of
                     None \<Rightarrow> s
                   | Some g \<Rightarrow> s\<lparr>as_proxies := (as_proxies s)\<lparr>px_selected_group := Some (pg_name g)\<rparr>\<rparr>);
              s = s\<lparr>as_proxies := (as_proxies s)\<lparr>px_selection_pending := Some (group_id, node_id)\<rparr>\<rparr>
          in (commands @ [CmdSelectNode request_id generation group_id node_id], bump_view_revision s))"

definition issue_lifecycle_action :: "CommandPaletteAction \<Rightarrow> reducer" where
  "issue_lifecycle_action action s =
    (let (request_id, s) = take_request_id s;
         (commands, s) = cancel_pending s;
         generation = cx_generation (as_connection s);
         issue = (\<lambda>kind command. (commands @ [command], bump_view_revision
           (s\<lparr>as_pending := Some \<lparr>pe_request_id = request_id, pe_connection_generation = generation,
                                 pe_kind = kind\<rparr>\<rparr>)))
     in case action of
          PaletteRestartSupervisor \<Rightarrow> issue OpRestartSupervisor (RestartSupervisor request_id generation)
        | PaletteStopSupervisor \<Rightarrow> issue OpStopSupervisor (StopSupervisor request_id generation)
        | PaletteProfiles \<Rightarrow> ([], s))"

definition submit_rule_editor :: reducer where
  "submit_rule_editor s =
    (if \<not> rules_projection_ready s \<or> modal_action_pending s then ([], s)
     else case as_modal s of
       Some (RuleEditor original value) \<Rightarrow>
         if value = [] then ([], s\<lparr>as_toast := Some ''Error: Rule String is required''\<rparr>)
         else if original = Some value then ([], s\<lparr>as_toast := Some ''Rule String is unchanged''\<rparr>)
         else let (request_id, s) = take_request_id s;
                  (commands, s) = cancel_pending s;
                  generation = cx_generation (as_connection s);
                  (kind, command) = (case original of
                      Some old_rule \<Rightarrow> (OpReplaceRule, ReplaceRule request_id generation old_rule value)
                    | None \<Rightarrow> (OpAddRule, AddRule request_id generation value))
              in (commands @ [command], bump_view_revision
                   (s\<lparr>as_pending := Some \<lparr>pe_request_id = request_id, pe_connection_generation = generation,
                                         pe_kind = kind\<rparr>\<rparr>))
     | _ \<Rightarrow> ([], s))"

definition confirm_rule_removal :: reducer where
  "confirm_rule_removal s =
    (if \<not> rules_projection_ready s \<or> modal_action_pending s then ([], s)
     else case as_modal s of
       Some (RuleRemovalConfirmation rule) \<Rightarrow>
         let (request_id, s) = take_request_id s;
             (commands, s) = cancel_pending s;
             generation = cx_generation (as_connection s)
         in (commands @ [RemoveRule request_id generation rule], bump_view_revision
              (s\<lparr>as_pending := Some \<lparr>pe_request_id = request_id, pe_connection_generation = generation,
                                    pe_kind = OpRemoveRule\<rparr>\<rparr>))
     | _ \<Rightarrow> ([], s))"

definition confirm_lifecycle_action :: reducer where
  "confirm_lifecycle_action s =
    (case as_modal s of
       Some (LifecycleConfirmation action) \<Rightarrow>
         if modal_action_pending s then ([], s) else issue_lifecycle_action action s
     | _ \<Rightarrow> ([], s))"

section \<open>Focus and pages\<close>

definition switch_page :: "Page \<Rightarrow> reducer" where
  "switch_page page s =
    (let s = s\<lparr>as_page := page, as_modal := None, as_zoomed_focus := False, as_focus := Content\<rparr>
     in if page = RulesPage then ensure_rules_loaded s else ([], s))"

definition available_focuses :: "AppState \<Rightarrow> Focus list" where
  "available_focuses s =
    (case as_modal s of
       Some ProfilesModal \<Rightarrow> [Content, Search]
     | Some _ \<Rightarrow> [ModalFocus]
     | None \<Rightarrow> (case as_page s of
         Proxies \<Rightarrow> [Tabs, ProxyGroups, Content, FooterHelp, FooterQuit]
       | Connections \<Rightarrow> [Tabs, Content, FooterHelp, FooterQuit]
       | _ \<Rightarrow> [Tabs, Content, Search, FooterHelp, FooterQuit]))"

definition move_focus :: "int \<Rightarrow> AppState \<Rightarrow> AppState" where
  "move_focus delta s =
    (let focuses = available_focuses s;
         index = (case position (\<lambda>f. f = as_focus s) focuses of Some i \<Rightarrow> i | None \<Rightarrow> 0);
         target = (if delta < 0 then (if index = 0 then length focuses - 1 else index - 1)
                   else (index + 1) mod length focuses)
     in s\<lparr>as_focus := focuses ! target\<rparr>)"

definition move_horizontal_focus :: "int \<Rightarrow> AppState \<Rightarrow> AppState" where
  "move_horizontal_focus delta s =
    (if as_modal s = None \<and> as_page s = Proxies
     then (if as_focus s = Content \<and> delta < 0 then s\<lparr>as_focus := ProxyGroups\<rparr>
           else if as_focus s = ProxyGroups \<and> \<not> delta < 0 then s\<lparr>as_focus := Content\<rparr>
           else s)
     else s)"

definition normalize_focus :: "AppState \<Rightarrow> AppState" where
  "normalize_focus s =
    (if as_focus s \<in> set (available_focuses s) then s else s\<lparr>as_focus := hd (available_focuses s)\<rparr>)"

definition search_available :: "AppState \<Rightarrow> bool" where
  "search_available s \<longleftrightarrow> as_modal s = Some ProfilesModal \<or>
    as_modal s = None \<and> (as_page s = RulesPage \<or> as_page s = Logs)"

definition follow_logs :: "AppState \<Rightarrow> AppState" where
  "follow_logs s = s\<lparr>as_logs := (as_logs s)\<lparr>lg_follow := True, lg_scroll := 0, lg_viewport_start := 0\<rparr>\<rparr>"

definition escape :: "AppState \<Rightarrow> AppState" where
  "escape s =
    (if as_modal s = Some ProfilesModal \<and> as_focus s = Search then s\<lparr>as_focus := Content\<rparr>
     else if as_modal s \<noteq> None then s\<lparr>as_modal := None, as_focus := Content\<rparr>
     else if as_focus s = Search then s\<lparr>as_focus := Content\<rparr>
     else if as_zoomed_focus s then s\<lparr>as_zoomed_focus := False\<rparr>
     else if as_page s = Logs \<and> \<not> lg_follow (as_logs s) then follow_logs s
     else if as_page s = Proxies \<and> as_focus s = Content \<and> as_terminal_width s < 90
     then s\<lparr>as_focus := ProxyGroups\<rparr>
     else s\<lparr>as_focus := Content\<rparr>)"

section \<open>Text input\<close>

text \<open>\<open>current_search_mut\<close> as its read and its write.\<close>

definition current_search :: "AppState \<Rightarrow> string option" where
  "current_search s =
    (if as_modal s = Some ProfilesModal then Some (pv_filter (as_profiles s))
     else case as_page s of
       Proxies \<Rightarrow> None
     | Connections \<Rightarrow> None
     | RulesPage \<Rightarrow> Some (ru_filter (as_rules s))
     | Logs \<Rightarrow> Some (lg_search (as_logs s)))"

definition set_current_search :: "string \<Rightarrow> AppState \<Rightarrow> AppState" where
  "set_current_search value s =
    (if as_modal s = Some ProfilesModal then s\<lparr>as_profiles := (as_profiles s)\<lparr>pv_filter := value\<rparr>\<rparr>
     else case as_page s of
       RulesPage \<Rightarrow> s\<lparr>as_rules := (as_rules s)\<lparr>ru_filter := value\<rparr>\<rparr>
     | Logs \<Rightarrow> s\<lparr>as_logs := (as_logs s)\<lparr>lg_search := value\<rparr>\<rparr>
     | _ \<Rightarrow> s)"

definition set_palette_query :: "(string \<Rightarrow> string) \<Rightarrow> string \<Rightarrow> AppState \<Rightarrow> AppState" where
  "set_palette_query low query s =
    (let p = (as_palette s)\<lparr>cp_query := query\<rparr>
     in s\<lparr>as_palette := p\<lparr>cp_selected := clamp_index (cp_selected p) (length (filtered_palette_actions low p))\<rparr>\<rparr>)"

definition search_has_room :: "string \<Rightarrow> string \<Rightarrow> bool" where
  "search_has_room search character \<longleftrightarrow>
    char_count search < TUI_SEARCH_MAX_CHARACTERS \<and>
    usize_add (length search) (length character) \<le> TUI_SEARCH_MAX_BYTES"

definition append_input :: "(string \<Rightarrow> string) \<Rightarrow> string \<Rightarrow> AppState \<Rightarrow> AppState" where
  "append_input low character s =
    (if is_control character then s
     else case as_modal s of
       Some CommandPalette \<Rightarrow>
         if search_has_room (cp_query (as_palette s)) character
         then set_palette_query low (cp_query (as_palette s) @ character) s else s
     | Some (RuleEditor original value) \<Rightarrow>
         if usize_add (length value) (length character) \<le> RULE_STRING_MAX_BYTES
         then s\<lparr>as_modal := Some (RuleEditor original (value @ character))\<rparr> else s
     | _ \<Rightarrow> (case current_search s of
               Some search \<Rightarrow> if search_has_room search character
                 then clamp_selections low (set_current_search (search @ character) s) else s
             | None \<Rightarrow> s))"

definition backspace_input :: "(string \<Rightarrow> string) \<Rightarrow> AppState \<Rightarrow> AppState" where
  "backspace_input low s =
    (case as_modal s of
       Some CommandPalette \<Rightarrow> set_palette_query low (pop_char (cp_query (as_palette s))) s
     | Some (RuleEditor original value) \<Rightarrow> s\<lparr>as_modal := Some (RuleEditor original (pop_char value))\<rparr>
     | _ \<Rightarrow> clamp_selections low (case current_search s of
               Some search \<Rightarrow> set_current_search (pop_char search) s
             | None \<Rightarrow> s))"

section \<open>Selections\<close>

definition visible_row_count :: "AppState \<Rightarrow> nat" where
  "visible_row_count s =
    (case Option.bind (as_interaction_map s) (\<lambda>im. vec_get (rev (im_scroll_regions im)) 0) of
       None \<Rightarrow> usize_max
     | Some region \<Rightarrow>
         let height = unat (re_height (sc_area region))
         in if as_modal s = Some ProfilesModal \<or> as_page s = Logs then height else height - 1)"

datatype ListSelection = ProfileList | ProxyList | ConnectionList | RuleList

definition keep_selection_visible :: "(string \<Rightarrow> string) \<Rightarrow> ListSelection \<Rightarrow> AppState \<Rightarrow> AppState" where
  "keep_selection_visible low selection s =
    (let visible = visible_row_count s
     in case selection of
       ProfileList \<Rightarrow> s\<lparr>as_profiles := (as_profiles s)\<lparr>pv_scroll :=
         visible_window_start (pv_scroll (as_profiles s)) (pv_selected (as_profiles s)) visible
           (filtered_profile_count low s)\<rparr>\<rparr>
     | ProxyList \<Rightarrow> s\<lparr>as_proxies := (as_proxies s)\<lparr>px_scroll :=
         visible_window_start (px_scroll (as_proxies s)) (px_selected (as_proxies s)) visible
           (length (px_rows (as_proxies s)))\<rparr>\<rparr>
     | ConnectionList \<Rightarrow> s\<lparr>as_connections := (as_connections s)\<lparr>cn_scroll :=
         visible_window_start (cn_scroll (as_connections s)) (cn_selected (as_connections s)) visible
           (connection_record_count s)\<rparr>\<rparr>
     | RuleList \<Rightarrow> s\<lparr>as_rules := (as_rules s)\<lparr>ru_scroll :=
         visible_window_start (ru_scroll (as_rules s)) (ru_selected (as_rules s)) visible
           (filtered_rule_count low s)\<rparr>\<rparr>)"

definition move_proxy_group :: "int \<Rightarrow> AppState \<Rightarrow> AppState" where
  "move_proxy_group delta s = s\<lparr>as_proxies := (as_proxies s)\<lparr>px_group_cursor :=
     moved_index (px_group_cursor (as_proxies s)) (length (px_groups (as_proxies s))) delta\<rparr>\<rparr>"

definition move_log_selection :: "(string \<Rightarrow> string) \<Rightarrow> int \<Rightarrow> AppState \<Rightarrow> AppState" where
  "move_log_selection low delta s =
    (let filtered_count = filtered_log_count low s
     in if filtered_count > 0
        then let visible = visible_row_count s;
                 was_following = lg_follow (as_logs s);
                 logs = (as_logs s)\<lparr>lg_follow := False,
                   lg_scroll := (if delta < 0 then min (usize_add (lg_scroll (as_logs s)) 1) (filtered_count - 1)
                                 else lg_scroll (as_logs s) - 1)\<rparr>;
                 selected = (case selected_log_position logs filtered_count of
                     Some at \<Rightarrow> at | None \<Rightarrow> filtered_count - 1);
                 start = (if was_following then filtered_count - visible else lg_viewport_start logs)
             in s\<lparr>as_logs := logs\<lparr>lg_viewport_start := visible_window_start start selected visible filtered_count\<rparr>\<rparr>
        else s)"

definition move_selection :: "(string \<Rightarrow> string) \<Rightarrow> int \<Rightarrow> AppState \<Rightarrow> AppState" where
  "move_selection low delta s =
    (if as_modal s = Some CommandPalette
     then s\<lparr>as_palette := (as_palette s)\<lparr>cp_selected := moved_index (cp_selected (as_palette s))
              (length (filtered_palette_actions low (as_palette s))) delta\<rparr>\<rparr>
     else if as_modal s = Some ProfilesModal
     then keep_selection_visible low ProfileList (s\<lparr>as_profiles := (as_profiles s)\<lparr>pv_selected :=
            moved_index (pv_selected (as_profiles s)) (filtered_profile_count low s) delta\<rparr>\<rparr>)
     else case as_page s of
       Proxies \<Rightarrow> keep_selection_visible low ProxyList (s\<lparr>as_proxies := (as_proxies s)\<lparr>px_selected :=
            moved_index (px_selected (as_proxies s)) (length (px_rows (as_proxies s))) delta\<rparr>\<rparr>)
     | Connections \<Rightarrow> keep_selection_visible low ConnectionList (s\<lparr>as_connections := (as_connections s)\<lparr>cn_selected :=
            moved_index (cn_selected (as_connections s)) (connection_record_count s) delta\<rparr>\<rparr>)
     | RulesPage \<Rightarrow>
         if rules_projection_ready s
         then keep_selection_visible low RuleList (s\<lparr>as_rules := (as_rules s)\<lparr>ru_selected :=
                moved_index (ru_selected (as_rules s)) (filtered_rule_count low s) delta\<rparr>\<rparr>)
         else s
     | Logs \<Rightarrow> move_log_selection low delta s)"

definition selected_log_sequence :: "(string \<Rightarrow> string) \<Rightarrow> AppState \<Rightarrow> u64 option" where
  "selected_log_sequence low s =
    (let row_indices = filtered_log_indices low (as_logs s)
     in map_option vl_sequence
          (Option.bind (Option.bind (selected_log_position (as_logs s) (length row_indices)) (vec_get row_indices))
             (vec_get (lg_records (as_logs s)))))"

definition restore_log_selection :: "(string \<Rightarrow> string) \<Rightarrow> u64 \<Rightarrow> AppState \<Rightarrow> AppState" where
  "restore_log_selection low sequence s =
    (let row_indices = filtered_log_indices low (as_logs s);
         scroll = (case position (\<lambda>index. case vec_get (lg_records (as_logs s)) index of
                       None \<Rightarrow> False | Some r \<Rightarrow> vl_sequence r = sequence) row_indices of
             Some at \<Rightarrow> length row_indices - usize_add at 1
           | None \<Rightarrow> clamp_index (lg_scroll (as_logs s)) (length row_indices))
     in s\<lparr>as_logs := (as_logs s)\<lparr>lg_scroll := scroll\<rparr>\<rparr>)"

section \<open>Intents\<close>

definition open_profiles :: "(string \<Rightarrow> string) \<Rightarrow> AppState \<Rightarrow> AppState" where
  "open_profiles low s = s\<lparr>as_modal := Some ProfilesModal, as_focus := Content,
     as_profiles := (as_profiles s)\<lparr>pv_selected :=
       clamp_index (pv_selected (as_profiles s)) (filtered_profile_count low s)\<rparr>\<rparr>"

definition open_command_palette :: "(string \<Rightarrow> string) \<Rightarrow> AppState \<Rightarrow> AppState" where
  "open_command_palette low s = s\<lparr>as_modal := Some CommandPalette, as_focus := ModalFocus,
     as_palette := (as_palette s)\<lparr>cp_selected :=
       clamp_index (cp_selected (as_palette s)) (length (filtered_palette_actions low (as_palette s)))\<rparr>\<rparr>"

definition run_palette_action :: "(string \<Rightarrow> string) \<Rightarrow> CommandPaletteAction \<Rightarrow> reducer" where
  "run_palette_action low action s =
    (case action of
       PaletteProfiles \<Rightarrow> ([], open_profiles low s)
     | PaletteRestartSupervisor \<Rightarrow> issue_lifecycle_action action s
     | PaletteStopSupervisor \<Rightarrow> ([], s\<lparr>as_modal := Some (LifecycleConfirmation action), as_focus := ModalFocus\<rparr>))"

definition open_rule_editor :: "string option \<Rightarrow> AppState \<Rightarrow> AppState" where
  "open_rule_editor original s =
    s\<lparr>as_modal := Some (RuleEditor original (case original of Some v \<Rightarrow> v | None \<Rightarrow> [])), as_focus := ModalFocus\<rparr>"

definition selected_rule :: "(string \<Rightarrow> string) \<Rightarrow> AppState \<Rightarrow> string option" where
  "selected_rule low s =
    map_option rw_rule_string (vec_get (filtered_rules low (as_rules s)) (ru_selected (as_rules s)))"

definition open_selected_rule_editor :: "(string \<Rightarrow> string) \<Rightarrow> AppState \<Rightarrow> AppState" where
  "open_selected_rule_editor low s =
    (case selected_rule low s of Some rule \<Rightarrow> open_rule_editor (Some rule) s | None \<Rightarrow> s)"

definition request_selected_rule_removal :: "(string \<Rightarrow> string) \<Rightarrow> AppState \<Rightarrow> AppState" where
  "request_selected_rule_removal low s =
    (case selected_rule low s of
       Some rule \<Rightarrow> s\<lparr>as_modal := Some (RuleRemovalConfirmation rule), as_focus := ModalFocus\<rparr>
     | None \<Rightarrow> s)"

definition select_rule :: "(string \<Rightarrow> string) \<Rightarrow> nat \<Rightarrow> AppState \<Rightarrow> AppState" where
  "select_rule low index s =
    (if rules_projection_ready s
     then (keep_selection_visible low RuleList (s\<lparr>as_rules := (as_rules s)\<lparr>ru_selected :=
             clamp_index index (filtered_rule_count low s)\<rparr>\<rparr>))\<lparr>as_focus := Content\<rparr>
     else s)"

definition select_connection :: "(string \<Rightarrow> string) \<Rightarrow> nat \<Rightarrow> AppState \<Rightarrow> AppState" where
  "select_connection low index s =
    (keep_selection_visible low ConnectionList (s\<lparr>as_connections := (as_connections s)\<lparr>cn_selected :=
       clamp_index index (connection_record_count s)\<rparr>\<rparr>))\<lparr>as_focus := Content\<rparr>"

definition select_log :: "(string \<Rightarrow> string) \<Rightarrow> nat \<Rightarrow> AppState \<Rightarrow> AppState" where
  "select_log low tail_offset s =
    (let filtered_count = filtered_log_count low s
     in if as_page s = Logs \<and> as_modal s = None \<and> tail_offset < filtered_count
        then s\<lparr>as_logs := (as_logs s)\<lparr>
                 lg_viewport_start := visible_log_start (as_logs s) filtered_count (visible_row_count s),
                 lg_follow := False, lg_scroll := tail_offset\<rparr>, as_focus := Content\<rparr>
        else s)"

definition set_log_level :: "LogLevelFilter \<Rightarrow> AppState \<Rightarrow> AppState" where
  "set_log_level level s =
    s\<lparr>as_logs := (as_logs s)\<lparr>lg_level_filter := level, lg_scroll := 0, lg_viewport_start := 0\<rparr>\<rparr>"

definition toggle_log_pause :: reducer where
  "toggle_log_pause s =
    (if lg_paused (as_logs s)
     then ([FetchLogTail (cx_generation (as_connection s)) (lg_paused_anchor (as_logs s))],
           s\<lparr>as_logs := (as_logs s)\<lparr>lg_paused := False, lg_follow := True, lg_scroll := 0,
              lg_viewport_start := 0, lg_paused_anchor := None\<rparr>\<rparr>)
     else ([], s\<lparr>as_logs := (as_logs s)\<lparr>lg_paused := True, lg_follow := False,
              lg_paused_anchor := map_option vl_sequence (vec_get (rev (lg_records (as_logs s))) 0)\<rparr>\<rparr>))"

definition toggle_zoom :: "AppState \<Rightarrow> AppState" where
  "toggle_zoom s =
    (if as_modal s = None \<and> as_page s = Proxies then s\<lparr>as_zoomed_focus := \<not> as_zoomed_focus s\<rparr> else s)"

definition close_modal :: "AppState \<Rightarrow> AppState" where
  "close_modal s = s\<lparr>as_modal := None, as_focus := Content\<rparr>"

definition toggle_help :: "AppState \<Rightarrow> AppState" where
  "toggle_help s =
    (if as_modal s = Some Help then close_modal s else s\<lparr>as_modal := Some Help, as_focus := ModalFocus\<rparr>)"

text \<open>\<open>activate_selected\<close> runs \<open>ToggleLogPause\<close> through \<open>apply_intent\<close>, which marks the frame dirty.\<close>

definition activate_selected :: "(string \<Rightarrow> string) \<Rightarrow> reducer" where
  "activate_selected low s =
    (if as_modal s = Some CommandPalette
     then (case vec_get (filtered_palette_actions low (as_palette s)) (cp_selected (as_palette s)) of
             None \<Rightarrow> ([], s) | Some action \<Rightarrow> run_palette_action low action s)
     else if as_modal s = Some ProfilesModal
     then (case vec_get (filtered_profiles low (as_profiles s)) (pv_selected (as_profiles s)) of
             None \<Rightarrow> ([], s) | Some row \<Rightarrow> issue_profile_activation (po_id row) s)
     else case as_page s of
       Proxies \<Rightarrow>
         if px_group_load_pending (as_proxies s) \<noteq> None then ([], s)
         else (case vec_get (px_rows (as_proxies s)) (px_selected (as_proxies s)) of
                 None \<Rightarrow> ([], s)
               | Some row \<Rightarrow> (case pr_node_id row of
                   None \<Rightarrow> ([], s)
                 | Some node_id \<Rightarrow> issue_node_selection (pr_group_id row) node_id s))
     | RulesPage \<Rightarrow> ([], if rules_projection_ready s then open_selected_rule_editor low s else s)
     | Connections \<Rightarrow> ([], s)
     | Logs \<Rightarrow> (let (commands, s) = toggle_log_pause s in (commands, s\<lparr>as_render_dirty := True\<rparr>)))"

fun intent_arm :: "(string \<Rightarrow> string) \<Rightarrow> UiIntent \<Rightarrow> reducer" where
  "intent_arm low (SwitchPage page) s = switch_page page s"
| "intent_arm low NextPage s = switch_page (page_next (as_page s)) s"
| "intent_arm low PreviousPage s = switch_page (page_previous (as_page s)) s"
| "intent_arm low FocusNext s = ([], move_focus 1 s)"
| "intent_arm low FocusPrevious s = ([], move_focus (- 1) s)"
| "intent_arm low FocusLeft s = ([], move_horizontal_focus (- 1) s)"
| "intent_arm low FocusRight s = ([], move_horizontal_focus 1 s)"
| "intent_arm low FocusSearch s = ([], if search_available s then s\<lparr>as_focus := Search\<rparr> else s)"
| "intent_arm low OpenCommandPalette s = ([], open_command_palette low s)"
| "intent_arm low OpenProfiles s = ([], open_profiles low s)"
| "intent_arm low (RunPaletteAction action) s = run_palette_action low action s"
| "intent_arm low ConfirmLifecycleAction s = confirm_lifecycle_action s"
| "intent_arm low LoadRules s = issue_rule_load s"
| "intent_arm low OpenRuleAdd s = ([], if rules_projection_ready s then open_rule_editor None s else s)"
| "intent_arm low OpenSelectedRuleEditor s =
    ([], if rules_projection_ready s then open_selected_rule_editor low s else s)"
| "intent_arm low RequestSelectedRuleRemoval s =
    ([], if rules_projection_ready s then request_selected_rule_removal low s else s)"
| "intent_arm low SubmitRuleEditor s = submit_rule_editor s"
| "intent_arm low ConfirmRuleRemoval s = confirm_rule_removal s"
| "intent_arm low (SelectRule index) s = ([], select_rule low index s)"
| "intent_arm low (SelectConnection index) s = ([], select_connection low index s)"
| "intent_arm low (SelectLog tail_offset) s = ([], select_log low tail_offset s)"
| "intent_arm low PreviousProxyGroup s = ([], move_proxy_group (- 1) s)"
| "intent_arm low NextProxyGroup s = ([], move_proxy_group 1 s)"
| "intent_arm low (ShowProxyGroup group_id) s = issue_proxy_group_load group_id s"
| "intent_arm low (InputCharacter character) s = ([], append_input low character s)"
| "intent_arm low Backspace s = ([], backspace_input low s)"
| "intent_arm low Escape s = ([], escape s)"
| "intent_arm low MoveUp s = ([], move_selection low (- 1) s)"
| "intent_arm low ScrollUp s = ([], move_selection low (- 1) s)"
| "intent_arm low MoveDown s = ([], move_selection low 1 s)"
| "intent_arm low ScrollDown s = ([], move_selection low 1 s)"
| "intent_arm low ActivateSelected s = activate_selected low s"
| "intent_arm low (ActivateProfile profile_id) s = issue_profile_activation profile_id s"
| "intent_arm low (SelectNode group_id node_id) s = issue_node_selection group_id node_id s"
| "intent_arm low (SetLogLevel level) s = ([], set_log_level level s)"
| "intent_arm low ToggleLogPause s = toggle_log_pause s"
| "intent_arm low FollowLogs s = ([], follow_logs s)"
| "intent_arm low ToggleZoom s = ([], toggle_zoom s)"
| "intent_arm low ToggleHelp s = ([], toggle_help s)"
| "intent_arm low CloseModal s = ([], close_modal s)"
| "intent_arm low Quit s = ([], s\<lparr>as_should_quit := True\<rparr>)"

definition apply_intent :: "(string \<Rightarrow> string) \<Rightarrow> UiIntent \<Rightarrow> reducer" where
  "apply_intent low intent s =
    (let (commands, s) = intent_arm low intent s in (commands, s\<lparr>as_render_dirty := True\<rparr>))"

section \<open>Events\<close>

definition status_requires_snapshot_refresh :: "StatusSnapshot \<Rightarrow> StatusSnapshot \<Rightarrow> bool" where
  "status_requires_snapshot_refresh previous next_status \<longleftrightarrow>
    st_active_profile previous \<noteq> st_active_profile next_status \<or>
    st_runtime_generation previous \<noteq> st_runtime_generation next_status \<or>
    co_instance_generation (st_core previous) \<noteq> co_instance_generation (st_core next_status) \<or>
    st_primary_proxy_group previous \<noteq> st_primary_proxy_group next_status \<or>
    st_selected_node previous \<noteq> st_selected_node next_status \<or>
    st_latency previous \<noteq> st_latency next_status"

definition rules_if_shown :: reducer where
  "rules_if_shown s = (if as_page s = RulesPage then ensure_rules_loaded s else ([], s))"

definition on_connected :: "(string \<Rightarrow> string) \<Rightarrow> u64 \<Rightarrow> FullViewSnapshot \<Rightarrow> reducer" where
  "on_connected low generation snapshot s =
    (if cx_generation (as_connection s) \<le> generation
     then rules_if_shown ((replace_snapshot low generation snapshot s)\<lparr>as_toast := Some ''Connected''\<rparr>)
     else ([], s))"

definition on_disconnected :: "u64 \<Rightarrow> reducer" where
  "on_disconnected generation s =
    (if generation = cx_generation (as_connection s)
     then let stop_pending = (case as_pending s of None \<Rightarrow> False | Some p \<Rightarrow> pe_kind p = OpStopSupervisor);
              (commands, s) = cancel_pending s;
              s = s\<lparr>as_connection := (as_connection s)\<lparr>cx_status := UiDisconnected,
                     cx_snapshot_stale := (as_status s \<noteq> None)\<rparr>, as_render_dirty := True\<rparr>
          in if stop_pending then (commands, s\<lparr>as_should_quit := True\<rparr>)
             else (commands @ [ScheduleReconnect generation], s)
     else ([], s))"

definition on_status :: "(string \<Rightarrow> string) \<Rightarrow> u64 \<Rightarrow> StatusSnapshot \<Rightarrow> reducer" where
  "on_status low generation status s =
    (if generation = cx_generation (as_connection s) \<and> cx_status (as_connection s) = UiConnected \<and>
        as_status s \<noteq> Some status
     then let runtime_changed = (case as_status s of None \<Rightarrow> False
                | Some previous \<Rightarrow> st_runtime_generation previous \<noteq> st_runtime_generation status);
              collection_changed = (case as_status s of None \<Rightarrow> False
                | Some previous \<Rightarrow> status_requires_snapshot_refresh previous status);
              (commands, s) = (if runtime_changed then invalidate_rule_cache s else ([], s));
              s = clamp_selections low (set_status_preserving_connection_selection status s);
              s = s\<lparr>as_status_revision := next_id (as_status_revision s)\<rparr>;
              s = (if collection_changed then bump_view_revision s else s)\<lparr>as_render_dirty := True\<rparr>;
              (reload, s) = (if runtime_changed then rules_if_shown s else ([], s))
          in (commands @ reload, s)
     else ([], s))"

definition on_snapshot_refreshed :: "(string \<Rightarrow> string) \<Rightarrow> u64 \<Rightarrow> u64 \<Rightarrow> u64 \<Rightarrow> FullViewSnapshot \<Rightarrow> reducer" where
  "on_snapshot_refreshed low generation base_view_revision base_status_revision snapshot s =
    (let previous = runtime_generation_of s;
         s = refresh_snapshot low generation base_view_revision base_status_revision snapshot s
     in if runtime_generation_of s \<noteq> previous
        then let (commands, s) = invalidate_rule_cache s;
                 (reload, s) = rules_if_shown s
             in (commands @ reload, s)
        else ([], s))"

definition on_snapshot_refresh_failed :: "u64 \<Rightarrow> u64 \<Rightarrow> reducer" where
  "on_snapshot_refresh_failed generation base_view_revision s =
    ([], if accepts_snapshot_refresh generation base_view_revision s
         then s\<lparr>as_connection := (as_connection s)\<lparr>cx_snapshot_stale := (as_status s \<noteq> None)\<rparr>,
                as_render_dirty := True\<rparr>
         else s)"

definition group_load_current :: "RequestId \<Rightarrow> u64 \<Rightarrow> AppState \<Rightarrow> bool" where
  "group_load_current request_id generation s =
    (case px_group_load_pending (as_proxies s) of None \<Rightarrow> False
     | Some pending \<Rightarrow> pl_request_id pending = request_id \<and> pl_connection_generation pending = generation \<and>
                       generation = cx_generation (as_connection s))"

definition on_proxy_group_loaded ::
  "(string \<Rightarrow> string) \<Rightarrow> RequestId \<Rightarrow> u64 \<Rightarrow> string + ProxyGroupSnapshot \<Rightarrow> reducer" where
  "on_proxy_group_loaded low request_id generation result s =
    (if group_load_current request_id generation s
     then let s = s\<lparr>as_proxies := (as_proxies s)\<lparr>px_group_load_pending := None\<rparr>\<rparr>;
              s = (case result of
                Inr snapshot \<Rightarrow>
                  let group_name = pg_name (gs_group snapshot);
                      groups = take MAX_ACTIVE_NODES (gs_groups snapshot);
                      s = s\<lparr>as_proxies := (as_proxies s)\<lparr>px_groups := groups,
                             px_rows := take MAX_ACTIVE_NODES (gs_proxies snapshot),
                             px_selected_group := Some group_name,
                             px_group_cursor := (case position (\<lambda>g. pg_name g = group_name) groups of
                                                   Some i \<Rightarrow> i | None \<Rightarrow> 0),
                             px_selected := 0, px_scroll := 0\<rparr>\<rparr>;
                      s = (if as_terminal_width s < 90 then s\<lparr>as_focus := Content\<rparr> else s)
                  in (bump_view_revision s)\<lparr>as_toast := Some (''Success: Loaded Proxy Group '' @ group_name)\<rparr>
              | Inl message \<Rightarrow> s\<lparr>as_toast := Some (''Error: '' @ message)\<rparr>)
          in ([], (clamp_selections low s)\<lparr>as_render_dirty := True\<rparr>)
     else ([], s))"

definition rule_load_current :: "RequestId \<Rightarrow> u64 \<Rightarrow> AppState \<Rightarrow> bool" where
  "rule_load_current request_id generation s =
    (case ru_load_pending (as_rules s) of None \<Rightarrow> False
     | Some pending \<Rightarrow> rl_request_id pending = request_id \<and> rl_connection_generation pending = generation \<and>
                       generation = cx_generation (as_connection s) \<and>
                       rl_runtime_generation pending = runtime_generation_of s)"

definition on_rules_loaded ::
  "(string \<Rightarrow> string) \<Rightarrow> RequestId \<Rightarrow> u64 \<Rightarrow> string + RuleListSnapshot \<Rightarrow> reducer" where
  "on_rules_loaded low request_id generation result s =
    (if rule_load_current request_id generation s
     then let s = (case result of
                Inr snapshot \<Rightarrow>
                  bump_view_revision (s\<lparr>as_rules := (as_rules s)\<lparr>ru_load_pending := None,
                    ru_rows := take LOCAL_RULE_COUNT_MAX (rq_rows snapshot),
                    ru_initialized := rq_initialized snapshot, ru_revision := rq_revision snapshot,
                    ru_loaded_connection_generation := Some generation,
                    ru_loaded_runtime_generation := runtime_generation_of s, ru_load_error := None,
                    ru_selected := 0, ru_scroll := 0\<rparr>\<rparr>)
              | Inl message \<Rightarrow>
                  s\<lparr>as_rules := (as_rules s)\<lparr>ru_load_pending := None, ru_loaded_connection_generation := None,
                      ru_loaded_runtime_generation := None, ru_load_error := Some message\<rparr>,
                    as_toast := Some (''Error: '' @ message)\<rparr>)
          in ([], (clamp_selections low s)\<lparr>as_render_dirty := True\<rparr>)
     else ([], s))"

definition on_log_batch :: "(string \<Rightarrow> string) \<Rightarrow> u64 \<Rightarrow> ViewLogRecord list \<Rightarrow> bool \<Rightarrow> u64 \<Rightarrow> reducer" where
  "on_log_batch low generation records gap dropped_total s =
    (if generation = cx_generation (as_connection s) \<and> \<not> lg_paused (as_logs s)
     then let pinned_sequence = selected_log_sequence low s;
              logs = fold push_view_log records (as_logs s);
              logs = logs\<lparr>lg_gap := (lg_gap logs \<or> gap), lg_dropped_total := max (lg_dropped_total logs) dropped_total\<rparr>;
              s = s\<lparr>as_logs := logs\<rparr>;
              s = (if lg_follow logs then s\<lparr>as_logs := logs\<lparr>lg_scroll := 0\<rparr>\<rparr>
                   else case pinned_sequence of
                     Some sequence \<Rightarrow> restore_log_selection low sequence s
                   | None \<Rightarrow> s\<lparr>as_logs := logs\<lparr>lg_scroll := clamp_index (lg_scroll logs) (filtered_log_count low s)\<rparr>\<rparr>)
          in ([], s\<lparr>as_render_dirty := True\<rparr>)
     else ([], s))"

definition mutation_current :: "RequestId \<Rightarrow> u64 \<Rightarrow> AppState \<Rightarrow> bool" where
  "mutation_current request_id generation s =
    (case as_pending s of None \<Rightarrow> False
     | Some pending \<Rightarrow> pe_request_id pending = request_id \<and> pe_connection_generation pending = generation \<and>
                       generation = cx_generation (as_connection s))"

definition clear_operation :: "PendingOperationKind option \<Rightarrow> AppState \<Rightarrow> AppState" where
  "clear_operation kind s =
    s\<lparr>as_profiles := (if kind = Some OpActivateProfile then (as_profiles s)\<lparr>pv_activation_pending := None\<rparr>
                      else as_profiles s),
      as_pending := None, as_proxies := (as_proxies s)\<lparr>px_selection_pending := None\<rparr>\<rparr>"

definition rule_operation :: "PendingOperationKind option \<Rightarrow> bool" where
  "rule_operation kind \<longleftrightarrow> kind = Some OpAddRule \<or> kind = Some OpReplaceRule \<or> kind = Some OpRemoveRule"

definition finish_mutation :: "PendingOperationKind option \<Rightarrow> string + MutationSuccess \<Rightarrow> AppState \<Rightarrow> AppState" where
  "finish_mutation kind result s =
    (let profile_operation = (kind = Some OpActivateProfile);
         lifecycle_operation = (kind = Some OpRestartSupervisor \<or> kind = Some OpStopSupervisor);
         s = (clear_operation kind s)\<lparr>as_render_dirty := True\<rparr>
     in case result of
       Inr success \<Rightarrow>
         let s = (if profile_operation \<or> rule_operation kind \<or> lifecycle_operation then close_modal s else s);
             s = (if lifecycle_operation
                  then s\<lparr>as_should_quit := (as_should_quit s \<or> kind = Some OpStopSupervisor)\<rparr> else s);
             s = s\<lparr>as_connection := (as_connection s)\<lparr>cx_snapshot_stale := (as_status s \<noteq> None)\<rparr>\<rparr>
         in (bump_view_revision s)\<lparr>as_toast := Some (''Success: '' @ ms_message success)\<rparr>
     | Inl message \<Rightarrow> s\<lparr>as_toast := Some (''Error: '' @ message)\<rparr>)"

definition on_command_result :: "RequestId \<Rightarrow> u64 \<Rightarrow> string + MutationSuccess \<Rightarrow> reducer" where
  "on_command_result request_id generation result s =
    (if mutation_current request_id generation s
     then let kind = map_option pe_kind (as_pending s);
              s = finish_mutation kind result s;
              (loads, s) = (if kind = Some OpActivateProfile then rules_if_shown s else ([], s))
          in if rule_operation kind
             then let (dropped, s) = invalidate_rule_cache s;
                      (reload, s) = rules_if_shown s
                  in (loads @ dropped @ reload, s)
             else (loads, s)
     else ([], s))"

definition on_reconnect_deadline :: "u64 \<Rightarrow> reducer" where
  "on_reconnect_deadline generation s =
    (if cx_status (as_connection s) = UiDisconnected \<and> generation = cx_generation (as_connection s)
     then ([Connect (generation + 1)],
           s\<lparr>as_connection := (as_connection s)\<lparr>cx_status := UiConnecting, cx_generation := generation + 1\<rparr>,
             as_render_dirty := True\<rparr>)
     else ([], s))"

definition on_resize :: "u16 \<Rightarrow> u16 \<Rightarrow> reducer" where
  "on_resize width height s =
    ([], (normalize_focus (s\<lparr>as_terminal_width := width, as_terminal_height := height\<rparr>))
           \<lparr>as_interaction_map := None, as_render_dirty := True\<rparr>)"

fun update :: "(string \<Rightarrow> string) \<Rightarrow> UiEvent \<Rightarrow> reducer" where
  "update low (Terminal input) s =
    (case input_to_intent low s input of None \<Rightarrow> ([], s) | Some intent \<Rightarrow> apply_intent low intent s)"
| "update low (IntentEvent intent) s = apply_intent low intent s"
| "update low (Connected generation snapshot) s = on_connected low generation snapshot s"
| "update low (DisconnectedEvent generation) s = on_disconnected generation s"
| "update low (StatusSnapshotEvent generation status) s = on_status low generation status s"
| "update low (SnapshotRefreshed generation view_revision status_revision snapshot) s =
    on_snapshot_refreshed low generation view_revision status_revision snapshot s"
| "update low (SnapshotRefreshFailed generation view_revision) s =
    on_snapshot_refresh_failed generation view_revision s"
| "update low (ProxyGroupLoaded request_id generation result) s =
    on_proxy_group_loaded low request_id generation result s"
| "update low (RulesLoaded request_id generation result) s = on_rules_loaded low request_id generation result s"
| "update low (LogBatch generation records gap dropped_total) s =
    on_log_batch low generation records gap dropped_total s"
| "update low (CommandResult request_id generation result) s = on_command_result request_id generation result s"
| "update low (ReconnectDeadline generation) s = on_reconnect_deadline generation s"
| "update low (Resize width height) s = on_resize width height s"
| "update low Shutdown s = ([], s\<lparr>as_should_quit := True, as_render_dirty := True\<rparr>)"

end
