(* ===== verification/Tui_Safety.thy ===== *)
theory Tui_Safety
  imports Tui_Reducer Machines
begin

text \<open>
  What the reducer guarantees over whole sessions.  The invariant \<open>tui_ok\<close> says that every
  selection points into the list it selects from, that the projections and text inputs stay
  within their limits and that the pending markers describe the pending operation; every
  event and every published frame keeps it.
\<close>

section \<open>The invariant\<close>

definition in_range :: "nat \<Rightarrow> nat \<Rightarrow> bool" where
  "in_range i n \<longleftrightarrow> i = 0 \<or> i < n"

definition view_bytes :: "ViewLogRecord list \<Rightarrow> nat" where
  "view_bytes rs = sum_list (map (length \<circ> vl_message) rs)"

text \<open>A search text: whole characters, within both limits.\<close>

definition search_ok :: "string \<Rightarrow> bool" where
  "search_ok q \<longleftrightarrow> utf8_valid q \<and> char_count q \<le> TUI_SEARCH_MAX_CHARACTERS \<and> length q \<le> TUI_SEARCH_MAX_BYTES"

definition logs_bounded :: "LogsState \<Rightarrow> bool" where
  "logs_bounded l \<longleftrightarrow> length (lg_records l) \<le> LOG_CAPACITY \<and> lg_retained_bytes l = view_bytes (lg_records l) \<and>
    lg_retained_bytes l \<le> LOG_RETENTION_MAX_BYTES"

definition logs_sized :: "LogsState \<Rightarrow> bool" where
  "logs_sized l \<longleftrightarrow> logs_bounded l \<and> search_ok (lg_search l)"

definition palette_ok :: "(string \<Rightarrow> string) \<Rightarrow> CommandPaletteState \<Rightarrow> bool" where
  "palette_ok low p \<longleftrightarrow> in_range (cp_selected p) (length (filtered_palette_actions low p)) \<and>
    search_ok (cp_query p)"

definition lists_sized :: "ProxiesState \<Rightarrow> ProfilesState \<Rightarrow> RulesState \<Rightarrow> bool" where
  "lists_sized px pv ru \<longleftrightarrow>
    length (px_groups px) \<le> MAX_ACTIVE_NODES \<and> length (px_rows px) \<le> MAX_ACTIVE_NODES \<and>
    length (pv_rows pv) \<le> PROFILE_VIEW_CAPACITY \<and> search_ok (pv_filter pv) \<and>
    length (ru_rows ru) \<le> LOCAL_RULE_COUNT_MAX \<and> search_ok (ru_filter ru)"

text \<open>The markers of a pending activation or selection belong to the pending operation, and only
  stopping the supervisor asks for confirmation.\<close>

definition pending_ok ::
  "PendingOperation option \<Rightarrow> ProfileId option \<Rightarrow> (ProxyGroupId \<times> NodeRecordId) option \<Rightarrow> bool" where
  "pending_ok pending activation selection \<longleftrightarrow>
    (activation \<noteq> None \<longrightarrow> map_option pe_kind pending = Some OpActivateProfile) \<and>
    (selection \<noteq> None \<longrightarrow> map_option pe_kind pending = Some OpSelectNode)"

definition modal_ok :: "Modal option \<Rightarrow> bool" where
  "modal_ok modal \<longleftrightarrow> (case modal of Some (LifecycleConfirmation action) \<Rightarrow> action = PaletteStopSupervisor | _ \<Rightarrow> True)"

definition tui_sized :: "(string \<Rightarrow> string) \<Rightarrow> AppState \<Rightarrow> bool" where
  "tui_sized low s \<longleftrightarrow> lists_sized (as_proxies s) (as_profiles s) (as_rules s) \<and> logs_sized (as_logs s) \<and>
    palette_ok low (as_palette s) \<and> modal_ok (as_modal s) \<and>
    pending_ok (as_pending s) (pv_activation_pending (as_profiles s)) (px_selection_pending (as_proxies s))"

definition proxies_clamped :: "ProxiesState \<Rightarrow> bool" where
  "proxies_clamped px \<longleftrightarrow> in_range (px_group_cursor px) (length (px_groups px)) \<and>
    in_range (px_selected px) (length (px_rows px))"

definition logs_clamped :: "(string \<Rightarrow> string) \<Rightarrow> LogsState \<Rightarrow> bool" where
  "logs_clamped low l \<longleftrightarrow> in_range (lg_scroll l) (length (filtered_log_indices low l)) \<and>
    (lg_follow l \<longrightarrow> lg_scroll l = 0)"

definition connections_clamped :: "ConnectionsState \<Rightarrow> nat \<Rightarrow> bool" where
  "connections_clamped cn n \<longleftrightarrow> in_range (cn_selected cn) n \<and> cn_scroll cn \<le> cn_selected cn"

definition tui_clamped :: "(string \<Rightarrow> string) \<Rightarrow> AppState \<Rightarrow> bool" where
  "tui_clamped low s \<longleftrightarrow> proxies_clamped (as_proxies s) \<and>
    in_range (pv_selected (as_profiles s)) (length (filtered_profiles low (as_profiles s))) \<and>
    in_range (ru_selected (as_rules s)) (length (filtered_rules low (as_rules s))) \<and>
    logs_clamped low (as_logs s) \<and> connections_clamped (as_connections s) (connection_record_count s)"

definition tui_ok :: "(string \<Rightarrow> string) \<Rightarrow> AppState \<Rightarrow> bool" where
  "tui_ok low s \<longleftrightarrow> tui_sized low s \<and> tui_clamped low s"

text \<open>The intent a terminal or direct event stands for.\<close>

fun event_intent :: "(string \<Rightarrow> string) \<Rightarrow> AppState \<Rightarrow> UiEvent \<Rightarrow> UiIntent option" where
  "event_intent low s (Terminal input) = input_to_intent low s input"
| "event_intent low s (IntentEvent intent) = Some intent"
| "event_intent low s _ = None"

text \<open>A \<open>char\<close> of Rust is one Unicode scalar value; events that type any other text do not exist and
  are skipped in a session.\<close>

fun intent_typed :: "UiIntent \<Rightarrow> bool" where
  "intent_typed (InputCharacter c) = valid_scalar c"
| "intent_typed _ = True"

definition event_typed :: "(string \<Rightarrow> string) \<Rightarrow> AppState \<Rightarrow> UiEvent \<Rightarrow> bool" where
  "event_typed low s event \<longleftrightarrow> (case event_intent low s event of None \<Rightarrow> True | Some intent \<Rightarrow> intent_typed intent)"

datatype TuiStep = EventStep UiEvent | FrameStep InteractionMap

fun tui_step :: "(string \<Rightarrow> string) \<Rightarrow> TuiStep \<Rightarrow> AppState \<Rightarrow> AppState" where
  "tui_step low (EventStep event) s = (if event_typed low s event then snd (update low event s) else s)"
| "tui_step low (FrameStep im) s = publish_interaction_map im s"


lemma in_range_zero [simp]: "in_range 0 n"
  by (simp add: in_range_def)

lemma in_range_clamp [simp]: "in_range (clamp_index i n) n"
  by (auto simp: in_range_def clamp_index_def)

lemma in_range_moved [simp]: "in_range i n \<Longrightarrow> in_range (moved_index i n d) n"
  by (auto simp: in_range_def moved_index_def)

lemma in_range_position [simp]: "in_range (case position P xs of Some i \<Rightarrow> i | None \<Rightarrow> 0) (length xs)"
  by (auto simp: in_range_def dest: position_bound split: option.split)

lemma window_below_selected: "visible_window_start current selected visible n \<le> selected"
  by (auto simp: visible_window_start_def Let_def usize_add_def)

lemma length_pop_char: "length (pop_char s) \<le> length s"
proof -
  have "length (concat (butlast cs)) \<le> length (concat cs)" for cs :: "string list"
    by (induction cs) auto
  from this [of "utf8_chars s"] show ?thesis by (simp add: pop_char_def)
qed

lemma usize_add_bound: "usize_add a b \<le> n \<Longrightarrow> n < usize_max \<Longrightarrow> a + b \<le> n"
  by (auto simp: usize_add_def min_def split: if_splits)

lemma usize_add_unsaturated: "usize_add a b \<le> n \<Longrightarrow> n < usize_max \<Longrightarrow> usize_add a b = a + b"
  by (auto simp: usize_add_def min_def split: if_splits)

lemma limits_small:
  "LOG_RETENTION_MAX_BYTES < usize_max" "TUI_SEARCH_MAX_BYTES < usize_max" "RULE_STRING_MAX_BYTES < usize_max"
  by (simp_all add: LOG_RETENTION_MAX_BYTES_def TUI_SEARCH_MAX_BYTES_def RULE_STRING_MAX_BYTES_def usize_max_def)

lemma search_ok_Nil [simp]: "search_ok []"
  by (simp add: search_ok_def char_count_def)

lemma search_room:
  assumes "search_ok search" "search_has_room search c" "valid_scalar c"
  shows "search_ok (search @ c)"
proof -
  define cs where "cs = utf8_chars search"
  have valid: "valid_scalar x" if "x \<in> set (cs @ [c])" for x
    using that assms(1,3) by (auto simp: search_ok_def cs_def dest: utf8_valid_scalar)
  have "search @ c = concat (cs @ [c])" by (simp add: cs_def)
  moreover have "utf8_chars (concat (cs @ [c])) = cs @ [c]" using valid by (rule utf8_chars_concat)
  moreover have "length (search @ c) \<le> TUI_SEARCH_MAX_BYTES"
    using assms(2) usize_add_bound [OF _ limits_small(2)] by (simp add: search_has_room_def)
  ultimately show ?thesis
    using assms(2) valid by (simp only: search_ok_def utf8_valid_def char_count_def search_has_room_def)
      (simp add: list_all_iff cs_def)
qed

lemma search_ok_pop:
  assumes "search_ok q"
  shows "search_ok (pop_char q)"
proof -
  have valid: "valid_scalar x" if "x \<in> set (butlast (utf8_chars q))" for x
    using that assms by (auto simp: search_ok_def dest: in_set_butlastD utf8_valid_scalar)
  then have "utf8_chars (pop_char q) = butlast (utf8_chars q)" by (simp add: pop_char_def utf8_chars_concat)
  then show ?thesis
    using assms valid length_pop_char [of q] by (auto simp: search_ok_def utf8_valid_def char_count_def list_all_iff)
qed

subsection \<open>The log projection\<close>

declare evict_view_logs.simps [simp del]

lemma evict_view_logs_keeps:
  assumes start: "Q l"
    and evict: "\<And>l e rest. Q l \<Longrightarrow> lg_records l = e # rest \<Longrightarrow>
      Q (l\<lparr>lg_records := rest, lg_retained_bytes := lg_retained_bytes l - length (vl_message e),
           lg_evicted_total := saturating_add (lg_evicted_total l) 1\<rparr>)"
  shows "Q (evict_view_logs len l)"
  using start
proof (induction len l rule: evict_view_logs.induct)
  case (1 len l)
  show ?case
    by (subst evict_view_logs.simps) (use 1 evict in \<open>auto split: list.split\<close>)
qed

lemma evict_view_logs_room:
  "lg_records (evict_view_logs len l) = [] \<or>
   length (lg_records (evict_view_logs len l)) \<noteq> LOG_CAPACITY"
proof (induction len l rule: evict_view_logs.induct)
  case (1 len l)
  show ?case
    by (subst (1 2) evict_view_logs.simps) (use 1 in \<open>auto split: list.split\<close>)
qed

lemma evict_view_logs_bounded: "logs_bounded l \<Longrightarrow> logs_bounded (evict_view_logs len l)"
  by (rule evict_view_logs_keeps) (auto simp: logs_bounded_def view_bytes_def)

lemma push_view_log_bounded:
  assumes "logs_bounded l"
  shows "logs_bounded (push_view_log r l)"
proof -
  let ?n = "length (vl_message r)"
  let ?l = "evict_view_logs ?n l"
  have sized: "logs_bounded ?l" using assms by (rule evict_view_logs_bounded)
  show ?thesis
  proof (cases "usize_add (lg_retained_bytes ?l) ?n > LOG_RETENTION_MAX_BYTES")
    case True
    with sized show ?thesis by (simp add: push_view_log_def Let_def logs_bounded_def)
  next
    case False
    then have "usize_add (lg_retained_bytes ?l) ?n = lg_retained_bytes ?l + ?n"
      by (intro usize_add_unsaturated [OF _ limits_small(1)]) simp
    moreover have "length (lg_records ?l) < LOG_CAPACITY"
      using evict_view_logs_room [of ?n l] sized by (auto simp: logs_bounded_def LOG_CAPACITY_def)
    ultimately show ?thesis
      using False sized by (simp add: push_view_log_def Let_def logs_bounded_def view_bytes_def)
  qed
qed

text \<open>Pushing records changes none of the fields the reader controls.\<close>

definition logs_view :: "LogsState \<Rightarrow> LogsState" where
  "logs_view l = l\<lparr>lg_records := [], lg_retained_bytes := 0, lg_evicted_total := 0, lg_gap := False\<rparr>"

lemma push_view_log_view: "logs_view (push_view_log r l) = logs_view l"
proof -
  have "logs_view (evict_view_logs n l) = logs_view l" for n
    by (rule evict_view_logs_keeps) (auto simp: logs_view_def)
  then show ?thesis by (simp add: push_view_log_def Let_def) (simp add: logs_view_def)
qed

lemma push_all_bounded: "logs_bounded l \<Longrightarrow> logs_bounded (fold push_view_log rs l)"
  by (induction rs arbitrary: l) (auto intro: push_view_log_bounded)

lemma push_all_view: "logs_view (fold push_view_log rs l) = logs_view l"
  by (induction rs arbitrary: l) (auto simp: push_view_log_view)

lemma push_all_sized: "logs_sized l \<Longrightarrow> logs_sized (fold push_view_log rs l)"
  using arg_cong [OF push_all_view, of lg_search rs l] push_all_bounded [of l rs] by (simp add: logs_view_def logs_sized_def)

lemma push_all_follow [simp]: "lg_follow (fold push_view_log rs l) = lg_follow l"
  using arg_cong [OF push_all_view, of lg_follow rs l] by (simp add: logs_view_def)

subsection \<open>Fields the filters do not read\<close>

lemma filtered_profiles_frame [simp]:
  "filtered_profiles low (p\<lparr>pv_selected := i\<rparr>) = filtered_profiles low p"
  "filtered_profiles low (p\<lparr>pv_scroll := i\<rparr>) = filtered_profiles low p"
  "filtered_profiles low (p\<lparr>pv_activation_pending := a\<rparr>) = filtered_profiles low p"
  by (simp_all add: filtered_profiles_def)

lemma filtered_rules_frame [simp]:
  "filtered_rules low (r\<lparr>ru_selected := i\<rparr>) = filtered_rules low r"
  "filtered_rules low (r\<lparr>ru_scroll := i\<rparr>) = filtered_rules low r"
  "filtered_rules low (r\<lparr>ru_load_pending := p\<rparr>) = filtered_rules low r"
  "filtered_rules low (r\<lparr>ru_load_error := e\<rparr>) = filtered_rules low r"
  "filtered_rules low (r\<lparr>ru_loaded_connection_generation := g\<rparr>) = filtered_rules low r"
  "filtered_rules low (r\<lparr>ru_loaded_runtime_generation := h\<rparr>) = filtered_rules low r"
  by (simp_all add: filtered_rules_def filtered_rule_indices_def)

lemma log_matches_frame [simp]:
  "log_matches low (l\<lparr>lg_scroll := i\<rparr>) = log_matches low l"
  "log_matches low (l\<lparr>lg_viewport_start := i\<rparr>) = log_matches low l"
  "log_matches low (l\<lparr>lg_follow := b\<rparr>) = log_matches low l"
  "log_matches low (l\<lparr>lg_paused := b\<rparr>) = log_matches low l"
  "log_matches low (l\<lparr>lg_paused_anchor := a\<rparr>) = log_matches low l"
  "log_matches low (l\<lparr>lg_gap := b\<rparr>) = log_matches low l"
  "log_matches low (l\<lparr>lg_dropped_total := n\<rparr>) = log_matches low l"
  by (simp_all add: log_matches_def fun_eq_iff)

lemma filtered_log_indices_frame [simp]:
  "filtered_log_indices low (l\<lparr>lg_scroll := i\<rparr>) = filtered_log_indices low l"
  "filtered_log_indices low (l\<lparr>lg_viewport_start := i\<rparr>) = filtered_log_indices low l"
  "filtered_log_indices low (l\<lparr>lg_follow := b\<rparr>) = filtered_log_indices low l"
  "filtered_log_indices low (l\<lparr>lg_paused := b\<rparr>) = filtered_log_indices low l"
  "filtered_log_indices low (l\<lparr>lg_paused_anchor := a\<rparr>) = filtered_log_indices low l"
  "filtered_log_indices low (l\<lparr>lg_gap := b\<rparr>) = filtered_log_indices low l"
  "filtered_log_indices low (l\<lparr>lg_dropped_total := n\<rparr>) = filtered_log_indices low l"
  by (simp_all add: filtered_log_indices_def)

lemma palette_frame [simp]:
  "filtered_palette_actions low (p\<lparr>cp_selected := i\<rparr>) = filtered_palette_actions low p"
  by (simp add: filtered_palette_actions_def)

lemmas tui_frame = tui_ok_def tui_sized_def tui_clamped_def connection_record_count_def

lemmas tui_counts = filtered_profile_count_def filtered_rule_count_def filtered_log_count_def

lemmas tui_parts = tui_frame tui_counts lists_sized_def logs_sized_def logs_bounded_def palette_ok_def proxies_clamped_def
  logs_clamped_def connections_clamped_def pending_ok_def modal_ok_def

subsection \<open>Operations keep the invariant\<close>

lemma clamp_selections_ok: "tui_sized low s \<Longrightarrow> tui_ok low (clamp_selections low s)"
  by (simp add: clamp_selections_def Let_def tui_parts)

lemma cancel_mutation_ok: "tui_ok low s \<Longrightarrow> tui_ok low (snd (cancel_mutation s))"
  by (auto simp: cancel_mutation_def tui_parts split: option.split)

lemma cancel_group_load_ok: "tui_ok low s \<Longrightarrow> tui_ok low (snd (cancel_group_load s))"
  by (auto simp: cancel_group_load_def tui_parts split: option.split)

lemma cancel_rule_load_ok: "tui_ok low s \<Longrightarrow> tui_ok low (snd (cancel_rule_load s))"
  by (auto simp: cancel_rule_load_def tui_parts split: option.split)

lemma cancel_pending_ok: "tui_ok low s \<Longrightarrow> tui_ok low (snd (cancel_pending s))"
  using cancel_rule_load_ok [OF cancel_group_load_ok [OF cancel_mutation_ok]]
  by (simp add: cancel_pending_def split_def Let_def)

lemma take_request_id_ok [simp]: "tui_ok low (snd (take_request_id s)) = tui_ok low s"
  by (simp add: take_request_id_def tui_frame)

lemma bump_view_revision_ok [simp]: "tui_ok low (bump_view_revision s) = tui_ok low s"
  by (simp add: bump_view_revision_def tui_frame)

text \<open>After \<open>cancel_pending\<close> nothing is outstanding.\<close>

lemma cancel_pending_clears:
  assumes "tui_ok low s"
  shows "as_pending (snd (cancel_pending s)) = None"
    and "px_group_load_pending (as_proxies (snd (cancel_pending s))) = None"
    and "ru_load_pending (as_rules (snd (cancel_pending s))) = None"
    and "pv_activation_pending (as_profiles (snd (cancel_pending s))) = None"
    and "px_selection_pending (as_proxies (snd (cancel_pending s))) = None"
  using assms
  by (auto simp: cancel_pending_def cancel_mutation_def cancel_group_load_def cancel_rule_load_def Let_def
      tui_parts split: option.split)

lemma start_operation_ok:
  assumes "tui_ok low s" "as_pending s = None" "pv_activation_pending (as_profiles s) = None"
    "px_selection_pending (as_proxies s) = None"
  shows "tui_ok low (s\<lparr>as_pending := Some p\<rparr>)"
  using assms by (simp add: tui_parts)

text \<open>The state every new operation starts from: a fresh request id taken, everything cancelled.\<close>

lemma fresh_start:
  assumes "tui_ok low s"
  defines "t \<equiv> snd (cancel_pending (snd (take_request_id s)))"
  shows "tui_ok low t" "as_pending t = None" "pv_activation_pending (as_profiles t) = None"
    "px_selection_pending (as_proxies t) = None"
  using cancel_pending_ok [of low "snd (take_request_id s)"] cancel_pending_clears [of low "snd (take_request_id s)"] assms
  by simp_all

lemma issue_profile_activation_ok: "tui_ok low s \<Longrightarrow> tui_ok low (snd (issue_profile_activation i s))"
  using fresh_start [of low s]
  by (simp add: issue_profile_activation_def split_def Let_def) (simp add: tui_parts)

lemma issue_node_selection_ok: "tui_ok low s \<Longrightarrow> tui_ok low (snd (issue_node_selection g n s))"
  using fresh_start [of low s]
  by (simp add: issue_node_selection_def split_def Let_def split: option.split) (simp add: tui_parts)

lemma issue_lifecycle_action_ok: "tui_ok low s \<Longrightarrow> tui_ok low (snd (issue_lifecycle_action a s))"
  using fresh_start [of low s] start_operation_ok
  by (simp add: issue_lifecycle_action_def split_def Let_def split: CommandPaletteAction.split)

lemma submit_rule_editor_ok: "tui_ok low s \<Longrightarrow> tui_ok low (snd (submit_rule_editor s))"
  using fresh_start [of low s] start_operation_ok
  by (auto simp: submit_rule_editor_def split_def Let_def split: option.split Modal.split) (simp_all add: tui_frame)

lemma confirm_rule_removal_ok: "tui_ok low s \<Longrightarrow> tui_ok low (snd (confirm_rule_removal s))"
  using fresh_start [of low s] start_operation_ok
  by (auto simp: confirm_rule_removal_def split_def Let_def split: option.split Modal.split)

lemma confirm_lifecycle_action_ok: "tui_ok low s \<Longrightarrow> tui_ok low (snd (confirm_lifecycle_action s))"
  by (auto simp: confirm_lifecycle_action_def issue_lifecycle_action_ok split: option.split Modal.split)

lemma issue_rule_load_ok: "tui_ok low s \<Longrightarrow> tui_ok low (snd (issue_rule_load s))"
  using cancel_rule_load_ok [of low "snd (take_request_id s)"]
  by (simp add: issue_rule_load_def split_def Let_def) (simp add: tui_parts)

lemma ensure_rules_loaded_ok: "tui_ok low s \<Longrightarrow> tui_ok low (snd (ensure_rules_loaded s))"
  by (simp add: ensure_rules_loaded_def Let_def issue_rule_load_ok)

lemma rules_if_shown_ok: "tui_ok low s \<Longrightarrow> tui_ok low (snd (rules_if_shown s))"
  by (simp add: rules_if_shown_def ensure_rules_loaded_ok)

lemma invalidate_rule_cache_ok: "tui_ok low s \<Longrightarrow> tui_ok low (snd (invalidate_rule_cache s))"
  using cancel_rule_load_ok [of low s]
  by (simp add: invalidate_rule_cache_def split_def Let_def) (simp add: tui_parts)

lemma issue_proxy_group_load_ok:
  assumes "tui_ok low s"
  shows "tui_ok low (snd (issue_proxy_group_load g s))"
proof (cases "position (\<lambda>r. pg_id r = g) (px_groups (as_proxies s))")
  case None
  with assms show ?thesis by (simp add: issue_proxy_group_load_def)
next
  case (Some i)
  let ?s = "s\<lparr>as_proxies := (as_proxies s)\<lparr>px_group_cursor := i\<rparr>\<rparr>"
  have "in_range i (length (px_groups (as_proxies s)))"
    using position_bound [OF Some] by (simp add: in_range_def)
  with assms have moved: "tui_ok low ?s" by (simp add: tui_parts)
  then have "tui_ok low (?s\<lparr>as_focus := Content\<rparr>)" by (simp add: tui_frame)
  moreover have "tui_ok low (snd (cancel_group_load (snd (take_request_id ?s))))"
    using moved by (intro cancel_group_load_ok) simp
  then have "tui_ok low (t\<lparr>as_proxies := (as_proxies t)\<lparr>px_group_load_pending := p\<rparr>\<rparr>)"
    if "t = snd (cancel_group_load (snd (take_request_id ?s)))" for t p
    using that by (simp add: tui_parts)
  ultimately show ?thesis
    using Some moved by (simp add: issue_proxy_group_load_def split_def Let_def)
qed

lemma switch_page_ok: "tui_ok low s \<Longrightarrow> tui_ok low (snd (switch_page p s))"
proof -
  assume "tui_ok low s"
  then have "tui_ok low (s\<lparr>as_page := p, as_modal := None, as_zoomed_focus := False, as_focus := Content\<rparr>)"
    by (simp add: tui_parts)
  then show ?thesis by (auto simp: switch_page_def Let_def intro: ensure_rules_loaded_ok)
qed

lemma focus_ok [simp]: "tui_ok low (s\<lparr>as_focus := f\<rparr>) = tui_ok low s"
  by (simp add: tui_frame)

lemma dirty_ok [simp]: "tui_ok low (s\<lparr>as_render_dirty := b\<rparr>) = tui_ok low s"
  by (simp add: tui_frame)

lemma modal_change_ok: "tui_ok low s \<Longrightarrow> modal_ok m \<Longrightarrow> tui_ok low (s\<lparr>as_modal := m\<rparr>)"
  by (simp add: tui_frame)

lemma move_focus_ok: "tui_ok low s \<Longrightarrow> tui_ok low (move_focus d s)"
  by (simp add: move_focus_def Let_def)

lemma move_horizontal_focus_ok: "tui_ok low s \<Longrightarrow> tui_ok low (move_horizontal_focus d s)"
  by (simp add: move_horizontal_focus_def)

lemma follow_logs_ok: "tui_ok low s \<Longrightarrow> tui_ok low (follow_logs s)"
  by (simp add: follow_logs_def tui_parts)

lemma close_modal_ok: "tui_ok low s \<Longrightarrow> tui_ok low (close_modal s)"
  by (simp add: close_modal_def tui_frame modal_ok_def)

lemma escape_ok: "tui_ok low s \<Longrightarrow> tui_ok low (escape s)"
  using close_modal_ok [of low s] follow_logs_ok [of low s]
  by (simp add: escape_def close_modal_def) (simp add: tui_frame)

lemma set_palette_query_ok:
  "tui_ok low s \<Longrightarrow> search_ok q \<Longrightarrow> tui_ok low (set_palette_query low q s)"
  by (simp add: set_palette_query_def Let_def tui_parts)

lemma set_current_search_sized:
  "tui_ok low s \<Longrightarrow> search_ok q \<Longrightarrow> tui_sized low (set_current_search q s)"
  by (simp add: set_current_search_def tui_parts split: Page.split)

lemma current_search_bound: "tui_ok low s \<Longrightarrow> current_search s = Some q \<Longrightarrow> search_ok q"
  by (auto simp: current_search_def tui_parts split: Page.splits if_splits)

lemma append_input_ok:
  assumes "tui_ok low s" "valid_scalar c"
  shows "tui_ok low (append_input low c s)"
proof -
  have search: "tui_ok low (clamp_selections low (set_current_search (q @ c) s))"
    if "search_has_room q c" "current_search s = Some q" for q
    using assms search_room [OF current_search_bound [OF assms(1) that(2)] that(1) assms(2)]
    by (intro clamp_selections_ok set_current_search_sized)
  have "search_ok (cp_query (as_palette s))" using assms(1) by (simp add: tui_parts)
  then have palette: "tui_ok low (set_palette_query low (cp_query (as_palette s) @ c) s)"
    if "search_has_room (cp_query (as_palette s)) c"
    using assms search_room that by (intro set_palette_query_ok)
  have editor: "tui_ok low (s\<lparr>as_modal := Some (RuleEditor a b)\<rparr>)" for a b
    using assms(1) by (intro modal_change_ok) (simp_all add: modal_ok_def)
  show ?thesis
    using assms(1) search palette editor by (simp add: append_input_def split: option.split Modal.split)
qed

lemma backspace_input_ok:
  assumes "tui_ok low s"
  shows "tui_ok low (backspace_input low s)"
proof -
  have "search_ok (cp_query (as_palette s))" using assms by (simp add: tui_parts)
  moreover have "tui_ok low (s\<lparr>as_modal := Some (RuleEditor a b)\<rparr>)" for a b
    using assms by (intro modal_change_ok) (simp_all add: modal_ok_def)
  moreover have "tui_sized low s" using assms by (simp add: tui_ok_def)
  ultimately show ?thesis
    using assms current_search_bound [OF assms]
    by (auto simp: backspace_input_def split: option.split Modal.split
        intro!: clamp_selections_ok set_current_search_sized set_palette_query_ok search_ok_pop)
qed

lemma keep_selection_visible_ok: "tui_ok low s \<Longrightarrow> tui_ok low (keep_selection_visible low sel s)"
  by (cases sel) (simp_all add: keep_selection_visible_def Let_def tui_parts window_below_selected)

text \<open>Moving the connection cursor may leave the scroll position behind it, which
  \<open>keep_selection_visible\<close> then repairs.\<close>

lemma connection_cursor_ok:
  assumes "tui_ok low s" "in_range i (connection_record_count s)"
  shows "tui_ok low (keep_selection_visible low ConnectionList
    (s\<lparr>as_connections := (as_connections s)\<lparr>cn_selected := i\<rparr>\<rparr>))"
  using assms by (simp add: keep_selection_visible_def Let_def tui_parts window_below_selected)

lemma move_log_selection_form:
  "\<exists>v. move_log_selection low d s =
    (if filtered_log_count low s > 0
     then s\<lparr>as_logs := (as_logs s)\<lparr>lg_follow := False,
            lg_scroll := (if d < 0 then min (usize_add (lg_scroll (as_logs s)) 1) (filtered_log_count low s - 1)
                          else lg_scroll (as_logs s) - 1), lg_viewport_start := v\<rparr>\<rparr>
     else s)"
  unfolding move_log_selection_def Let_def by (intro exI) (rule refl)

lemma move_log_selection_ok:
  assumes "tui_ok low s"
  shows "tui_ok low (move_log_selection low d s)"
proof -
  let ?k = "lg_scroll (as_logs s)" and ?n = "length (filtered_log_indices low (as_logs s))"
  have "in_range ?k ?n" using assms by (simp add: tui_parts)
  then have moved: "in_range (min (usize_add ?k 1) (?n - Suc 0)) ?n" "in_range (?k - Suc 0) ?n"
    by (auto simp: in_range_def)
  obtain v where "move_log_selection low d s =
    (if filtered_log_count low s > 0
     then s\<lparr>as_logs := (as_logs s)\<lparr>lg_follow := False,
            lg_scroll := (if d < 0 then min (usize_add ?k 1) (filtered_log_count low s - 1)
                          else ?k - 1), lg_viewport_start := v\<rparr>\<rparr>
     else s)"
    using move_log_selection_form by blast
  with assms moved show ?thesis
    by (cases "filtered_log_count low s > 0") (simp, simp add: tui_parts, simp)
qed

lemma move_selection_ok:
  assumes "tui_ok low s"
  shows "tui_ok low (move_selection low d s)"
proof -
  have palette: "tui_ok low (s\<lparr>as_palette := (as_palette s)\<lparr>cp_selected := moved_index (cp_selected (as_palette s))
              (length (filtered_palette_actions low (as_palette s))) d\<rparr>\<rparr>)"
    using assms by (simp add: tui_parts)
  have profiles: "tui_ok low (s\<lparr>as_profiles := (as_profiles s)\<lparr>pv_selected :=
            moved_index (pv_selected (as_profiles s)) (filtered_profile_count low s) d\<rparr>\<rparr>)"
    using assms by (simp add: tui_parts)
  have proxies: "tui_ok low (s\<lparr>as_proxies := (as_proxies s)\<lparr>px_selected :=
            moved_index (px_selected (as_proxies s)) (length (px_rows (as_proxies s))) d\<rparr>\<rparr>)"
    using assms by (simp add: tui_parts)
  have rules: "tui_ok low (s\<lparr>as_rules := (as_rules s)\<lparr>ru_selected :=
                moved_index (ru_selected (as_rules s)) (filtered_rule_count low s) d\<rparr>\<rparr>)"
    using assms by (simp add: tui_parts)
  have connections: "in_range (moved_index (cn_selected (as_connections s)) (connection_record_count s) d)
      (connection_record_count s)"
    using assms by (simp add: tui_clamped_def tui_ok_def connections_clamped_def)
  show ?thesis
    unfolding move_selection_def
    by (simp add: assms palette keep_selection_visible_ok [OF profiles] keep_selection_visible_ok [OF proxies]
        keep_selection_visible_ok [OF rules] connection_cursor_ok [OF assms connections]
        move_log_selection_ok [OF assms] split: Page.split)
qed

lemma select_rule_ok: "tui_ok low s \<Longrightarrow> tui_ok low (select_rule low i s)"
proof -
  assume "tui_ok low s"
  then have "tui_ok low (s\<lparr>as_rules := (as_rules s)\<lparr>ru_selected := clamp_index i (filtered_rule_count low s)\<rparr>\<rparr>)"
    by (simp add: tui_parts)
  with \<open>tui_ok low s\<close> show ?thesis by (simp add: select_rule_def keep_selection_visible_ok)
qed

lemma select_connection_ok: "tui_ok low s \<Longrightarrow> tui_ok low (select_connection low i s)"
  by (simp add: select_connection_def connection_cursor_ok)

lemma select_log_ok: "tui_ok low s \<Longrightarrow> tui_ok low (select_log low i s)"
  by (simp add: select_log_def Let_def) (simp add: tui_parts in_range_def)

lemma set_log_level_ok: "tui_ok low s \<Longrightarrow> tui_ok low (set_log_level level s)"
  by (simp add: set_log_level_def tui_parts)

lemma toggle_log_pause_ok: "tui_ok low s \<Longrightarrow> tui_ok low (snd (toggle_log_pause s))"
  by (simp add: toggle_log_pause_def tui_parts)

lemma move_proxy_group_ok: "tui_ok low s \<Longrightarrow> tui_ok low (move_proxy_group d s)"
  by (simp add: move_proxy_group_def tui_parts)

lemma open_profiles_ok: "tui_ok low s \<Longrightarrow> tui_ok low (open_profiles low s)"
  by (simp add: open_profiles_def tui_parts)

lemma open_command_palette_ok: "tui_ok low s \<Longrightarrow> tui_ok low (open_command_palette low s)"
  by (simp add: open_command_palette_def tui_parts)

lemma run_palette_action_ok: "tui_ok low s \<Longrightarrow> tui_ok low (snd (run_palette_action low a s))"
  by (cases a) (simp_all add: run_palette_action_def open_profiles_ok issue_lifecycle_action_ok
      modal_change_ok modal_ok_def)

lemma open_rule_editor_ok: "tui_ok low s \<Longrightarrow> tui_ok low (open_rule_editor original s)"
  by (simp add: open_rule_editor_def modal_change_ok modal_ok_def)

lemma open_selected_rule_editor_ok: "tui_ok low s \<Longrightarrow> tui_ok low (open_selected_rule_editor low s)"
  by (simp add: open_selected_rule_editor_def open_rule_editor_ok split: option.split)

lemma request_selected_rule_removal_ok: "tui_ok low s \<Longrightarrow> tui_ok low (request_selected_rule_removal low s)"
  by (simp add: request_selected_rule_removal_def modal_change_ok modal_ok_def split: option.split)

lemma zoom_ok [simp]: "tui_ok low (s\<lparr>as_zoomed_focus := b\<rparr>) = tui_ok low s"
  by (simp add: tui_frame)

lemma toggle_zoom_ok: "tui_ok low s \<Longrightarrow> tui_ok low (toggle_zoom s)"
  by (simp add: toggle_zoom_def)

lemma toggle_help_ok: "tui_ok low s \<Longrightarrow> tui_ok low (toggle_help s)"
  by (simp add: toggle_help_def close_modal_ok modal_change_ok modal_ok_def)

lemma activate_selected_ok: "tui_ok low s \<Longrightarrow> tui_ok low (snd (activate_selected low s))"
  by (auto simp: activate_selected_def split_def Let_def run_palette_action_ok issue_profile_activation_ok
      issue_node_selection_ok open_selected_rule_editor_ok toggle_log_pause_ok split: option.split Page.split)

lemma quit_ok [simp]: "tui_ok low (s\<lparr>as_should_quit := b\<rparr>) = tui_ok low s"
  by (simp add: tui_frame)

lemmas intent_ok = switch_page_ok move_focus_ok move_horizontal_focus_ok open_command_palette_ok open_profiles_ok
  run_palette_action_ok confirm_lifecycle_action_ok issue_rule_load_ok open_rule_editor_ok
  open_selected_rule_editor_ok request_selected_rule_removal_ok submit_rule_editor_ok confirm_rule_removal_ok
  select_rule_ok select_connection_ok select_log_ok move_proxy_group_ok issue_proxy_group_load_ok append_input_ok
  backspace_input_ok escape_ok move_selection_ok activate_selected_ok issue_profile_activation_ok
  issue_node_selection_ok set_log_level_ok toggle_log_pause_ok follow_logs_ok toggle_zoom_ok toggle_help_ok
  close_modal_ok

lemma apply_intent_ok: "tui_ok low s \<Longrightarrow> intent_typed intent \<Longrightarrow> tui_ok low (snd (apply_intent low intent s))"
  by (cases intent) (simp_all add: apply_intent_def split_def Let_def intent_ok)

subsection \<open>Events keep the invariant\<close>

lemma set_status_sized:
  "tui_sized low s \<Longrightarrow> tui_sized low (set_status_preserving_connection_selection st s)"
  by (simp add: set_status_preserving_connection_selection_def Let_def tui_sized_def)

lemma replace_snapshot_ok:
  assumes "tui_ok low s"
  shows "tui_ok low (replace_snapshot low g snapshot s)"
proof -
  let ?l = "(as_logs s)\<lparr>lg_records := [], lg_retained_bytes := 0,
      lg_dropped_total := max (lg_dropped_total (as_logs s)) (fs_dropped_logs snapshot), lg_gap := False\<rparr>"
  have "logs_sized ?l" using assms by (simp add: tui_parts view_bytes_def)
  then have "logs_sized (fold push_view_log (fs_logs snapshot) ?l)" by (rule push_all_sized)
  with assms show ?thesis
    unfolding replace_snapshot_def Let_def dirty_ok bump_view_revision_def
    by (intro clamp_selections_ok) (simp add: tui_ok_def tui_sized_def lists_sized_def pending_ok_def)
qed

lemma refresh_collections_form:
  "\<exists>i j. refresh_collections low b ps gs fs s =
    s\<lparr>as_proxies := (as_proxies s)\<lparr>px_rows := (if b then ps else px_rows (as_proxies s)), px_groups := gs, px_selected := i\<rparr>,
      as_profiles := (as_profiles s)\<lparr>pv_rows := fs, pv_selected := j\<rparr>\<rparr>"
  unfolding refresh_collections_def Let_def by (intro exI) (rule refl)

lemma refresh_collections_sized:
  assumes "tui_sized low s"
  shows "tui_sized low (refresh_collections low b (take MAX_ACTIVE_NODES ps) (take MAX_ACTIVE_NODES gs)
    (take PROFILE_VIEW_CAPACITY fs) s)"
proof -
  obtain i j where "refresh_collections low b (take MAX_ACTIVE_NODES ps) (take MAX_ACTIVE_NODES gs)
      (take PROFILE_VIEW_CAPACITY fs) s =
    s\<lparr>as_proxies := (as_proxies s)\<lparr>px_rows := (if b then take MAX_ACTIVE_NODES ps else px_rows (as_proxies s)),
        px_groups := take MAX_ACTIVE_NODES gs, px_selected := i\<rparr>,
      as_profiles := (as_profiles s)\<lparr>pv_rows := take PROFILE_VIEW_CAPACITY fs, pv_selected := j\<rparr>\<rparr>"
    using refresh_collections_form by blast
  with assms show ?thesis by (simp add: tui_sized_def lists_sized_def)
qed

lemma refresh_status_sized: "tui_sized low s \<Longrightarrow> tui_sized low (refresh_status b st s)"
  using set_status_sized [of low s st]
  by (simp add: refresh_status_def Let_def) (simp add: tui_sized_def)

lemma refresh_selected_group_sized: "tui_sized low s \<Longrightarrow> tui_sized low (refresh_selected_group b s)"
  by (simp add: refresh_selected_group_def) (simp add: tui_sized_def lists_sized_def)

lemma restore_group_cursor_sized: "tui_sized low s \<Longrightarrow> tui_sized low (restore_group_cursor c s)"
  by (simp add: restore_group_cursor_def Let_def tui_sized_def lists_sized_def)

lemma refresh_snapshot_ok:
  assumes "tui_ok low s"
  shows "tui_ok low (refresh_snapshot low g v r snapshot s)"
proof -
  have "tui_sized low s" using assms by (simp add: tui_ok_def)
  with assms show ?thesis
    by (simp add: refresh_snapshot_def Let_def clamp_selections_ok restore_group_cursor_sized
        refresh_selected_group_sized refresh_status_sized refresh_collections_sized)
qed

lemma toast_ok [simp]: "tui_ok low (s\<lparr>as_toast := t\<rparr>) = tui_ok low s"
  by (simp add: tui_frame)

lemma connection_ok [simp]: "tui_ok low (s\<lparr>as_connection := c\<rparr>) = tui_ok low s"
  by (simp add: tui_frame)

lemma revision_ok [simp]: "tui_ok low (s\<lparr>as_status_revision := n\<rparr>) = tui_ok low s"
  by (simp add: tui_frame)

lemma on_connected_ok: "tui_ok low s \<Longrightarrow> tui_ok low (snd (on_connected low g snapshot s))"
  by (simp add: on_connected_def replace_snapshot_ok rules_if_shown_ok)

lemma on_disconnected_ok: "tui_ok low s \<Longrightarrow> tui_ok low (snd (on_disconnected g s))"
  using cancel_pending_ok [of low s]
  by (auto simp: on_disconnected_def split_def Let_def)

lemma on_status_ok:
  assumes "tui_ok low s"
  shows "tui_ok low (snd (on_status low g st s))"
proof -
  have shown: "tui_ok low (clamp_selections low (set_status_preserving_connection_selection st t))"
    if "tui_ok low t" for t
    using that by (intro clamp_selections_ok set_status_sized) (simp add: tui_ok_def)
  show ?thesis
    using assms by (simp add: on_status_def split_def Let_def rules_if_shown_ok shown invalidate_rule_cache_ok)
qed

lemma on_snapshot_refreshed_ok: "tui_ok low s \<Longrightarrow> tui_ok low (snd (on_snapshot_refreshed low g v r snapshot s))"
  by (simp add: on_snapshot_refreshed_def split_def Let_def refresh_snapshot_ok invalidate_rule_cache_ok rules_if_shown_ok)

lemma on_snapshot_refresh_failed_ok: "tui_ok low s \<Longrightarrow> tui_ok low (snd (on_snapshot_refresh_failed g v s))"
  by (simp add: on_snapshot_refresh_failed_def)

lemma on_proxy_group_loaded_ok:
  assumes "tui_ok low s"
  shows "tui_ok low (snd (on_proxy_group_loaded low i g result s))"
proof -
  have "tui_sized low s" using assms by (simp add: tui_ok_def)
  with assms show ?thesis
    by (simp add: on_proxy_group_loaded_def Let_def bump_view_revision_def clamp_selections_ok tui_sized_def
        lists_sized_def split: sum.split)
qed

lemma on_rules_loaded_ok:
  assumes "tui_ok low s"
  shows "tui_ok low (snd (on_rules_loaded low i g result s))"
proof -
  have "tui_sized low s" using assms by (simp add: tui_ok_def)
  with assms show ?thesis
    by (simp add: on_rules_loaded_def Let_def bump_view_revision_def clamp_selections_ok tui_sized_def
        lists_sized_def split: sum.split)
qed

text \<open>A new batch replaces only the log projection, and the scroll position is repaired afterwards.\<close>

lemma logs_change_ok:
  "tui_ok low s \<Longrightarrow> logs_sized l \<Longrightarrow> logs_clamped low l \<Longrightarrow> tui_ok low (s\<lparr>as_logs := l\<rparr>)"
  by (simp add: tui_frame)

lemma restored_scroll_in_range:
  "in_range (case position P xs of Some at \<Rightarrow> length xs - usize_add at 1
     | None \<Rightarrow> clamp_index k (length xs)) (length xs)"
  by (auto simp: usize_add_def usize_max_def in_range_def dest: position_bound split: option.split)
    (auto simp: clamp_index_def)

lemma restore_log_selection_form:
  "\<exists>k. restore_log_selection low q s = s\<lparr>as_logs := (as_logs s)\<lparr>lg_scroll := k\<rparr>\<rparr> \<and>
       in_range k (length (filtered_log_indices low (as_logs s)))"
  unfolding restore_log_selection_def Let_def by (intro exI conjI, rule refl, rule restored_scroll_in_range)

lemma on_log_batch_ok:
  assumes "tui_ok low s"
  shows "tui_ok low (snd (on_log_batch low g rs gap dropped s))"
proof -
  let ?l = "fold push_view_log rs (as_logs s)"
  let ?m = "?l\<lparr>lg_gap := (lg_gap ?l \<or> gap), lg_dropped_total := max (lg_dropped_total ?l) dropped\<rparr>"
  have sized: "logs_sized (?m\<lparr>lg_scroll := k\<rparr>)" for k
    using push_all_sized [of "as_logs s" rs] assms by (simp add: tui_ok_def tui_sized_def logs_sized_def logs_bounded_def)
  have clamped: "tui_ok low (s\<lparr>as_logs := ?m\<lparr>lg_scroll := k\<rparr>\<rparr>)"
    if "in_range k (length (filtered_log_indices low ?m))" "lg_follow (as_logs s) \<longrightarrow> k = 0" for k
    using assms sized that by (intro logs_change_ok) (simp_all add: logs_clamped_def)
  have restored: "tui_ok low (restore_log_selection low q (s\<lparr>as_logs := ?m\<rparr>))" if "\<not> lg_follow (as_logs s)" for q
    using clamped restore_log_selection_form [of low q "s\<lparr>as_logs := ?m\<rparr>"] that by auto
  show ?thesis
    using assms clamped restored
    by (simp add: on_log_batch_def Let_def filtered_log_count_def split: option.split)
qed

lemma clear_operation_ok:
  assumes "tui_ok low s"
  shows "tui_ok low (clear_operation (map_option pe_kind (as_pending s)) s)"
  using assms by (cases "as_pending s") (auto simp: clear_operation_def tui_parts)

lemma finish_mutation_ok:
  "tui_ok low s \<Longrightarrow> tui_ok low (finish_mutation (map_option pe_kind (as_pending s)) result s)"
  by (simp add: finish_mutation_def Let_def clear_operation_ok close_modal_ok split: sum.split)

lemma on_command_result_ok: "tui_ok low s \<Longrightarrow> tui_ok low (snd (on_command_result i g result s))"
  by (simp add: on_command_result_def split_def Let_def finish_mutation_ok rules_if_shown_ok invalidate_rule_cache_ok)

lemma on_reconnect_deadline_ok: "tui_ok low s \<Longrightarrow> tui_ok low (snd (on_reconnect_deadline g s))"
  by (simp add: on_reconnect_deadline_def)

lemma on_resize_ok: "tui_ok low s \<Longrightarrow> tui_ok low (snd (on_resize w h s))"
  by (simp add: on_resize_def normalize_focus_def tui_frame)

lemma update_ok: "tui_ok low s \<Longrightarrow> event_typed low s event \<Longrightarrow> tui_ok low (snd (update low event s))"
  by (cases event)
    (simp_all add: event_typed_def apply_intent_ok on_connected_ok on_disconnected_ok on_status_ok on_snapshot_refreshed_ok
      on_snapshot_refresh_failed_ok on_proxy_group_loaded_ok on_rules_loaded_ok on_log_batch_ok
      on_command_result_ok on_reconnect_deadline_ok on_resize_ok split: option.split option.split_asm)

lemma publish_ok: "tui_ok low s \<Longrightarrow> tui_ok low (publish_interaction_map im s)"
  by (simp add: publish_interaction_map_def tui_frame)

lemma app_new_ok: "tui_ok low app_new"
  by (simp add: app_new_def tui_parts logs_default_def view_bytes_def)

interpretation tui: state_machine app_new "tui_step low" "tui_ok low" for low
proof
  show "tui_ok low app_new" by (rule app_new_ok)
  show "tui_ok low (tui_step low op s)" if "tui_ok low s" for op s
    using that by (cases op) (simp_all add: update_ok publish_ok)
qed

end
