(* ===== verification/Tui_Requests.thy ===== *)
theory Tui_Requests
  imports Tui_Safety
begin

text \<open>
  Requests of the Status Interface: every request the reducer forgets is cancelled, answered or abandoned by a new connection,
  every request it sends is fresh and remembered, late answers are ignored, and commands that
  change the system are issued only from the state that asked for them.
\<close>

section \<open>Outstanding requests\<close>

definition outstanding :: "AppState \<Rightarrow> RequestId set" where
  "outstanding s = set_option (map_option pe_request_id (as_pending s)) \<union>
    set_option (map_option pl_request_id (px_group_load_pending (as_proxies s))) \<union>
    set_option (map_option rl_request_id (ru_load_pending (as_rules s)))"

fun request_of :: "Command \<Rightarrow> (RequestId \<times> u64) option" where
  "request_of (CmdActivateProfile i g _) = Some (i, g)"
| "request_of (CmdSelectNode i g _ _) = Some (i, g)"
| "request_of (FetchProxyGroup i g _) = Some (i, g)"
| "request_of (FetchRules i g) = Some (i, g)"
| "request_of (AddRule i g _) = Some (i, g)"
| "request_of (ReplaceRule i g _ _) = Some (i, g)"
| "request_of (RemoveRule i g _) = Some (i, g)"
| "request_of (RestartSupervisor i g) = Some (i, g)"
| "request_of (StopSupervisor i g) = Some (i, g)"
| "request_of _ = None"

definition requests :: "Command list \<Rightarrow> (RequestId \<times> u64) set" where
  "requests cs = set (List.map_filter request_of cs)"

text \<open>What happened to the requests between two states: all but those in \<open>done\<close> are kept or
  cancelled, and the new ones carry the next free id and the current connection generation.\<close>

definition accounted :: "RequestId set \<Rightarrow> AppState \<Rightarrow> Command list \<times> AppState \<Rightarrow> bool" where
  "accounted done s r \<longleftrightarrow>
    (\<forall>i \<in> outstanding s. i \<in> outstanding (snd r) \<or> Cancel i \<in> set (fst r) \<or> i \<in> done) \<and>
    (\<forall>i \<in> outstanding (snd r). i \<in> outstanding s \<or> i \<in> fst ` requests (fst r)) \<and>
    (\<forall>(i, g) \<in> requests (fst r).
       i = as_next_request_id s \<and> g = cx_generation (as_connection (snd r)) \<and> i \<in> outstanding (snd r))"

text \<open>The part of the state that requests depend on.\<close>

definition slots :: "AppState \<Rightarrow> RequestId option \<times> RequestId option \<times> RequestId option \<times> u64 \<times> u64" where
  "slots s = (map_option pe_request_id (as_pending s),
     map_option pl_request_id (px_group_load_pending (as_proxies s)),
     map_option rl_request_id (ru_load_pending (as_rules s)),
     as_next_request_id s, cx_generation (as_connection s))"

text \<open>The requests an event answers.\<close>

fun answered_by :: "UiEvent \<Rightarrow> AppState \<Rightarrow> RequestId set" where
  "answered_by (ProxyGroupLoaded i g _) s = (if group_load_current i g s then {i} else {})"
| "answered_by (RulesLoaded i g _) s = (if rule_load_current i g s then {i} else {})"
| "answered_by (CommandResult i g _) s = (if mutation_current i g s then {i} else {})"
| "answered_by _ s = {}"

text \<open>The requests that a new connection abandons: \<open>replace_snapshot\<close> forgets all of them without a \<open>Cancel\<close>.\<close>

fun abandoned_by :: "UiEvent \<Rightarrow> AppState \<Rightarrow> RequestId set" where
  "abandoned_by (Connected g _) s = (if cx_generation (as_connection s) \<le> g then outstanding s else {})"
| "abandoned_by _ s = {}"

definition settled_by :: "UiEvent \<Rightarrow> AppState \<Rightarrow> RequestId set" where
  "settled_by event s = answered_by event s \<union> abandoned_by event s"

lemma settled_by_simps [simp]:
  "settled_by (Connected g snapshot) s = (if cx_generation (as_connection s) \<le> g then outstanding s else {})"
  "settled_by (ProxyGroupLoaded i g loaded) s = (if group_load_current i g s then {i} else {})"
  "settled_by (RulesLoaded i g rules) s = (if rule_load_current i g s then {i} else {})"
  "settled_by (CommandResult i g result) s = (if mutation_current i g s then {i} else {})"
  by (simp_all add: settled_by_def)

text \<open>Events that come too late: a connection older than the current one, any other event of a connection that is
  not the current one, a refresh based on another view, an answer to a request that is not outstanding.\<close>

fun stale :: "AppState \<Rightarrow> UiEvent \<Rightarrow> bool" where
  "stale s (Connected g _) = (g < cx_generation (as_connection s))"
| "stale s (DisconnectedEvent g) = (g \<noteq> cx_generation (as_connection s))"
| "stale s (StatusSnapshotEvent g _) = (g \<noteq> cx_generation (as_connection s))"
| "stale s (SnapshotRefreshed g v _ _) = (g \<noteq> cx_generation (as_connection s) \<or> v \<noteq> as_view_revision s)"
| "stale s (SnapshotRefreshFailed g v) = (g \<noteq> cx_generation (as_connection s) \<or> v \<noteq> as_view_revision s)"
| "stale s (ProxyGroupLoaded i g _) = (g \<noteq> cx_generation (as_connection s) \<or>
     Some i \<noteq> map_option pl_request_id (px_group_load_pending (as_proxies s)))"
| "stale s (RulesLoaded i g _) = (g \<noteq> cx_generation (as_connection s) \<or>
     Some i \<noteq> map_option rl_request_id (ru_load_pending (as_rules s)))"
| "stale s (LogBatch g _ _ _) = (g \<noteq> cx_generation (as_connection s))"
| "stale s (CommandResult i g _) = (g \<noteq> cx_generation (as_connection s) \<or>
     Some i \<noteq> map_option pe_request_id (as_pending s))"
| "stale s (ReconnectDeadline g) = (g \<noteq> cx_generation (as_connection s))"
| "stale s _ = False"

text \<open>The state and the intent from which commands that change rules, selections or the supervisor's
  life may be sent.\<close>

fun authorised :: "AppState \<Rightarrow> UiIntent option \<Rightarrow> Command \<Rightarrow> bool" where
  "authorised s intent (AddRule i g rule) = (intent = Some SubmitRuleEditor \<and> rules_projection_ready s \<and>
     as_modal s = Some (RuleEditor None rule) \<and> rule \<noteq> [])"
| "authorised s intent (ReplaceRule i g old rule) = (intent = Some SubmitRuleEditor \<and> rules_projection_ready s \<and>
     as_modal s = Some (RuleEditor (Some old) rule) \<and> rule \<noteq> [] \<and> rule \<noteq> old)"
| "authorised s intent (RemoveRule i g rule) = (intent = Some ConfirmRuleRemoval \<and> rules_projection_ready s \<and>
     as_modal s = Some (RuleRemovalConfirmation rule))"
| "authorised s intent (StopSupervisor i g) = (intent = Some ConfirmLifecycleAction \<and>
     as_modal s = Some (LifecycleConfirmation PaletteStopSupervisor))"
| "authorised s intent (CmdSelectNode i g k node) = (group_selectable k s \<and>
     (intent = Some (SelectNode k node) \<or> intent = Some ActivateSelected))"
| "authorised s intent _ = True"

text \<open>Commands that send no request.\<close>

definition only_cancels :: "Command list \<Rightarrow> bool" where
  "only_cancels cs \<longleftrightarrow> list_all (\<lambda>c. request_of c = None) cs"

subsection \<open>Rules of the accounting\<close>

lemma slots_eq: "slots s = slots t \<Longrightarrow> outstanding s = outstanding t \<and>
    as_next_request_id s = as_next_request_id t \<and> cx_generation (as_connection s) = cx_generation (as_connection t)"
  by (auto simp: slots_def outstanding_def)

lemma accounted_mono: "accounted d s r \<Longrightarrow> d \<subseteq> e \<Longrightarrow> accounted e s r"
  by (auto simp: accounted_def)

lemma requests_cancels: "only_cancels cs \<Longrightarrow> requests cs = {}"
  by (induction cs) (simp_all add: only_cancels_def requests_def List.map_filter_simps)

lemma requests_append [simp]: "requests (xs @ ys) = requests xs \<union> requests ys"
  by (induction xs) (auto simp: requests_def List.map_filter_simps split: option.split)

lemma requests_single [simp]: "requests [] = {}" "requests [c] = set_option (request_of c)"
  by (simp_all add: requests_def List.map_filter_simps split: option.split)

lemma accounted_quiet: "slots t = slots s \<Longrightarrow> only_cancels cs \<Longrightarrow> accounted d s (cs, t)"
  using slots_eq [of t s] requests_cancels [of cs] by (simp add: accounted_def)

lemma accounted_seq:
  assumes drop: "only_cancels cs" "outstanding t \<subseteq> outstanding s"
      "\<And>i. i \<in> outstanding s \<Longrightarrow> i \<in> outstanding t \<or> Cancel i \<in> set cs \<or> i \<in> d"
      "as_next_request_id t = as_next_request_id s"
    and rest: "accounted d t (ds, u)"
  shows "accounted d s (cs @ ds, u)"
  using assms requests_cancels [OF drop(1)] unfolding accounted_def by (simp add: subset_iff) blast

lemma accounted_issue:
  assumes "only_cancels cs" "request_of c = Some (n, cx_generation (as_connection t))" "n = as_next_request_id s"
    and "outstanding t \<subseteq> insert n (outstanding s)" "n \<in> outstanding t"
    and "\<And>i. i \<in> outstanding s \<Longrightarrow> i \<in> outstanding t \<or> Cancel i \<in> set cs"
  shows "accounted d s (cs @ [c], t)"
  using assms requests_cancels [OF assms(1)] by (auto simp: accounted_def slots_def)

subsection \<open>Cancelling and issuing\<close>

lemma only_cancels_simps [simp]:
  "only_cancels []" "only_cancels (c # cs) \<longleftrightarrow> request_of c = None \<and> only_cancels cs"
  "only_cancels (xs @ ys) \<longleftrightarrow> only_cancels xs \<and> only_cancels ys"
  by (simp_all add: only_cancels_def)

lemma take_request_id_simps [simp]:
  "fst (take_request_id s) = as_next_request_id s"
  "outstanding (snd (take_request_id s)) = outstanding s"
  "as_connection (snd (take_request_id s)) = as_connection s"
  "as_proxies (snd (take_request_id s)) = as_proxies s"
  by (simp_all add: take_request_id_def outstanding_def)

lemma cancel_group_load_simps [simp]:
  "only_cancels (fst (cancel_group_load s))"
  "as_connection (snd (cancel_group_load s)) = as_connection s"
  "as_next_request_id (snd (cancel_group_load s)) = as_next_request_id s"
  by (simp_all add: cancel_group_load_def split: option.split)

lemma cancel_rule_load_simps [simp]:
  "only_cancels (fst (cancel_rule_load s))"
  "as_connection (snd (cancel_rule_load s)) = as_connection s"
  "as_next_request_id (snd (cancel_rule_load s)) = as_next_request_id s"
  "ru_load_pending (as_rules (snd (cancel_rule_load s))) = None"
  by (simp_all add: cancel_rule_load_def split: option.split)

lemma cancel_pending_simps [simp]:
  "only_cancels (fst (cancel_pending s))"
  "as_connection (snd (cancel_pending s)) = as_connection s"
  "as_next_request_id (snd (cancel_pending s)) = as_next_request_id s"
  "outstanding (snd (cancel_pending s)) = {}"
  by (simp_all add: cancel_pending_def cancel_mutation_def cancel_group_load_def cancel_rule_load_def
      outstanding_def split_def Let_def split: option.split)

lemma cancel_pending_all: "i \<in> outstanding s \<Longrightarrow> Cancel i \<in> set (fst (cancel_pending s))"
  by (auto simp: cancel_pending_def cancel_mutation_def cancel_group_load_def cancel_rule_load_def
      outstanding_def split_def Let_def split: option.split)

lemma cancel_rule_load_kept:
  "outstanding (snd (cancel_rule_load s)) \<subseteq> outstanding s"
  "i \<in> outstanding s \<Longrightarrow> i \<in> outstanding (snd (cancel_rule_load s)) \<or> Cancel i \<in> set (fst (cancel_rule_load s))"
  by (auto simp: cancel_rule_load_def outstanding_def split: option.split)

lemma cancel_group_load_kept:
  "outstanding (snd (cancel_group_load s)) \<subseteq> outstanding s"
  "i \<in> outstanding s \<Longrightarrow> i \<in> outstanding (snd (cancel_group_load s)) \<or> Cancel i \<in> set (fst (cancel_group_load s))"
  by (auto simp: cancel_group_load_def outstanding_def split: option.split)

text \<open>Every operation that starts a mutation cancels all outstanding requests and then sends one.\<close>

lemma accounted_start:
  assumes "request_of c = Some (as_next_request_id s, cx_generation (as_connection s))"
    and "outstanding t = {as_next_request_id s}" "as_connection t = as_connection s"
  shows "accounted d s (fst (cancel_pending (snd (take_request_id s))) @ [c], t)"
  using assms cancel_pending_all [of _ "snd (take_request_id s)"]
  by (intro accounted_issue) (auto simp: slots_def)

lemma bump_simps [simp]: "outstanding (bump_view_revision s) = outstanding s"
    "as_connection (bump_view_revision s) = as_connection s"
  by (simp_all add: bump_view_revision_def outstanding_def)

lemma pending_outstanding:
  "outstanding s = {} \<Longrightarrow> outstanding (s\<lparr>as_pending := Some p\<rparr>) = {pe_request_id p}"
  by (simp add: outstanding_def)

lemma selection_outstanding:
  "outstanding (s\<lparr>as_profiles := z\<rparr>) = outstanding s"
  "outstanding (s\<lparr>as_proxies := (as_proxies s)\<lparr>px_selection_pending := x\<rparr>\<rparr>) = outstanding s"
  "outstanding (s\<lparr>as_proxies := (as_proxies s)\<lparr>px_selected_group := y\<rparr>\<rparr>) = outstanding s"
  by (simp_all add: outstanding_def)

lemma pending_selection_outstanding:
  "outstanding s = {} \<Longrightarrow> px_group_load_pending px = px_group_load_pending (as_proxies s) \<Longrightarrow>
   outstanding (s\<lparr>as_pending := Some p, as_proxies := px\<rparr>) = {pe_request_id p}"
  by (simp add: outstanding_def)

lemma issue_profile_activation_accounted: "accounted d s (issue_profile_activation i s)"
  unfolding issue_profile_activation_def split_def Let_def
  by (intro accounted_start) (simp_all add: pending_outstanding selection_outstanding)

lemma issue_node_selection_accounted: "accounted d s (issue_node_selection g n s)"
proof (cases "group_selectable g s")
  case False
  then show ?thesis by (simp add: issue_node_selection_def accounted_quiet)
next
  case True
  then show ?thesis
    unfolding issue_node_selection_def split_def Let_def
    by (simp only: not_True_eq_False if_False, intro accounted_start)
      (simp_all add: selection_outstanding pending_outstanding pending_selection_outstanding split: option.split)
qed

lemma issue_lifecycle_action_accounted:
  "action \<noteq> PaletteProfiles \<Longrightarrow> accounted d s (issue_lifecycle_action action s)"
  unfolding issue_lifecycle_action_def split_def Let_def
  by (cases action; simp only: CommandPaletteAction.case simp_thms;
      intro accounted_start; simp add: pending_outstanding)

lemma submit_rule_editor_accounted: "accounted d s (submit_rule_editor s)"
proof -
  have "accounted d s (fst (cancel_pending (snd (take_request_id s))) @ [c],
      bump_view_revision ((snd (cancel_pending (snd (take_request_id s))))\<lparr>as_pending := Some p\<rparr>))"
    if "request_of c = Some (as_next_request_id s, cx_generation (as_connection s))"
      "pe_request_id p = as_next_request_id s" for c p
    using that by (intro accounted_start) (simp_all add: pending_outstanding)
  moreover have "accounted d s ([], s\<lparr>as_toast := t\<rparr>)" for t by (rule accounted_quiet) (simp_all add: slots_def)
  ultimately show ?thesis
    by (auto simp: submit_rule_editor_def split_def Let_def accounted_quiet split: option.split Modal.split)
qed

lemma confirm_rule_removal_accounted: "accounted d s (confirm_rule_removal s)"
proof -
  have "accounted d s (fst (cancel_pending (snd (take_request_id s))) @ [c],
      bump_view_revision ((snd (cancel_pending (snd (take_request_id s))))\<lparr>as_pending := Some p\<rparr>))"
    if "request_of c = Some (as_next_request_id s, cx_generation (as_connection s))"
      "pe_request_id p = as_next_request_id s" for c p
    using that by (intro accounted_start) (simp_all add: pending_outstanding)
  then show ?thesis
    by (auto simp: confirm_rule_removal_def split_def Let_def accounted_quiet split: option.split Modal.split)
qed

lemma confirm_lifecycle_action_accounted: "modal_ok (as_modal s) \<Longrightarrow> accounted d s (confirm_lifecycle_action s)"
  by (auto simp: confirm_lifecycle_action_def accounted_quiet modal_ok_def
      intro!: issue_lifecycle_action_accounted split: option.splits Modal.splits)

lemma issue_rule_load_accounted: "accounted d s (issue_rule_load s)"
proof (cases "cx_status (as_connection s) = UiConnected")
  case False
  then show ?thesis by (simp add: issue_rule_load_def accounted_quiet)
next
  case True
  let ?t = "snd (take_request_id s)"
  have "outstanding (t\<lparr>as_rules := (as_rules t)\<lparr>ru_load_error := None, ru_load_pending := Some p\<rparr>\<rparr>) =
      insert (rl_request_id p) (outstanding t)" if "ru_load_pending (as_rules t) = None" for t p
    using that by (auto simp: outstanding_def)
  moreover have "outstanding (snd (cancel_rule_load ?t)) \<subseteq> outstanding s"
    "\<And>i. i \<in> outstanding s \<Longrightarrow> i \<in> outstanding (snd (cancel_rule_load ?t)) \<or> Cancel i \<in> set (fst (cancel_rule_load ?t))"
    using cancel_rule_load_kept [where s = ?t] by simp_all
  ultimately show ?thesis
    using True unfolding issue_rule_load_def split_def Let_def
    by (simp only: simp_thms if_False, intro accounted_issue) (auto simp: slots_def)
qed

lemma ensure_rules_loaded_accounted: "accounted d s (ensure_rules_loaded s)"
  by (simp add: ensure_rules_loaded_def Let_def issue_rule_load_accounted accounted_quiet)

lemma rules_if_shown_accounted: "accounted d s (rules_if_shown s)"
  by (simp add: rules_if_shown_def ensure_rules_loaded_accounted accounted_quiet)

lemma issue_proxy_group_load_accounted: "accounted d s (issue_proxy_group_load k s)"
proof (cases "position (\<lambda>r. pg_id r = k) (px_groups (as_proxies s))")
  case None
  then show ?thesis by (simp add: issue_proxy_group_load_def accounted_quiet)
next
  case (Some i)
  let ?s = "s\<lparr>as_proxies := (as_proxies s)\<lparr>px_group_cursor := i\<rparr>\<rparr>"
  let ?u = "snd (cancel_group_load (snd (take_request_id ?s)))"
  have quiet: "accounted d s ([], ?s)" "accounted d s ([], ?s\<lparr>as_focus := Content\<rparr>)"
    by (rule accounted_quiet; simp add: slots_def)+
  have set: "outstanding (t\<lparr>as_proxies := (as_proxies t)\<lparr>px_group_load_pending := Some p\<rparr>\<rparr>) =
      insert (pl_request_id p) (outstanding t)" if "px_group_load_pending (as_proxies t) = None" for t p
    using that by (auto simp: outstanding_def)
  have cleared: "px_group_load_pending (as_proxies ?u) = None"
    by (simp add: cancel_group_load_def split: option.split)
  have same: "outstanding ?s = outstanding s" by (simp add: outstanding_def)
  have "accounted d s (fst (cancel_group_load (snd (take_request_id ?s))) @
      [FetchProxyGroup (as_next_request_id s) (cx_generation (as_connection s)) k],
      ?u\<lparr>as_proxies := (as_proxies ?u)\<lparr>px_group_load_pending := Some \<lparr>pl_request_id = as_next_request_id s,
        pl_connection_generation = cx_generation (as_connection s), pl_group_id = k\<rparr>\<rparr>\<rparr>)"
    using cancel_group_load_kept [where s = "snd (take_request_id ?s)"] set [OF cleared] same
    by (intro accounted_issue) (auto simp: slots_def)
  with Some quiet show ?thesis
    by (simp add: issue_proxy_group_load_def split_def Let_def)
qed

subsection \<open>Operations that leave requests alone\<close>

lemma slots_update [simp]:
  "slots (s\<lparr>as_focus := f\<rparr>) = slots s" "slots (s\<lparr>as_render_dirty := b\<rparr>) = slots s"
  "slots (s\<lparr>as_modal := m\<rparr>) = slots s" "slots (s\<lparr>as_zoomed_focus := b\<rparr>) = slots s"
  "slots (s\<lparr>as_should_quit := b\<rparr>) = slots s" "slots (s\<lparr>as_page := p\<rparr>) = slots s"
  "slots (s\<lparr>as_toast := t\<rparr>) = slots s" "slots (s\<lparr>as_status_revision := n\<rparr>) = slots s"
  "slots (s\<lparr>as_logs := l\<rparr>) = slots s" "slots (s\<lparr>as_palette := q\<rparr>) = slots s"
  "slots (s\<lparr>as_profiles := v\<rparr>) = slots s" "slots (s\<lparr>as_connections := c\<rparr>) = slots s"
  "slots (s\<lparr>as_status := st\<rparr>) = slots s" "slots (s\<lparr>as_terminal_width := w\<rparr>) = slots s"
  "slots (s\<lparr>as_terminal_height := w\<rparr>) = slots s" "slots (s\<lparr>as_interaction_map := im\<rparr>) = slots s"
  by (simp_all add: slots_def)

lemma slots_lists [simp]:
  "slots (s\<lparr>as_rules := (as_rules s)\<lparr>ru_selected := i\<rparr>\<rparr>) = slots s"
  "slots (s\<lparr>as_rules := (as_rules s)\<lparr>ru_scroll := i\<rparr>\<rparr>) = slots s"
  "slots (s\<lparr>as_rules := (as_rules s)\<lparr>ru_filter := q\<rparr>\<rparr>) = slots s"
  "slots (s\<lparr>as_proxies := (as_proxies s)\<lparr>px_selected := i\<rparr>\<rparr>) = slots s"
  "slots (s\<lparr>as_proxies := (as_proxies s)\<lparr>px_scroll := i\<rparr>\<rparr>) = slots s"
  "slots (s\<lparr>as_proxies := (as_proxies s)\<lparr>px_group_cursor := i\<rparr>\<rparr>) = slots s"
  by (simp_all add: slots_def)

lemma slots_operations [simp]:
  "slots (clamp_selections low s) = slots s" "slots (bump_view_revision s) = slots s"
  "slots (keep_selection_visible low sel s) = slots s" "slots (move_focus d s) = slots s"
  "slots (move_horizontal_focus d s) = slots s" "slots (normalize_focus s) = slots s"
  "slots (follow_logs s) = slots s" "slots (close_modal s) = slots s"
  "slots (set_palette_query low q s) = slots s" "slots (set_current_search q s) = slots s"
  "slots (move_proxy_group d s) = slots s" "slots (open_profiles low s) = slots s"
  "slots (open_command_palette low s) = slots s" "slots (open_rule_editor r s) = slots s"
  "slots (set_log_level level s) = slots s" "slots (toggle_zoom s) = slots s"
  "slots (set_status_preserving_connection_selection st s) = slots s"
  "slots (select_log low i s) = slots s"
  by (simp_all add: clamp_selections_def bump_view_revision_def keep_selection_visible_def move_focus_def
      move_horizontal_focus_def normalize_focus_def follow_logs_def close_modal_def set_palette_query_def
      set_current_search_def move_proxy_group_def open_profiles_def open_command_palette_def open_rule_editor_def
      set_log_level_def toggle_zoom_def set_status_preserving_connection_selection_def select_log_def Let_def
      slots_def split: ListSelection.split Page.split)

lemma slots_composed [simp]:
  "slots (escape s) = slots s" "slots (append_input low c s) = slots s" "slots (backspace_input low s) = slots s"
  "slots (select_rule low i s) = slots s" "slots (select_connection low i s) = slots s"
  "slots (open_selected_rule_editor low s) = slots s" "slots (request_selected_rule_removal low s) = slots s"
  "slots (toggle_help s) = slots s" "slots (snd (toggle_log_pause s)) = slots s"
  by (simp_all add: escape_def append_input_def backspace_input_def select_rule_def select_connection_def
      open_selected_rule_editor_def request_selected_rule_removal_def toggle_help_def toggle_log_pause_def
      split: option.split Modal.split)

lemma slots_move_selection [simp]: "slots (move_selection low d s) = slots s"
  using move_log_selection_form [of low d s] by (auto simp: move_selection_def split: Page.split)

subsection \<open>Intents and events\<close>

lemma accounted_slots: "slots t = slots u \<Longrightarrow> accounted d s (cs, t) \<longleftrightarrow> accounted d s (cs, u)"
  using slots_eq [of t u] by (simp add: accounted_def)

lemma accounted_from: "slots t = slots s \<Longrightarrow> accounted d t r \<longleftrightarrow> accounted d s r"
  using slots_eq [of t s] by (simp add: accounted_def)

lemma switch_page_accounted: "accounted d s (switch_page p s)"
  using ensure_rules_loaded_accounted
    [of d "s\<lparr>as_page := p, as_modal := None, as_zoomed_focus := False, as_focus := Content\<rparr>"]
  by (auto simp: switch_page_def Let_def accounted_quiet
      accounted_from [of "s\<lparr>as_page := p, as_modal := None, as_zoomed_focus := False, as_focus := Content\<rparr>" s])

lemma run_palette_action_accounted: "accounted d s (run_palette_action low a s)"
  by (cases a) (simp_all add: run_palette_action_def issue_lifecycle_action_accounted accounted_quiet)

lemma toggle_log_pause_accounted: "accounted d s (toggle_log_pause s)"
  using accounted_quiet [of "snd (toggle_log_pause s)" s "fst (toggle_log_pause s)" d]
  by (simp add: toggle_log_pause_def split: if_splits)

lemma activate_selected_accounted: "accounted d s (activate_selected low s)"
proof -
  have "accounted d s (fst (toggle_log_pause s), (snd (toggle_log_pause s))\<lparr>as_render_dirty := True\<rparr>)"
    using toggle_log_pause_accounted [of d s]
    by (subst accounted_slots [of _ "snd (toggle_log_pause s)"]) simp_all
  then show ?thesis
    by (auto simp: activate_selected_def split_def Let_def accounted_quiet run_palette_action_accounted
        issue_profile_activation_accounted issue_node_selection_accounted split: option.split Page.split)
qed

lemmas intent_accounted = switch_page_accounted run_palette_action_accounted confirm_lifecycle_action_accounted
  issue_rule_load_accounted submit_rule_editor_accounted confirm_rule_removal_accounted
  issue_proxy_group_load_accounted activate_selected_accounted issue_profile_activation_accounted
  issue_node_selection_accounted toggle_log_pause_accounted

lemma apply_intent_accounted:
  assumes "modal_ok (as_modal s)"
  shows "accounted d s (apply_intent low intent s)"
proof -
  have "accounted d s (intent_arm low intent s)"
    using assms by (cases intent) (simp_all add: intent_accounted accounted_quiet)
  then show ?thesis
    by (simp add: apply_intent_def split_def Let_def)
      (subst accounted_slots [of _ "snd (intent_arm low intent s)"], simp_all)
qed

lemma rules_if_shown_after:
  assumes "outstanding t \<subseteq> outstanding s" "as_next_request_id t = as_next_request_id s" "only_cancels cs"
    and "\<And>i. i \<in> outstanding s \<Longrightarrow> i \<in> outstanding t \<or> Cancel i \<in> set cs \<or> i \<in> d"
  shows "accounted d s (cs @ fst (rules_if_shown t), snd (rules_if_shown t))"
  using assms rules_if_shown_accounted [of d t] by (intro accounted_seq) auto

lemma invalidate_simps [simp]:
  "only_cancels (fst (invalidate_rule_cache s))"
  "as_next_request_id (snd (invalidate_rule_cache s)) = as_next_request_id s"
  "as_connection (snd (invalidate_rule_cache s)) = as_connection s"
  by (simp_all add: invalidate_rule_cache_def split_def Let_def)

lemma invalidate_kept:
  "outstanding (snd (invalidate_rule_cache s)) \<subseteq> outstanding s"
  "i \<in> outstanding s \<Longrightarrow>
    i \<in> outstanding (snd (invalidate_rule_cache s)) \<or> Cancel i \<in> set (fst (invalidate_rule_cache s))"
proof -
  have "outstanding (snd (invalidate_rule_cache s)) = outstanding (snd (cancel_rule_load s))"
    by (simp add: invalidate_rule_cache_def split_def Let_def outstanding_def)
  moreover have "fst (invalidate_rule_cache s) = fst (cancel_rule_load s)"
    by (simp add: invalidate_rule_cache_def split_def Let_def)
  ultimately show "outstanding (snd (invalidate_rule_cache s)) \<subseteq> outstanding s"
    and "i \<in> outstanding s \<Longrightarrow>
      i \<in> outstanding (snd (invalidate_rule_cache s)) \<or> Cancel i \<in> set (fst (invalidate_rule_cache s))"
    using cancel_rule_load_kept [where s = s] by auto
qed

lemma replace_snapshot_simps [simp]:
  "outstanding (replace_snapshot low g snapshot s) = {}"
  "as_next_request_id (replace_snapshot low g snapshot s) = as_next_request_id s"
  by (simp_all add: replace_snapshot_def clamp_selections_def bump_view_revision_def outstanding_def Let_def)

lemma on_connected_accounted:
  "accounted (settled_by (Connected g snapshot) s) s (on_connected low g snapshot s)"
proof (cases "cx_generation (as_connection s) \<le> g")
  case True
  let ?t = "(replace_snapshot low g snapshot s)\<lparr>as_toast := Some ''Connected''\<rparr>"
  have "outstanding ?t = {}" "as_next_request_id ?t = as_next_request_id s"
    using slots_eq [of ?t "replace_snapshot low g snapshot s"] by simp_all
  then have "accounted (outstanding s) s ([] @ fst (rules_if_shown ?t), snd (rules_if_shown ?t))"
    by (intro rules_if_shown_after) auto
  with True show ?thesis by (simp add: on_connected_def)
next
  case False
  then show ?thesis by (simp add: on_connected_def accounted_quiet)
qed

lemma outstanding_update [simp]:
  "outstanding (s\<lparr>as_connection := c\<rparr>) = outstanding s" "outstanding (s\<lparr>as_render_dirty := b\<rparr>) = outstanding s"
  "outstanding (s\<lparr>as_should_quit := b\<rparr>) = outstanding s"
  by (simp_all add: outstanding_def)

lemma on_disconnected_accounted: "accounted d s (on_disconnected g s)"
proof (cases "g = cx_generation (as_connection s)")
  case True
  have "accounted d s (fst (cancel_pending s) @ cs, u)"
    if "only_cancels cs" "outstanding u = {}" for cs u
    using that cancel_pending_all [of _ s] requests_cancels [of "fst (cancel_pending s) @ cs"]
    by (auto simp: accounted_def)
  from this [of "[]"] this [of "[ScheduleReconnect g]"] True show ?thesis
    by (simp add: on_disconnected_def split_def Let_def)
next
  case False
  then show ?thesis by (simp add: on_disconnected_def accounted_quiet)
qed

lemma on_status_accounted: "accounted d s (on_status low g st s)"
proof -
  have one: "accounted d s (cs, v)" if "only_cancels cs" "slots v = slots u" "outstanding u \<subseteq> outstanding s"
      "\<And>i. i \<in> outstanding s \<Longrightarrow> i \<in> outstanding u \<or> Cancel i \<in> set cs" for cs u v
    using that requests_cancels [of cs] slots_eq [of v u] by (auto simp: accounted_def)
  have two: "accounted d s (fst (invalidate_rule_cache s) @ fst (rules_if_shown v), snd (rules_if_shown v))"
    if "slots v = slots (snd (invalidate_rule_cache s))" for v
    using slots_eq [OF that] invalidate_kept [where s = s] by (intro rules_if_shown_after) auto
  show ?thesis
    by (auto simp: on_status_def split_def Let_def accounted_quiet intro!: two)
qed

lemma refresh_snapshot_slots [simp]: "slots (refresh_snapshot low g v r snapshot s) = slots s"
proof -
  have collections: "slots (refresh_collections low b ps gs fs t) = slots t" for b ps gs fs t
    using refresh_collections_form [of low b ps gs fs t] by (auto simp: slots_def)
  have status: "slots (refresh_status b st t) = slots t" for b st t
    using slots_operations(17) [of st t]
    by (simp add: refresh_status_def Let_def slots_def)
  have group: "slots (refresh_selected_group b t) = slots t" "slots (restore_group_cursor c t) = slots t" for b c t
    by (simp_all add: refresh_selected_group_def restore_group_cursor_def Let_def slots_def)
  show ?thesis
    by (simp add: refresh_snapshot_def Let_def collections status group)
qed

lemma on_snapshot_refreshed_accounted: "accounted d s (on_snapshot_refreshed low g v r snapshot s)"
proof -
  let ?t = "refresh_snapshot low g v r snapshot s"
  have "accounted d ?t (fst (invalidate_rule_cache ?t) @ fst (rules_if_shown (snd (invalidate_rule_cache ?t))),
      snd (rules_if_shown (snd (invalidate_rule_cache ?t))))"
    using invalidate_kept [where s = ?t] by (intro rules_if_shown_after) auto
  then show ?thesis
    by (simp add: on_snapshot_refreshed_def split_def Let_def accounted_quiet accounted_from [of ?t s])
qed

lemma accounted_resolved:
  assumes "slots t = slots u" "outstanding u \<subseteq> outstanding s" "outstanding s \<subseteq> insert i (outstanding u)"
  shows "accounted {i} s ([], t)"
  using assms(2,3) slots_eq [OF assms(1)] by (auto simp: accounted_def)

lemma slots_projection:
  "px_group_load_pending p = px_group_load_pending (as_proxies s) \<Longrightarrow> slots (s\<lparr>as_proxies := p\<rparr>) = slots s"
  "ru_load_pending r = ru_load_pending (as_rules s) \<Longrightarrow> slots (s\<lparr>as_rules := r\<rparr>) = slots s"
  by (simp_all add: slots_def)

lemma on_proxy_group_loaded_accounted:
  "accounted (settled_by (ProxyGroupLoaded i g result) s) s (on_proxy_group_loaded low i g result s)"
proof (cases "group_load_current i g s")
  case True
  then obtain p where p: "px_group_load_pending (as_proxies s) = Some p" "pl_request_id p = i"
    by (auto simp: group_load_current_def split: option.splits)
  let ?u = "s\<lparr>as_proxies := (as_proxies s)\<lparr>px_group_load_pending := None\<rparr>\<rparr>"
  have loaded: "slots (s\<lparr>as_proxies := q\<rparr>) = (fst (slots s), None, snd (snd (slots s)))"
    if "px_group_load_pending q = None" for q
    using that by (simp add: slots_def)
  have "slots (snd (on_proxy_group_loaded low i g result s)) = slots ?u"
    using True by (cases result) (simp_all add: on_proxy_group_loaded_def Let_def loaded)
  moreover have "fst (on_proxy_group_loaded low i g result s) = []" by (simp add: on_proxy_group_loaded_def Let_def)
  moreover have "outstanding ?u \<subseteq> outstanding s" "outstanding s \<subseteq> insert i (outstanding ?u)"
    using p by (auto simp: outstanding_def)
  ultimately have "accounted {i} s ([], snd (on_proxy_group_loaded low i g result s))"
    by (intro accounted_resolved)
  with True \<open>fst _ = []\<close> show ?thesis by (metis prod.collapse settled_by_simps(2))
next
  case False
  then show ?thesis by (simp add: on_proxy_group_loaded_def accounted_quiet)
qed

lemma on_rules_loaded_accounted:
  "accounted (settled_by (RulesLoaded i g result) s) s (on_rules_loaded low i g result s)"
proof (cases "rule_load_current i g s")
  case True
  then obtain p where p: "ru_load_pending (as_rules s) = Some p" "rl_request_id p = i"
    by (auto simp: rule_load_current_def split: option.splits)
  let ?u = "s\<lparr>as_rules := (as_rules s)\<lparr>ru_load_pending := None\<rparr>\<rparr>"
  have loaded: "slots (s\<lparr>as_rules := q\<rparr>) = (fst (slots s), fst (snd (slots s)), None, snd (snd (snd (slots s))))"
    if "ru_load_pending q = None" for q
    using that by (simp add: slots_def)
  have "slots (snd (on_rules_loaded low i g result s)) = slots ?u"
    using True by (cases result) (simp_all add: on_rules_loaded_def Let_def loaded)
  moreover have "fst (on_rules_loaded low i g result s) = []" by (simp add: on_rules_loaded_def Let_def)
  moreover have "outstanding ?u \<subseteq> outstanding s" "outstanding s \<subseteq> insert i (outstanding ?u)"
    using p by (auto simp: outstanding_def)
  ultimately have "accounted {i} s ([], snd (on_rules_loaded low i g result s))"
    by (intro accounted_resolved)
  with True \<open>fst _ = []\<close> show ?thesis by (metis prod.collapse settled_by_simps(3))
next
  case False
  then show ?thesis by (simp add: on_rules_loaded_def accounted_quiet)
qed

lemma on_log_batch_accounted: "accounted d s (on_log_batch low g rs gap dropped s)"
proof -
  have "slots (restore_log_selection low q t) = slots t" for q t
    using restore_log_selection_form [of low q t] by auto
  then have "slots (snd (on_log_batch low g rs gap dropped s)) = slots s"
    by (simp add: on_log_batch_def Let_def split: option.split)
  moreover have "fst (on_log_batch low g rs gap dropped s) = []" by (simp add: on_log_batch_def Let_def)
  ultimately show ?thesis by (metis accounted_quiet only_cancels_simps(1) prod.collapse)
qed

lemma slots_stale [simp]: "slots (s\<lparr>as_connection := (as_connection s)\<lparr>cx_snapshot_stale := b\<rparr>\<rparr>) = slots s"
  by (simp add: slots_def)

lemma finish_mutation_slots: "slots (finish_mutation kind result s) = slots (s\<lparr>as_pending := None\<rparr>)"
proof -
  have "slots (clear_operation kind s) = slots (s\<lparr>as_pending := None\<rparr>)"
    by (simp add: clear_operation_def slots_def)
  then show ?thesis by (cases result) (simp_all add: finish_mutation_def Let_def)
qed

lemma finish_mutation_outstanding:
  "outstanding (finish_mutation kind result s) \<subseteq> outstanding s"
  "mutation_current i g s \<Longrightarrow> outstanding s \<subseteq> insert i (outstanding (finish_mutation kind result s))"
  "as_next_request_id (finish_mutation kind result s) = as_next_request_id s"
proof -
  let ?t = "s\<lparr>as_pending := None\<rparr>"
  have same: "outstanding (finish_mutation kind result s) = outstanding ?t"
    "as_next_request_id (finish_mutation kind result s) = as_next_request_id ?t"
    using slots_eq [OF finish_mutation_slots [of kind result s]] by simp_all
  show "outstanding (finish_mutation kind result s) \<subseteq> outstanding s"
    unfolding same by (auto simp: outstanding_def)
  show "mutation_current i g s \<Longrightarrow> outstanding s \<subseteq> insert i (outstanding (finish_mutation kind result s))"
    unfolding same by (auto simp: mutation_current_def outstanding_def split: option.splits)
  show "as_next_request_id (finish_mutation kind result s) = as_next_request_id s" using same(2) by simp
qed

lemma on_command_result_accounted:
  "accounted (settled_by (CommandResult i g result) s) s (on_command_result i g result s)"
proof (cases "mutation_current i g s")
  case True
  define k where "k = map_option pe_kind (as_pending s)"
  let ?t = "finish_mutation k result s"
  let ?u = "snd (invalidate_rule_cache ?t)"
  have sub: "outstanding ?t \<subseteq> outstanding s" "outstanding s \<subseteq> insert i (outstanding ?t)"
    "as_next_request_id ?t = as_next_request_id s"
    using finish_mutation_outstanding True by simp_all
  have finished: "accounted {i} s ([], ?t)" using sub by (intro accounted_resolved) auto
  have shown: "accounted {i} s ([] @ fst (rules_if_shown ?t), snd (rules_if_shown ?t))"
    using sub by (intro rules_if_shown_after) auto
  have reloaded: "accounted {i} s (fst (invalidate_rule_cache ?t) @ fst (rules_if_shown ?u), snd (rules_if_shown ?u))"
    using sub invalidate_kept [where s = ?t] by (intro rules_if_shown_after) auto
  have "k = Some OpActivateProfile \<Longrightarrow> \<not> rule_operation k" by (simp add: rule_operation_def)
  then show ?thesis
    using True finished shown reloaded
    by (cases "k = Some OpActivateProfile") (simp_all add: on_command_result_def split_def Let_def k_def [symmetric])
next
  case False
  then show ?thesis by (simp add: on_command_result_def accounted_quiet)
qed

lemma update_accounted:
  assumes "modal_ok (as_modal s)"
  shows "accounted (settled_by event s) s (update low event s)"
proof -
  have reconnect: "accounted d s (on_reconnect_deadline g s)" for d g
    by (simp add: on_reconnect_deadline_def accounted_def)
  have refused: "accounted d s (on_snapshot_refresh_failed g v s)" for d g v
    by (simp add: on_snapshot_refresh_failed_def accounted_quiet)
  have resized: "accounted d s (on_resize w h s)" for d w h
    by (simp add: on_resize_def accounted_quiet)
  show ?thesis
    using assms
    by (cases event)
      (simp_all add: apply_intent_accounted on_disconnected_accounted on_status_accounted
        on_snapshot_refreshed_accounted on_log_batch_accounted reconnect refused resized accounted_quiet
        on_connected_accounted on_proxy_group_loaded_accounted on_rules_loaded_accounted
        on_command_result_accounted del: settled_by_simps split: option.split)
qed

subsection \<open>Commands that change the system\<close>

definition allowed :: "AppState \<Rightarrow> UiIntent option \<Rightarrow> Command list \<Rightarrow> bool" where
  "allowed s intent cs \<longleftrightarrow> list_all (authorised s intent) cs"

lemma allowed_simps [simp]:
  "allowed s intent []" "allowed s intent (c # cs) \<longleftrightarrow> authorised s intent c \<and> allowed s intent cs"
  "allowed s intent (xs @ ys) \<longleftrightarrow> allowed s intent xs \<and> allowed s intent ys"
  by (simp_all add: allowed_def)

lemma only_cancels_allowed: "only_cancels cs \<Longrightarrow> allowed s intent cs"
  unfolding only_cancels_def allowed_def list_all_iff
proof
  show "authorised s intent c" if "\<forall>c \<in> set cs. request_of c = None" "c \<in> set cs" for c
    using that by (cases c) auto
qed

lemma cancels_allowed [simp]:
  "allowed s intent (fst (cancel_pending t))" "allowed s intent (fst (cancel_group_load t))"
  "allowed s intent (fst (cancel_rule_load t))" "allowed s intent (fst (invalidate_rule_cache t))"
  by (simp_all add: only_cancels_allowed)

lemma loads_allowed [simp]:
  "allowed s intent (fst (issue_rule_load t))" "allowed s intent (fst (ensure_rules_loaded t))"
  "allowed s intent (fst (rules_if_shown t))" "allowed s intent (fst (switch_page p t))"
  "allowed s intent (fst (issue_proxy_group_load k t))" "allowed s intent (fst (toggle_log_pause t))"
  "allowed s intent (fst (issue_profile_activation i t))"
  by (simp_all add: issue_rule_load_def ensure_rules_loaded_def rules_if_shown_def switch_page_def
      issue_proxy_group_load_def toggle_log_pause_def issue_profile_activation_def split_def Let_def split: option.split)

lemma issue_node_selection_allowed:
  "intent = Some (SelectNode g n) \<or> intent = Some ActivateSelected \<Longrightarrow>
   allowed s intent (fst (issue_node_selection g n s))"
  by (simp add: issue_node_selection_def split_def Let_def)

lemma restart_allowed [simp]: "allowed s intent (fst (run_palette_action low a t))"
  by (cases a) (simp_all add: run_palette_action_def issue_lifecycle_action_def split_def Let_def)

lemma confirmations_allowed:
  "allowed s (Some SubmitRuleEditor) (fst (submit_rule_editor s))"
  "allowed s (Some ConfirmRuleRemoval) (fst (confirm_rule_removal s))"
  "allowed s (Some ConfirmLifecycleAction) (fst (confirm_lifecycle_action s))"
  by (auto simp: submit_rule_editor_def confirm_rule_removal_def confirm_lifecycle_action_def
      issue_lifecycle_action_def split_def Let_def split: option.split Modal.split CommandPaletteAction.split)

lemma apply_intent_allowed: "allowed s (Some intent) (fst (apply_intent low intent s))"
proof (cases intent)
  case ActivateSelected
  then show ?thesis
    by (auto simp: apply_intent_def activate_selected_def split_def Let_def issue_node_selection_allowed
        split: option.split Page.split)
qed (simp_all add: apply_intent_def split_def Let_def confirmations_allowed issue_node_selection_allowed)

lemma update_allowed: "allowed s (event_intent low s event) (fst (update low event s))"
  by (cases event)
    (simp_all add: apply_intent_allowed on_connected_def on_disconnected_def on_status_def on_snapshot_refreshed_def
      on_snapshot_refresh_failed_def on_proxy_group_loaded_def on_rules_loaded_def on_log_batch_def
      on_command_result_def on_reconnect_deadline_def on_resize_def split_def Let_def split: option.split)

section \<open>Properties\<close>

text \<open>C10. The Status Interface stays consistent: after any sequence of events and published frames,
  every cursor and scroll position points into its list, the projections and the log keep their limits with an
  exact byte count, every search text consists of whole characters and keeps both of its limits (128 characters and
  256 bytes), a marker of a pending activation or selection belongs to the pending operation, and only
  stopping the supervisor waits for confirmation.\<close>

theorem tui_stays_consistent: "tui_ok low (fold (tui_step low) steps app_new)"
  by (rule tui.run_inv)

text \<open>C9. Every request is accounted for: in every reachable state and for every event, a request that was
  outstanding is still outstanding, is cancelled by a command, or is answered by the event.  The one exception is
  an accepted \<open>Connected\<close> event: it replaces the view and abandons the outstanding requests without
  cancelling them.  A request is added only with a command that sends it, and every request sent carries the next
  free id and the current connection generation and is remembered.\<close>

theorem requests_accounted:
  "let s = fold (tui_step low) steps app_new
   in accounted (answered_by event s \<union> abandoned_by event s) s (update low event s)"
  using tui.run_inv [of low steps] update_accounted by (auto simp: tui_ok_def tui_sized_def settled_by_def)

text \<open>C13. Late events are ignored: a \<open>Connected\<close> event of an older generation than the current one, any other
  event that carries a connection generation other than the current one, a refresh based on another view
  revision, or an answer to a request that is not outstanding leaves the state as it is and sends nothing.
  (A \<open>Connected\<close> event of the current or a newer generation is never late: it starts that connection.)\<close>

theorem stale_events_ignored: "stale s event \<Longrightarrow> update low event s = ([], s)"
  by (cases event)
    (auto simp: on_connected_def on_disconnected_def on_status_def on_snapshot_refreshed_def refresh_snapshot_def
      accepts_snapshot_refresh_def on_snapshot_refresh_failed_def on_proxy_group_loaded_def group_load_current_def
      on_rules_loaded_def rule_load_current_def on_log_batch_def on_command_result_def mutation_current_def
      on_reconnect_deadline_def split: option.split)

theorem stale_events_ignored_witness:
  "stale app_new (CommandResult 7 0 (Inl ''late'')) \<and>
   update id (CommandResult 7 0 (Inl ''late'')) app_new = ([], app_new)"
proof -
  have "stale app_new (CommandResult 7 0 (Inl ''late''))" by (simp add: app_new_def)
  with stale_events_ignored [OF this, of id] show ?thesis by simp
qed

text \<open>C11. Commands that change the system come from the state that asks for them: rules are added or
  replaced only by submitting the editor that holds the rule, removed only by confirming that rule's
  removal, in both cases while the shown rules are those of the current connection and runtime;
  the supervisor is stopped only by confirming its stop; a node is selected only in a selectable group.\<close>

theorem commands_authorised:
  "list_all (authorised s (event_intent low s event)) (fst (update low event s))"
  using update_allowed by (simp add: allowed_def)

end
