(* ===== verification/Tui_Logs.thy ===== *)
theory Tui_Logs
  imports Tui_Safety
begin

text \<open>
  The log page: a reader who has stopped following keeps the selected record while new
  records arrive.
\<close>

lemma position_nth: "x \<in> set xs \<Longrightarrow> P x \<Longrightarrow> \<exists>i. position P xs = Some i"
  by (induction xs) auto

lemma filtered_log_indices_records:
  "i \<in> set (filtered_log_indices low l) \<longleftrightarrow> i < length (lg_records l) \<and> log_matches low l (lg_records l ! i)"
  by (force simp: filtered_log_indices_def in_set_enumerate_eq image_iff)

text \<open>Whether the log page shows a record with the given sequence number.\<close>

definition shows_sequence :: "(string \<Rightarrow> string) \<Rightarrow> LogsState \<Rightarrow> u64 \<Rightarrow> bool" where
  "shows_sequence low l q \<longleftrightarrow> list_ex (\<lambda>r. vl_sequence r = q \<and> log_matches low l r) (lg_records l)"

lemma shows_sequence_position:
  assumes "shows_sequence low l q"
  obtains i where "position (\<lambda>index. case vec_get (lg_records l) index of None \<Rightarrow> False | Some r \<Rightarrow> vl_sequence r = q)
      (filtered_log_indices low l) = Some i"
proof -
  from assms obtain k where "k < length (lg_records l)" "vl_sequence (lg_records l ! k) = q"
    "log_matches low l (lg_records l ! k)"
    by (auto simp: shows_sequence_def list_ex_iff in_set_conv_nth)
  then have "k \<in> set (filtered_log_indices low l)"
    "case vec_get (lg_records l) k of None \<Rightarrow> False | Some r \<Rightarrow> vl_sequence r = q"
    by (simp_all add: filtered_log_indices_records vec_get_def)
  then show ?thesis using position_nth that by meson
qed

lemma filtered_bound: "length (filtered_log_indices low l) \<le> length (lg_records l)"
proof -
  have "length (filtered_log_indices low l) \<le> length (enumerate 0 (lg_records l))"
    unfolding filtered_log_indices_def length_map by (rule length_filter_le)
  then show ?thesis by simp
qed

lemma restored_selection:
  assumes "shows_sequence low (as_logs s) q" "\<not> lg_follow (as_logs s)" "logs_bounded (as_logs s)"
  shows "selected_log_sequence low (restore_log_selection low q s) = Some q"
proof -
  let ?ix = "filtered_log_indices low (as_logs s)" and ?rs = "lg_records (as_logs s)"
  from assms(1) obtain i where pos: "position (\<lambda>index. case vec_get ?rs index of None \<Rightarrow> False
      | Some r \<Rightarrow> vl_sequence r = q) ?ix = Some i"
    by (rule shows_sequence_position)
  note at = position_bound [OF pos]
  have "length ?ix \<le> LOG_CAPACITY"
    using filtered_bound [of low "as_logs s"] assms(3) by (simp add: logs_bounded_def)
  then have small: "length ?ix < usize_max" by (simp add: LOG_CAPACITY_def usize_max_def)
  then have "usize_add i 1 = Suc i" "usize_add (length ?ix - Suc i) 1 = length ?ix - i"
    using at by (auto simp: usize_add_def)
  then have "selected_log_position ((as_logs s)\<lparr>lg_scroll := length ?ix - Suc i\<rparr>) (length ?ix) = Some i"
    using at assms(2) by (auto simp: selected_log_position_def Let_def)
  with at pos show ?thesis
    using \<open>usize_add i 1 = Suc i\<close>
    by (auto simp: selected_log_sequence_def restore_log_selection_def Let_def vec_get_def split: if_splits)
qed

lemma log_batch_records:
  assumes "g = cx_generation (as_connection s)" "\<not> lg_paused (as_logs s)"
  shows "shows_sequence low (as_logs (snd (on_log_batch low g records gap dropped s))) q =
    shows_sequence low (fold push_view_log records (as_logs s)) q"
proof -
  have "shows_sequence low (as_logs (restore_log_selection low p t)) q = shows_sequence low (as_logs t) q" for p t
    using restore_log_selection_form [of low p t] by (auto simp: shows_sequence_def)
  with assms show ?thesis
    by (simp add: on_log_batch_def Let_def split: option.split) (simp add: shows_sequence_def)
qed

text \<open>C14. Reading the log is undisturbed: when a batch arrives for a reader who selected a record
  and does not follow the log (which is within its limits), the selected record is the same afterwards as long as the page
  still shows it, whatever was pushed and evicted.\<close>

theorem log_selection_pinned:
  assumes ok: "logs_bounded (as_logs s)"
    and selected: "selected_log_sequence low s = Some q"
    and kept: "shows_sequence low (as_logs (snd (update low (LogBatch g records gap dropped) s))) q"
  shows "selected_log_sequence low (snd (update low (LogBatch g records gap dropped) s)) = Some q"
proof (cases "g = cx_generation (as_connection s) \<and> \<not> lg_paused (as_logs s)")
  case False
  with selected show ?thesis by (auto simp: on_log_batch_def)
next
  case True
  let ?l = "fold push_view_log records (as_logs s)"
  let ?m = "?l\<lparr>lg_gap := (lg_gap ?l \<or> gap), lg_dropped_total := max (lg_dropped_total ?l) dropped\<rparr>"
  let ?t = "s\<lparr>as_logs := ?m\<rparr>"
  have follow: "\<not> lg_follow (as_logs s)"
    using selected by (auto simp: selected_log_sequence_def selected_log_position_def Let_def split: if_splits)
  have result: "snd (update low (LogBatch g records gap dropped) s) =
      (restore_log_selection low q ?t)\<lparr>as_render_dirty := True\<rparr>"
    using True follow selected by (simp add: on_log_batch_def Let_def)
  have "shows_sequence low ?m q"
    using kept [unfolded result] restore_log_selection_form [of low q ?t] by (auto simp: shows_sequence_def)
  moreover have "logs_bounded ?m"
    using push_all_bounded [of "as_logs s" records] ok by (simp add: logs_bounded_def)
  ultimately have "selected_log_sequence low (restore_log_selection low q ?t) = Some q"
    using follow by (intro restored_selection) simp_all
  then show ?thesis unfolding result by (simp add: selected_log_sequence_def)
qed

definition example_record :: "u64 \<Rightarrow> ViewLogRecord" where
  "example_record n = \<lparr>vl_sequence = n, vl_timestamp_unix_ms = 0, vl_level = LogInfo, vl_source = CoreApi, vl_message = ''up''\<rparr>"

definition example_logs :: AppState where
  "example_logs = app_new\<lparr>as_page := Logs, as_logs := logs_default\<lparr>lg_records := [example_record 5],
     lg_follow := False, lg_retained_bytes := 2\<rparr>\<rparr>"

lemma example_matches [simp]:
  "lg_search l = [] \<Longrightarrow> lg_level_filter l = FilterInfo \<Longrightarrow> lg_since_unix_ms l = None \<Longrightarrow> lg_until_unix_ms l = None \<Longrightarrow>
   log_matches low l (example_record n)"
  by (simp add: log_matches_def parse_log_query_def split_whitespace_def example_record_def level_matches_def Let_def)

lemma example_push: "fold push_view_log [example_record 6] (as_logs example_logs) =
    (as_logs example_logs)\<lparr>lg_records := [example_record 5, example_record 6], lg_retained_bytes := 4\<rparr>"
  by (simp add: push_view_log_def evict_view_logs.simps example_logs_def example_record_def logs_default_def
      LOG_CAPACITY_def LOG_RETENTION_MAX_BYTES_def usize_add_def usize_max_def Let_def)

theorem log_selection_pinned_witness:
  "selected_log_sequence id example_logs = Some 5 \<and>
   selected_log_sequence id (snd (update id (LogBatch 0 [example_record 6] False 0) example_logs)) = Some 5"
proof -
  have ok: "logs_bounded (as_logs example_logs)"
    by (simp add: example_logs_def logs_bounded_def logs_default_def view_bytes_def in_range_def
        example_record_def LOG_CAPACITY_def LOG_RETENTION_MAX_BYTES_def)
  have selected: "selected_log_sequence id example_logs = Some 5"
    by (simp add: selected_log_sequence_def selected_log_position_def filtered_log_indices_def example_logs_def
        logs_default_def usize_add_def usize_max_def vec_get_def Let_def) (simp add: example_record_def)
  have kept: "shows_sequence id (as_logs (snd (update id (LogBatch 0 [example_record 6] False 0) example_logs))) 5"
  proof -
    have "cx_generation (as_connection example_logs) = 0" "\<not> lg_paused (as_logs example_logs)"
      by (simp_all add: example_logs_def app_new_def logs_default_def)
    moreover have "shows_sequence id (fold push_view_log [example_record 6] (as_logs example_logs)) 5"
      unfolding example_push by (simp add: shows_sequence_def example_logs_def logs_default_def)
        (simp add: example_record_def)
    ultimately show ?thesis using log_batch_records [of 0 example_logs id "[example_record 6]" False 0 5] by simp
  qed
  from log_selection_pinned [OF ok selected kept] selected show ?thesis by simp
qed

end
