(* ===== verification/Event_Inbox.thy ===== *)
theory Event_Inbox
  imports Tui_Reducer Machines
begin

text \<open>
  The fair event inbox of the Status Interface (\<open>src/src/tui/event_inbox.rs\<close>): one bounded queue
  per event source, drained in rounds with a budget for each.
\<close>

section \<open>Data and operations\<close>

datatype EventSource = TerminalSource | CommandResultSource | DeadlineSource | TelemetrySource

record EventBudgets =
  eb_terminal :: nat
  eb_command_result :: nat
  eb_deadline :: nat
  eb_telemetry :: nat

definition budgets_default :: EventBudgets where
  "budgets_default = \<lparr>eb_terminal = 8, eb_command_result = 8, eb_deadline = 2, eb_telemetry = 64\<rparr>"

datatype EventInboxError = InvalidCapacity | InvalidBudget

record FairEventInbox =
  fi_capacity_per_source :: nat
  fi_budgets :: EventBudgets
  fi_shutdown :: "UiEvent option"
  fi_terminal :: "UiEvent list"
  fi_command_results :: "UiEvent list"
  fi_deadlines :: "UiEvent list"
  fi_telemetry :: "UiEvent list"
  fi_dropped :: "u64 list"

definition EVENT_SOURCE_CAPACITY :: nat where
  "EVENT_SOURCE_CAPACITY = 256"

definition inbox_from_validated_parts :: "nat \<Rightarrow> EventBudgets \<Rightarrow> FairEventInbox" where
  "inbox_from_validated_parts capacity budgets =
    \<lparr>fi_capacity_per_source = capacity, fi_budgets = budgets, fi_shutdown = None, fi_terminal = [],
     fi_command_results = [], fi_deadlines = [], fi_telemetry = [], fi_dropped = [0, 0, 0, 0]\<rparr>"

definition inbox_new :: "nat \<Rightarrow> EventBudgets \<Rightarrow> EventInboxError + FairEventInbox" where
  "inbox_new capacity budgets =
    (if capacity = 0 then Inl InvalidCapacity
     else if eb_terminal budgets = 0 \<or> eb_command_result budgets = 0 \<or> eb_deadline budgets = 0 \<or>
             eb_telemetry budgets = 0 then Inl InvalidBudget
     else Inr (inbox_from_validated_parts capacity budgets))"

definition inbox_product :: FairEventInbox where
  "inbox_product = inbox_from_validated_parts EVENT_SOURCE_CAPACITY budgets_default"

fun source_index :: "EventSource \<Rightarrow> nat" where
  "source_index TerminalSource = 0"
| "source_index CommandResultSource = 1"
| "source_index DeadlineSource = 2"
| "source_index TelemetrySource = 3"

fun is_status_snapshot :: "UiEvent \<Rightarrow> bool" where
  "is_status_snapshot (StatusSnapshotEvent _ _) = True"
| "is_status_snapshot _ = False"

definition rposition :: "('a \<Rightarrow> bool) \<Rightarrow> 'a list \<Rightarrow> nat option" where
  "rposition P xs = map_option (\<lambda>i. length xs - 1 - i) (position P (rev xs))"

fun inbox_queue :: "EventSource \<Rightarrow> FairEventInbox \<Rightarrow> UiEvent list" where
  "inbox_queue TerminalSource b = fi_terminal b"
| "inbox_queue CommandResultSource b = fi_command_results b"
| "inbox_queue DeadlineSource b = fi_deadlines b"
| "inbox_queue TelemetrySource b = fi_telemetry b"

fun set_inbox_queue :: "EventSource \<Rightarrow> UiEvent list \<Rightarrow> FairEventInbox \<Rightarrow> FairEventInbox" where
  "set_inbox_queue TerminalSource q b = b\<lparr>fi_terminal := q\<rparr>"
| "set_inbox_queue CommandResultSource q b = b\<lparr>fi_command_results := q\<rparr>"
| "set_inbox_queue DeadlineSource q b = b\<lparr>fi_deadlines := q\<rparr>"
| "set_inbox_queue TelemetrySource q b = b\<lparr>fi_telemetry := q\<rparr>"

definition inbox_enqueue :: "EventSource \<Rightarrow> UiEvent \<Rightarrow> FairEventInbox \<Rightarrow> FairEventInbox" where
  "inbox_enqueue source event b =
    (let queue = inbox_queue source b;
         index = source_index source;
         full = length queue = fi_capacity_per_source b;
         b = (if full then b\<lparr>fi_dropped := (fi_dropped b)[index := saturating_add (fi_dropped b ! index) 1]\<rparr> else b)
     in set_inbox_queue source ((if full then tl queue else queue) @ [event]) b)"

definition inbox_push :: "EventSource \<Rightarrow> UiEvent \<Rightarrow> FairEventInbox \<Rightarrow> FairEventInbox" where
  "inbox_push source event b =
    (if event = Shutdown then b\<lparr>fi_shutdown := Some event\<rparr>
     else if source = TelemetrySource \<and> is_status_snapshot event
     then (case rposition is_status_snapshot (fi_telemetry b) of
             Some i \<Rightarrow> b\<lparr>fi_telemetry := (fi_telemetry b)[i := event]\<rparr>
           | None \<Rightarrow> inbox_enqueue source event b)
     else inbox_enqueue source event b)"

fun drain_source :: "UiEvent list \<Rightarrow> nat \<Rightarrow> UiEvent list \<Rightarrow> UiEvent list \<times> UiEvent list" where
  "drain_source queue 0 output = (queue, output)"
| "drain_source [] (Suc n) output = ([], output)"
| "drain_source (event # queue) (Suc n) output = drain_source queue n (output @ [event])"

definition drain_round :: "FairEventInbox \<Rightarrow> UiEvent list \<times> FairEventInbox" where
  "drain_round b =
    (case fi_shutdown b of
       Some shutdown \<Rightarrow> ([shutdown], b\<lparr>fi_shutdown := None\<rparr>)
     | None \<Rightarrow>
         let (terminal, events) = drain_source (fi_terminal b) (eb_terminal (fi_budgets b)) [];
             (telemetry, events) = drain_source (fi_telemetry b) (eb_telemetry (fi_budgets b)) events;
             (results, events) = drain_source (fi_command_results b) (eb_command_result (fi_budgets b)) events;
             (deadlines, events) = drain_source (fi_deadlines b) (eb_deadline (fi_budgets b)) events
         in (events, b\<lparr>fi_terminal := terminal, fi_telemetry := telemetry, fi_command_results := results,
                       fi_deadlines := deadlines\<rparr>))"

section \<open>Specification\<close>

fun inbox_budget :: "EventSource \<Rightarrow> EventBudgets \<Rightarrow> nat" where
  "inbox_budget TerminalSource e = eb_terminal e"
| "inbox_budget CommandResultSource e = eb_command_result e"
| "inbox_budget DeadlineSource e = eb_deadline e"
| "inbox_budget TelemetrySource e = eb_telemetry e"

text \<open>An inbox as \<open>new\<close> admits it, within its capacity, with at most one queued status snapshot.\<close>

definition inbox_ok :: "FairEventInbox \<Rightarrow> bool" where
  "inbox_ok b \<longleftrightarrow> 0 < fi_capacity_per_source b \<and> length (fi_dropped b) = 4 \<and>
    list_all (\<lambda>source. 0 < inbox_budget source (fi_budgets b) \<and>
        length (inbox_queue source b) \<le> fi_capacity_per_source b)
      [TerminalSource, CommandResultSource, DeadlineSource, TelemetrySource] \<and>
    length (filter is_status_snapshot (fi_telemetry b)) \<le> 1"

datatype InboxOp = InboxPush EventSource UiEvent | InboxDrain

fun inbox_step :: "InboxOp \<Rightarrow> FairEventInbox \<Rightarrow> FairEventInbox" where
  "inbox_step (InboxPush source event) b = inbox_push source event b"
| "inbox_step InboxDrain b = snd (drain_round b)"

text \<open>What a sequence of operations delivers, and the pushes and rounds in it.\<close>

fun delivered :: "InboxOp list \<Rightarrow> FairEventInbox \<Rightarrow> UiEvent list" where
  "delivered [] b = []"
| "delivered (InboxPush source event # ops) b = delivered ops (inbox_push source event b)"
| "delivered (InboxDrain # ops) b = fst (drain_round b) @ delivered ops (snd (drain_round b))"

text \<open>A push that has to drop the oldest event of a full queue, and operations among which there is none for a source.\<close>

fun overflows :: "EventSource \<Rightarrow> InboxOp \<Rightarrow> FairEventInbox \<Rightarrow> bool" where
  "overflows source (InboxPush s event) b =
    (s = source \<and> event \<noteq> Shutdown \<and> length (inbox_queue source b) = fi_capacity_per_source b \<and>
     \<not> (s = TelemetrySource \<and> is_status_snapshot event \<and> list_ex is_status_snapshot (fi_telemetry b)))"
| "overflows source InboxDrain b = False"

fun no_overflow :: "EventSource \<Rightarrow> InboxOp list \<Rightarrow> FairEventInbox \<Rightarrow> bool" where
  "no_overflow source [] b = True"
| "no_overflow source (op # ops) b = (\<not> overflows source op b \<and> no_overflow source ops (inbox_step op b))"

fun pushes_shutdown :: "InboxOp \<Rightarrow> bool" where
  "pushes_shutdown (InboxPush source event) = (event = Shutdown)"
| "pushes_shutdown InboxDrain = False"

definition rounds :: "InboxOp list \<Rightarrow> nat" where
  "rounds ops = length (filter (\<lambda>op. op = InboxDrain) ops)"

text \<open>Rounds that a pending or pushed shutdown may take for itself.\<close>

definition shutdown_rounds :: "InboxOp list \<Rightarrow> FairEventInbox \<Rightarrow> nat" where
  "shutdown_rounds ops b = (if fi_shutdown b = None then 0 else 1) + length (filter pushes_shutdown ops)"

section \<open>Proofs\<close>

lemma inbox_ok_source:
  assumes "inbox_ok b"
  shows "0 < inbox_budget source (fi_budgets b)" "length (inbox_queue source b) \<le> fi_capacity_per_source b"
  using assms by (cases source; simp add: inbox_ok_def)+

lemma drain_source_take: "drain_source q n out = (drop n q, out @ take n q)"
  by (induction q n out rule: drain_source.induct) auto

lemma drain_round_queue:
  "fi_shutdown b = None \<Longrightarrow> inbox_queue source (snd (drain_round b)) =
    drop (inbox_budget source (fi_budgets b)) (inbox_queue source b)"
  by (cases source) (simp_all add: drain_round_def drain_source_take)

lemma drain_round_delivers:
  "fi_shutdown b = None \<Longrightarrow>
   set (take (inbox_budget source (fi_budgets b)) (inbox_queue source b)) \<subseteq> set (fst (drain_round b))"
  by (cases source) (auto simp: drain_round_def drain_source_take)

lemma drain_round_frame [simp]:
  "fi_budgets (snd (drain_round b)) = fi_budgets b" "fi_shutdown (snd (drain_round b)) = None"
  "fi_capacity_per_source (snd (drain_round b)) = fi_capacity_per_source b"
  "fi_dropped (snd (drain_round b)) = fi_dropped b"
  by (simp_all add: drain_round_def drain_source_take split: option.split)

lemma filter_drop_le: "length (filter P (drop n xs)) \<le> length (filter P xs)"
  using filter_append [of P "take n xs" "drop n xs"] by (metis append_take_drop_id le_add2 length_append)

lemma drain_round_ok: "inbox_ok b \<Longrightarrow> inbox_ok (snd (drain_round b))"
  using filter_drop_le [of is_status_snapshot "eb_telemetry (fi_budgets b)" "fi_telemetry b"]
  by (auto simp: inbox_ok_def drain_round_def drain_source_take split: option.split)

lemma rposition_Some:
  assumes "rposition P xs = Some i"
  shows "i < length xs" "P (xs ! i)"
  using assms by (auto simp: rposition_def rev_nth dest!: position_bound)

lemma rposition_None: "rposition P xs = None \<Longrightarrow> filter P xs = []"
proof -
  have "position P ys = None \<Longrightarrow> filter P ys = []" for ys :: "'a list"
    by (induction ys) (auto split: if_splits)
  then show "rposition P xs = None \<Longrightarrow> filter P xs = []"
    by (metis filter_empty_conv map_option_is_None rposition_def set_rev)
qed

lemma filter_update_same: "i < length xs \<Longrightarrow> P (xs ! i) \<Longrightarrow> P x \<Longrightarrow> length (filter P (xs[i := x])) = length (filter P xs)"
  by (induction xs arbitrary: i) (auto split: nat.splits)

subsection \<open>Pushing\<close>

lemma set_inbox_queue_simps [simp]:
  "inbox_queue source (set_inbox_queue source q b) = q"
  "s \<noteq> source \<Longrightarrow> inbox_queue s (set_inbox_queue source q b) = inbox_queue s b"
  "fi_budgets (set_inbox_queue source q b) = fi_budgets b"
  "fi_capacity_per_source (set_inbox_queue source q b) = fi_capacity_per_source b"
  "fi_shutdown (set_inbox_queue source q b) = fi_shutdown b"
  "fi_dropped (set_inbox_queue source q b) = fi_dropped b"
  by (cases source; simp; cases s; simp)+

lemma inbox_queue_dropped [simp]: "inbox_queue source (b\<lparr>fi_dropped := d\<rparr>) = inbox_queue source b"
  by (cases source) simp_all

lemma inbox_enqueue_queue:
  "inbox_queue s (inbox_enqueue source event b) =
    (if s = source
     then (if length (inbox_queue s b) = fi_capacity_per_source b then tl (inbox_queue s b) else inbox_queue s b) @ [event]
     else inbox_queue s b)"
  by (simp add: inbox_enqueue_def Let_def)

lemma inbox_enqueue_frame [simp]:
  "fi_budgets (inbox_enqueue source event b) = fi_budgets b"
  "fi_capacity_per_source (inbox_enqueue source event b) = fi_capacity_per_source b"
  "fi_shutdown (inbox_enqueue source event b) = fi_shutdown b"
  "length (fi_dropped (inbox_enqueue source event b)) = length (fi_dropped b)"
  by (simp_all add: inbox_enqueue_def Let_def)

lemma inbox_push_frame [simp]:
  "fi_budgets (inbox_push source event b) = fi_budgets b"
  "fi_capacity_per_source (inbox_push source event b) = fi_capacity_per_source b"
  "event \<noteq> Shutdown \<Longrightarrow> fi_shutdown (inbox_push source event b) = fi_shutdown b"
  "length (fi_dropped (inbox_push source event b)) = length (fi_dropped b)"
  by (simp_all add: inbox_push_def split: option.split)

lemma inbox_ok_iff:
  "inbox_ok b \<longleftrightarrow> 0 < fi_capacity_per_source b \<and> length (fi_dropped b) = 4 \<and>
    (\<forall>source. 0 < inbox_budget source (fi_budgets b) \<and>
       length (inbox_queue source b) \<le> fi_capacity_per_source b) \<and>
    length (filter is_status_snapshot (inbox_queue TelemetrySource b)) \<le> 1"
proof -
  have "(\<forall>source. P source) \<longleftrightarrow> list_all P [TerminalSource, CommandResultSource, DeadlineSource, TelemetrySource]"
    for P by simp (metis EventSource.exhaust)
  then show ?thesis by (simp add: inbox_ok_def)
qed

lemma inbox_enqueue_ok:
  assumes "inbox_ok b"
    and "source = TelemetrySource \<and> is_status_snapshot event \<Longrightarrow> filter is_status_snapshot (fi_telemetry b) = []"
  shows "inbox_ok (inbox_enqueue source event b)"
proof -
  have sized: "length (inbox_queue s (inbox_enqueue source event b)) \<le> fi_capacity_per_source b" for s
  proof -
    have "0 < fi_capacity_per_source b" using assms(1) by (simp add: inbox_ok_def)
    with inbox_ok_source(2) [OF assms(1), of s] show ?thesis by (auto simp: inbox_enqueue_queue)
  qed
  have tail: "length (filter is_status_snapshot (tl xs)) \<le> length (filter is_status_snapshot xs)" for xs
    using filter_drop_le [of is_status_snapshot 1 xs] by (simp add: drop_Suc)
  have one: "length (filter is_status_snapshot (fi_telemetry b)) + length (filter is_status_snapshot [event]) \<le> 1"
    if "source = TelemetrySource"
    using assms that by (cases "is_status_snapshot event") (simp_all add: inbox_ok_def)
  have queue: "fi_telemetry (inbox_enqueue source event b) =
      (if source = TelemetrySource
       then (if length (fi_telemetry b) = fi_capacity_per_source b then tl (fi_telemetry b) else fi_telemetry b) @ [event]
       else fi_telemetry b)"
    using inbox_enqueue_queue [of TelemetrySource source event b] by simp
  have "length (filter is_status_snapshot (fi_telemetry (inbox_enqueue source event b))) \<le> 1"
  proof (cases "source = TelemetrySource")
    case True
    then show ?thesis using one tail [of "fi_telemetry b"] unfolding queue by (auto split: if_splits)
  next
    case False
    then show ?thesis using assms(1) unfolding queue by (simp add: inbox_ok_def)
  qed
  with assms(1) sized show ?thesis by (simp add: inbox_ok_iff)
qed

lemma inbox_push_ok:
  assumes "inbox_ok b"
  shows "inbox_ok (inbox_push source event b)"
proof (cases "event \<noteq> Shutdown \<and> source = TelemetrySource \<and> is_status_snapshot event")
  case True
  show ?thesis
  proof (cases "rposition is_status_snapshot (fi_telemetry b)")
    case None
    with True assms rposition_None [OF None] show ?thesis
      by (auto simp: inbox_push_def intro: inbox_enqueue_ok)
  next
    case (Some i)
    with True assms rposition_Some [OF Some] show ?thesis
      by (simp add: inbox_push_def inbox_ok_def filter_update_same)
  qed
next
  case False
  then have "inbox_push source event b = (if event = Shutdown then b\<lparr>fi_shutdown := Some event\<rparr>
      else inbox_enqueue source event b)"
    by (auto simp: inbox_push_def)
  moreover have "inbox_ok (b\<lparr>fi_shutdown := Some event\<rparr>)" using assms by (simp add: inbox_ok_def)
  moreover have "event \<noteq> Shutdown \<Longrightarrow> inbox_ok (inbox_enqueue source event b)"
    using assms False by (intro inbox_enqueue_ok) auto
  ultimately show ?thesis by (cases "event = Shutdown") simp_all
qed

interpretation inbox: state_machine inbox_product inbox_step inbox_ok
proof
  show "inbox_ok inbox_product"
    by (simp add: inbox_product_def inbox_from_validated_parts_def inbox_ok_def budgets_default_def
        EVENT_SOURCE_CAPACITY_def)
  show "inbox_ok (inbox_step op b)" if "inbox_ok b" for op b
    using that by (cases op) (simp_all add: inbox_push_ok drain_round_ok)
qed

subsection \<open>Delivery\<close>

text \<open>A push leaves a queued event that is not a status snapshot where it is, unless its queue is full.\<close>

lemma inbox_push_keeps:
  assumes "i < length (inbox_queue source b)" "\<not> is_status_snapshot (inbox_queue source b ! i)"
    and "\<not> overflows source (InboxPush s event) b"
  shows "i < length (inbox_queue source (inbox_push s event b)) \<and>
    inbox_queue source (inbox_push s event b) ! i = inbox_queue source b ! i"
proof -
  have updated: "inbox_queue source (b\<lparr>fi_telemetry := q\<rparr>) = (if source = TelemetrySource then q else inbox_queue source b)" for q
    by (cases source) simp_all
  have shut: "inbox_queue source (b\<lparr>fi_shutdown := x\<rparr>) = inbox_queue source b" for x
    by (cases source) simp_all
  have replaced: "(fi_telemetry b)[k := event] ! i = fi_telemetry b ! i"
    if "source = TelemetrySource" "rposition is_status_snapshot (fi_telemetry b) = Some k" for k
    using that assms(1,2) rposition_Some [OF that(2)] by (cases "k = i") auto
  consider "event = Shutdown" | k where "rposition is_status_snapshot (fi_telemetry b) = Some k"
      "inbox_push s event b = b\<lparr>fi_telemetry := (fi_telemetry b)[k := event]\<rparr>"
    | "event \<noteq> Shutdown" "inbox_push s event b = inbox_enqueue s event b"
      "\<not> (s = TelemetrySource \<and> is_status_snapshot event \<and> list_ex is_status_snapshot (fi_telemetry b))"
  proof (cases "event \<noteq> Shutdown \<and> s = TelemetrySource \<and> is_status_snapshot event")
    case True
    show thesis
    proof (cases "rposition is_status_snapshot (fi_telemetry b)")
      case None
      then have "\<not> list_ex is_status_snapshot (fi_telemetry b)"
        using rposition_None [OF None] by (simp add: list_ex_iff filter_empty_conv)
      with True None that(3) show thesis by (simp add: inbox_push_def)
    qed (use True that(2) in \<open>simp add: inbox_push_def\<close>)
  next
    case False
    then have "event \<noteq> Shutdown \<Longrightarrow> inbox_push s event b = inbox_enqueue s event b" by (auto simp: inbox_push_def)
    with False that(1,3) show thesis by blast
  qed
  then show ?thesis
  proof cases
    case 1
    then show ?thesis using assms(1) by (simp add: inbox_push_def shut)
  next
    case 2
    then show ?thesis using assms(1) replaced by (auto simp: updated)
  next
    case 3
    with assms(3) have "s = source \<Longrightarrow> length (inbox_queue source b) \<noteq> fi_capacity_per_source b" by auto
    then show ?thesis using 3(2) assms(1) by (auto simp: inbox_enqueue_queue nth_append)
  qed
qed

lemma shutdown_rounds_push: "shutdown_rounds ops (inbox_push s event b) \<le> shutdown_rounds (InboxPush s event # ops) b"
  by (cases "event = Shutdown") (simp_all add: shutdown_rounds_def)

lemma delivered_in_time:
  assumes "i < length (inbox_queue source b)" "\<not> is_status_snapshot (inbox_queue source b ! i)"
    and "no_overflow source ops b" "k + shutdown_rounds ops b \<le> rounds ops" "i < k * inbox_budget source (fi_budgets b)"
  shows "inbox_queue source b ! i \<in> set (delivered ops b)"
  using assms
proof (induction ops b arbitrary: i k rule: delivered.induct)
  case (1 b)
  then show ?case by (simp add: rounds_def)
next
  case (2 s event ops b)
  have kept: "i < length (inbox_queue source (inbox_push s event b))"
    "inbox_queue source (inbox_push s event b) ! i = inbox_queue source b ! i"
    using inbox_push_keeps [OF "2.prems"(1,2), of s event] "2.prems"(3) by auto
  have "k + shutdown_rounds ops (inbox_push s event b) \<le> rounds ops"
    using "2.prems"(4) shutdown_rounds_push [of ops s event b] by (simp add: rounds_def)
  from "2.IH" [OF kept(1) _ _ this] "2.prems"(2,3,5) kept(2) show ?case by simp
next
  case (3 ops b)
  let ?n = "inbox_budget source (fi_budgets b)" and ?q = "inbox_queue source b" and ?b = "snd (drain_round b)"
  show ?case
  proof (cases "fi_shutdown b")
    case (Some x)
    have same: "inbox_queue source ?b = ?q" using Some by (cases source) (simp_all add: drain_round_def)
    have "k + shutdown_rounds ops ?b \<le> rounds ops"
      using "3.prems"(4) Some by (simp add: rounds_def shutdown_rounds_def)
    from "3.IH" [OF _ _ _ this, of i] "3.prems"(1,2,3,5) same show ?thesis by simp
  next
    case None
    have drained: "inbox_queue source ?b = drop ?n ?q" using None by (rule drain_round_queue)
    show ?thesis
    proof (cases "i < ?n")
      case True
      with "3.prems"(1) have "?q ! i \<in> set (take ?n ?q)" by (auto simp: in_set_conv_nth)
      with drain_round_delivers [OF None] show ?thesis by auto
    next
      case False
      then obtain j where j: "i = ?n + j" by (metis le_Suc_ex not_less)
      obtain h where h: "k = Suc h" using "3.prems"(5) by (cases k) auto
      have "h + shutdown_rounds ops ?b \<le> rounds ops"
        using "3.prems"(4) None h by (simp add: rounds_def shutdown_rounds_def)
      from "3.IH" [OF _ _ _ this, of j] "3.prems"(1,2,3,5) j h show ?thesis by (simp add: drained)
    qed
  qed
qed

section \<open>Properties\<close>

text \<open>C12. No event source starves.  In every reachable inbox and under any load, an event that waits at position i of its
  queue is delivered once i is below the budget of its source times the number of rounds, those left out that a pending or
  pushed shutdown may take.  Two exceptions are the purpose of the inbox: a queued status snapshot may be replaced
  by a newer one, and a push onto the full queue of a source drops its oldest event, so none of the pushes may do that to this source.  The
  number of pushes is not limited.  The inbox stays within its capacities throughout.\<close>

theorem inbox_delivers:
  assumes "b = fold inbox_step earlier inbox_product"
    and "i < length (inbox_queue source b)" "\<not> is_status_snapshot (inbox_queue source b ! i)"
    and "no_overflow source ops b"
    and "i < (rounds ops - shutdown_rounds ops b) * inbox_budget source (fi_budgets b)"
  shows "inbox_queue source b ! i \<in> set (delivered ops b) \<and> inbox_ok (fold inbox_step ops b)"
proof
  have "rounds ops - shutdown_rounds ops b + shutdown_rounds ops b \<le> rounds ops"
    using assms(5) by (cases "shutdown_rounds ops b \<le> rounds ops") auto
  from delivered_in_time [OF assms(2-4) this assms(5)] show "inbox_queue source b ! i \<in> set (delivered ops b)" .
  show "inbox_ok (fold inbox_step ops b)"
    using inbox.run_inv [of "earlier @ ops"] assms(1) by simp
qed

text \<open>The third of three deadlines, with a shutdown taking the first of three rounds.\<close>

theorem inbox_delivers_witness:
  "let b = fold inbox_step [InboxPush DeadlineSource (ReconnectDeadline n). n \<leftarrow> [1, 2, 3]] inbox_product;
       ops = [InboxPush TerminalSource Shutdown, InboxDrain, InboxPush DeadlineSource (ReconnectDeadline 4), InboxDrain, InboxDrain]
   in inbox_queue DeadlineSource b ! 2 = ReconnectDeadline 3 \<and> ReconnectDeadline 3 \<in> set (delivered ops b)"
proof -
  let ?e = "[InboxPush DeadlineSource (ReconnectDeadline n). n \<leftarrow> [1, 2, 3]]"
  let ?ops = "[InboxPush TerminalSource Shutdown, InboxDrain, InboxPush DeadlineSource (ReconnectDeadline 4), InboxDrain, InboxDrain]"
  let ?b = "fold inbox_step ?e inbox_product"
  have queue: "inbox_queue DeadlineSource ?b = [ReconnectDeadline 1, ReconnectDeadline 2, ReconnectDeadline 3]"
    "fi_shutdown ?b = None" "fi_capacity_per_source ?b = 256" "eb_deadline (fi_budgets ?b) = 2"
    by (simp_all add: inbox_push_def inbox_enqueue_def inbox_product_def inbox_from_validated_parts_def
        budgets_default_def EVENT_SOURCE_CAPACITY_def Let_def)
  have "no_overflow DeadlineSource ?ops ?b"
    by (simp add: inbox_push_def inbox_enqueue_def inbox_product_def inbox_from_validated_parts_def
        budgets_default_def EVENT_SOURCE_CAPACITY_def Let_def drain_round_def)
  moreover have "2 < (rounds ?ops - shutdown_rounds ?ops ?b) * inbox_budget DeadlineSource (fi_budgets ?b)"
    using queue(2,4) by (simp add: rounds_def shutdown_rounds_def del: fold.simps)
  ultimately have "inbox_queue DeadlineSource ?b ! 2 \<in> set (delivered ?ops ?b)"
    using inbox_delivers [of ?b ?e 2 DeadlineSource ?ops] queue(1) by simp
  with queue(1) show ?thesis by (simp only: Let_def) simp
qed

end
