(* ===== verification/Spec2Isabelle.thy ===== *)
theory Spec2Isabelle
  imports Probe_Scheduler Telemetry Config_Admission Transaction_Safety State_Store Tui_Requests Tui_Logs Event_Inbox
begin

text \<open>
  A verification development of ratash, a supervisor for the Mihomo proxy core.

  \<^bold>\<open>The program.\<close>  A user-level supervisor owns a catalogue of subscription profiles, a local rule
  set and the schedulers that refresh profiles and probe nodes.  From the active profile and
  the rules it compiles a configuration, stages everything as content-addressed objects and
  runs a configuration transaction: the candidate is journalled, handed to a privileged
  service that runs the core, confirmed and committed, or undone.  Telemetry of the core is
  retained in bounded buffers.  The Status Interface is a terminal program that receives
  events from the supervisor through a fair inbox and sends commands back.

  \<^bold>\<open>Foundations.\<close>
  \<^item> \<open>Ratash_Prelude\<close>: machine words with checked and saturating arithmetic, results, vectors and the
    ordered maps and sets of the Rust standard library (locale \<open>ordered_map\<close>).
  \<^item> \<open>Rust_Strings\<close>: strings as UTF-8 bytes.  \<open>Ratash_Constants\<close>: the constants of \<open>constants.rs\<close> in use.
  \<^item> \<open>Yaml_Values\<close>: the value tree of the YAML crate.  \<open>Programs\<close>: programs over a world and triples.
  \<^item> \<open>Machines\<close>: the locales \<open>state_machine\<close>, \<open>worker_pool\<close>, \<open>stamped_machine\<close> and
    \<open>versioned_machine\<close>, the contract that stateful components share; each is interpreted on the
    operations of the components below.

  \<^bold>\<open>Supervisor side.\<close>
  \<^item> \<open>Domain_Types\<close>, \<open>Status_Types\<close>, \<open>Core_Types\<close> (\<open>domain.rs\<close>, \<open>core.rs\<close>): identifiers, samples, status types.
    The canonical encoding behind node identifiers is injective, and the redacted form of a
    subscription URL does not depend on its secrets.
  \<^item> \<open>Rules\<close> (\<open>rule.rs\<close>): rule parsers and the editable rule set.  Parsing inverts printing, the scanner for
    logical payloads agrees with a grammar, edits keep the set well formed and advance its revision.
  \<^item> \<open>Profiles\<close> (\<open>profile.rs\<close>): snapshots, names and the catalogue.  The catalogue stays consistent, a refresh
    commits once and only against the revisions it was started from, selectors are unambiguous.
  \<^item> \<open>Refresh_Scheduler\<close>, \<open>Probe_Scheduler\<close> (\<open>scheduler.rs\<close>): worker limits, earliest deadline first, no task
    lost or completed twice, isolation of generations: after a reset the probes of
    every earlier generation are late for ever.
  \<^item> \<open>Telemetry\<close> (\<open>telemetry.rs\<close>): log retention within its budgets, exact gap detection, publications of an old core ignored.
  \<^item> \<open>Config_Policy\<close>, \<open>Config_Compiler\<close>, \<open>Config_Admission\<close> (\<open>config.rs\<close> and the bundled policy file): the
    validator decides a declarative relation; with the bundled policy the compiler never reaches one of its
    \<open>expect\<close> calls, and what it compiles is admitted by the service and again after a restart.  The first of these
    needs local provider paths without backslashes, which the compiler rewrites and the file list of the service keeps.
  \<^item> \<open>Persistence\<close>, \<open>Store_Recovery\<close> (\<open>persistence.rs\<close>): the store with a failure possible at every system
    call.  Every operation refines the atomic steps of \<open>store_step\<close>; the store can always be recovered, and
    pruning removes nothing that is referred to.
  \<^item> \<open>State_Store\<close> (\<open>state.rs\<close>): staging and loading of the authoritative state.  What is committed is what
    the next start loads, under the stated conditions; two of them, on the number of rules and the
    length of stored URLs, are not checked by staging, and a state that violates one and is committed never loads.
  \<^item> \<open>Transactions\<close>, \<open>Transaction_Safety\<close> (\<open>transaction.rs\<close>): the coordinator over the ports it is given, verified
    against the locale \<open>transaction_store\<close>, which is interpreted on the persistence store.  A transaction commits the
    candidate or leaves the committed one in place, except that a commit whose recovery fails too may leave either, with
    the journal still there; every call to the runtime is covered by the journal, and startup
    recovery ends with the committed generation or an error that leaves the journal for the next start.

  \<^bold>\<open>Status Interface.\<close>
  \<^item> \<open>Tui_State\<close>, \<open>Tui_Reducer\<close> (\<open>tui/state.rs\<close>, \<open>tui/input.rs\<close>, \<open>tui/reducer.rs\<close>): the view state, every intent and
    every event with the commands it sends.
  \<^item> \<open>Tui_Safety\<close>, \<open>Tui_Requests\<close>, \<open>Tui_Logs\<close>: selections stay in range and projections within their limits after
    any events; requests are answered, cancelled or, by a new connection, abandoned; late answers are ignored; commands
    that change the system come only from the state that asked for them; a log that is not followed keeps its selected record.
  \<^item> \<open>Event_Inbox\<close> (\<open>tui/event_inbox.rs\<close>): bounded queues, and every queued event other than a replaced status snapshot
    is delivered within a number of rounds that its position, its budget and pending shutdowns give, unless its queue overflows.

  \<^bold>\<open>Conventions.\<close>  A method on \<open>&mut self\<close> returns its result and the new state.  \<open>Result\<close> is a sum with the error on
  the left; error messages are left out where no branch depends on them.  A \<open>u64\<close> keeps its width and its
  overflow behaviour; a \<open>usize\<close> is a natural number with its maximum written out.  Loops are recursive
  functions with termination proofs, so no definition uses fuel and every theorem about a result also says that
  there is one.  Code of other crates (SHA-256, JSON and YAML text, URL parsing, percent decoding, lower-casing, UUID
  text) is a parameter; the laws assumed of it are hypotheses of the theorems, and the witnesses show that they can hold.

  \<^bold>\<open>Bounds of the model.\<close>  The disk model has atomic renames and a private directory with one writer; a crash is a run whose
  remaining system calls all fail.  Locks are outcomes (poisoned or not); the theorems about the coordinator,
  the schedulers and the reducer hold for every order of calls, which covers the interleavings that the locks allow.

  \<^bold>\<open>Not modelled.\<close>  Sockets, frames and field-by-field JSON projections (\<open>ipc.rs\<close>, \<open>ipc_runtime\<close>, \<open>core_service_ipc\<close>,
  \<open>frontend_ipc.rs\<close>, \<open>shutdown_ipc.rs\<close>); processes, signals and file ownership (\<open>service\<close>, \<open>process_controller.rs\<close>,
  \<open>core_guardian.rs\<close>, \<open>lifecycle.rs\<close>, \<open>runtime_bundle.rs\<close>); calls to the core (\<open>mihomo.rs\<close>, \<open>validator.rs\<close>, \<open>geodata.rs\<close>); downloads
  (\<open>profile_source.rs\<close>); threads and wiring (\<open>supervisor.rs\<close> apart from its direct changes of the catalogue,
  \<open>background.rs\<close>, \<open>daemon.rs\<close>, \<open>production.rs\<close>, \<open>tui_runtime\<close>); drawing (\<open>tui/render\<close>, \<open>tui/terminal.rs\<close>); the command
  line (\<open>cli\<close>) and its output types.  These are input and output, third-party calls or thread scheduling; where a modelled
  component depends on them they are its ports or its inputs and may behave in any way.
\<close>

end
